(* ===== verification/Prelude.thy ===== *)
theory Prelude
  imports Complex_Main "HOL-Library.AList" "HOL-Library.Word" "HOL-Library.List_Lexorder"
    "HOL-Library.Multiset"
begin

text \<open>
  The vocabulary shared by every component of the master server: Python strings as lists of
  code points with their UTF-8 encoding, bytes and hexadecimal text, insertion-ordered
  dictionaries as association lists, the exceptions the code can raise, and the generic lemmas
  about them. Nothing here is specific to one source file.
\<close>

named_theorems dict_simps \<open>look-ups and key sets after dictionary updates\<close>
named_theorems py_simps \<open>evaluation of the Python primitives on concrete values\<close>

section \<open>Python strings\<close>

text \<open>
  A Python \<^verbatim>\<open>str\<close> is a list of Unicode code points, surrogates included (a JSON
  escape can produce a lone surrogate, and encoding such a string raises). A literal of the
  source is written \<open>u ''HELLO''\<close>.
\<close>

type_synonym pystr = "nat list"
type_synonym byte = "8 word"
type_synonym bytes = "byte list"

definition u :: "string \<Rightarrow> pystr" where
  "u s = map of_char s"

lemma u_eq_iff [simp]: "u s = u t \<longleftrightarrow> s = t"
  by (simp add: u_def inj_map_eq_map inj_on_def)

lemma u_Nil [simp]: "u [] = []" and u_eq_Nil [simp]: "u s = [] \<longleftrightarrow> s = []"
  by (simp_all add: u_def)

lemma Nil_eq_u [simp]: "[] = u s \<longleftrightarrow> s = []"
  by (auto simp: u_def)

lemma length_u [simp]: "length (u s) = length s"
  by (simp add: u_def)

lemma u_in_image [simp]: "u s \<in> u ` S \<longleftrightarrow> s \<in> S"
  by auto

text \<open>UTF-8: \<^verbatim>\<open>str.encode("utf-8")\<close> fails on surrogates, and only on them.\<close>

definition is_surrogate :: "nat \<Rightarrow> bool" where
  "is_surrogate c \<longleftrightarrow> 55296 \<le> c \<and> c \<le> 57343"

definition utf8_cp :: "nat \<Rightarrow> nat list" where
  "utf8_cp c =
     (if c < 128 then [c]
      else if c < 2048 then [192 + c div 64, 128 + c mod 64]
      else if c < 65536 then [224 + c div 4096, 128 + c div 64 mod 64, 128 + c mod 64]
      else [240 + c div 262144, 128 + c div 4096 mod 64, 128 + c div 64 mod 64, 128 + c mod 64])"

definition utf8_encode :: "pystr \<Rightarrow> bytes option" where
  "utf8_encode s =
     (if list_ex is_surrogate s then None else Some (map word_of_nat (concat (map utf8_cp s))))"

definition utf8_len :: "pystr \<Rightarrow> nat option" where
  "utf8_len s = map_option length (utf8_encode s)"

lemma utf8_len_cp_bounds: "1 \<le> length (utf8_cp c)" "length (utf8_cp c) \<le> 4"
  by (auto simp: utf8_cp_def)

lemma utf8_len_alt:
  "utf8_len s =
     (if list_ex is_surrogate s then None else Some (sum_list (map (length \<circ> utf8_cp) s)))"
  by (simp add: utf8_len_def utf8_encode_def length_concat comp_def)

lemma length_le_utf8_len: "utf8_len s = Some n \<Longrightarrow> length s \<le> n"
proof -
  have "length s \<le> sum_list (map (length \<circ> utf8_cp) s)"
  proof (induction s)
    case (Cons c s)
    then show ?case using utf8_len_cp_bounds(1) [of c] by simp
  qed simp
  then show "utf8_len s = Some n \<Longrightarrow> length s \<le> n"
    by (auto simp: utf8_len_alt split: if_splits)
qed

lemma utf8_len_ascii:
  assumes "list_all (\<lambda>c. c < 128) s"
  shows "utf8_len s = Some (length s)"
  using assms by (induction s) (auto simp: utf8_len_alt is_surrogate_def utf8_cp_def)

text \<open>
  \<^verbatim>\<open>bytes.decode("utf-8", errors="strict")\<close>: overlong forms, surrogates and values
  beyond \<open>U+10FFFF\<close> are refused.
\<close>

definition is_cont :: "nat \<Rightarrow> bool" where
  "is_cont b \<longleftrightarrow> 128 \<le> b \<and> b < 192"

fun utf8_decode_nats :: "nat list \<Rightarrow> pystr option" where
  "utf8_decode_nats [] = Some []"
| "utf8_decode_nats (b # bs) =
     (if b < 128 then map_option ((#) b) (utf8_decode_nats bs)
      else if b < 194 then None
      else if b < 224 then
        (case bs of
           c1 # r \<Rightarrow>
             if is_cont c1 then map_option ((#) ((b - 192) * 64 + (c1 - 128))) (utf8_decode_nats r)
             else None
         | _ \<Rightarrow> None)
      else if b < 240 then
        (case bs of
           c1 # c2 # r \<Rightarrow>
             (let c = (b - 224) * 4096 + (c1 - 128) * 64 + (c2 - 128)
              in if is_cont c1 \<and> is_cont c2 \<and> 2048 \<le> c \<and> \<not> is_surrogate c
                 then map_option ((#) c) (utf8_decode_nats r) else None)
         | _ \<Rightarrow> None)
      else if b < 245 then
        (case bs of
           c1 # c2 # c3 # r \<Rightarrow>
             (let c = (b - 240) * 262144 + (c1 - 128) * 4096 + (c2 - 128) * 64 + (c3 - 128)
              in if is_cont c1 \<and> is_cont c2 \<and> is_cont c3 \<and> 65536 \<le> c \<and> c \<le> 1114111
                 then map_option ((#) c) (utf8_decode_nats r) else None)
         | _ \<Rightarrow> None)
      else None)"

definition utf8_decode :: "bytes \<Rightarrow> pystr option" where
  "utf8_decode bs = utf8_decode_nats (map unat bs)"

lemma utf8_cp_byte: "c \<le> 1114111 \<Longrightarrow> b \<in> set (utf8_cp c) \<Longrightarrow> b < 256"
  by (auto simp: utf8_cp_def split: if_splits)

lemma utf8_split64: "c div 4096 * 4096 + c div 64 mod 64 * 64 + c mod 64 = (c :: nat)"
proof -
  have "c div 4096 = c div 64 div 64" using div_mult2_eq [of c 64 64] by simp
  with div_mult_mod_eq [of "c div 64" 64] div_mult_mod_eq [of c 64] show ?thesis by linarith
qed

lemma utf8_split4096: "c div 262144 * 262144 + c div 4096 mod 64 * 4096 = (c :: nat) div 4096 * 4096"
proof -
  have "c div 262144 = c div 4096 div 64" using div_mult2_eq [of c 4096 64] by simp
  with div_mult_mod_eq [of "c div 4096" 64] show ?thesis by linarith
qed

lemma utf8_decode_cp:
  assumes "c \<le> 1114111" "\<not> is_surrogate c"
  shows "utf8_decode_nats (utf8_cp c @ bs) = map_option ((#) c) (utf8_decode_nats bs)"
proof -
  consider "c < 128" | "128 \<le> c" "c < 2048" | "2048 \<le> c" "c < 65536" | "65536 \<le> c" by linarith
  then show ?thesis
  proof cases
    case 1
    then show ?thesis by (simp add: utf8_cp_def)
  next
    case 2
    then have b: "2 \<le> c div 64" "c div 64 < 32" by linarith+
    from 2 show ?thesis using b by (simp add: utf8_cp_def is_cont_def)
  next
    case 3
    then have b: "c div 4096 < 16" by linarith
    from 3 b assms(2) show ?thesis
      using utf8_split64 [of c] by (simp add: utf8_cp_def is_cont_def Let_def)
  next
    case 4
    with assms(1) have b: "c div 262144 < 5" by linarith
    have "c div 262144 * 262144 + c div 4096 mod 64 * 4096 + c div 64 mod 64 * 64 + c mod 64 = c"
      using utf8_split64 [of c] utf8_split4096 [of c] by linarith
    with 4 b assms(1) show ?thesis by (simp add: utf8_cp_def is_cont_def Let_def)
  qed
qed

lemma utf8_decode_encode:
  assumes "list_all (\<lambda>c. c \<le> 1114111) s" "utf8_encode s = Some bs"
  shows "utf8_decode bs = Some s"
proof -
  have ok: "\<not> list_ex is_surrogate s" "bs = map word_of_nat (concat (map utf8_cp s))"
    using assms(2) by (auto simp: utf8_encode_def split: if_splits)
  have "\<forall>b \<in> set (concat (map utf8_cp s)). b < 256"
    using assms(1) utf8_cp_byte by (fastforce simp: list_all_iff)
  then have "map unat bs = concat (map utf8_cp s)"
    unfolding ok(2) map_map by (intro map_idI) (auto simp: unat_of_nat)
  moreover have "utf8_decode_nats (concat (map utf8_cp s)) = Some s"
    using assms(1) ok(1) by (induction s) (simp_all add: utf8_decode_cp)
  ultimately show ?thesis by (simp add: utf8_decode_def)
qed

section \<open>Hexadecimal text\<close>

text \<open>
  \<^verbatim>\<open>bytes.fromhex\<close> skips ASCII white space between two bytes, never inside one, takes
  digits of either case, and raises \<^verbatim>\<open>ValueError\<close> (here \<open>None\<close>) otherwise.
  \<^verbatim>\<open>bytes.hex\<close> prints two lower-case digits per byte.
\<close>

definition is_py_space :: "nat \<Rightarrow> bool" where
  "is_py_space c \<longleftrightarrow> c = 32 \<or> 9 \<le> c \<and> c \<le> 13"

definition hexval :: "nat \<Rightarrow> nat option" where
  "hexval c =
     (if 48 \<le> c \<and> c \<le> 57 then Some (c - 48)
      else if 97 \<le> c \<and> c \<le> 102 then Some (c - 87)
      else if 65 \<le> c \<and> c \<le> 70 then Some (c - 55)
      else None)"

definition is_hex :: "nat \<Rightarrow> bool" where
  "is_hex c \<longleftrightarrow> hexval c \<noteq> None"

definition is_lower_hex :: "nat \<Rightarrow> bool" where
  "is_lower_hex c \<longleftrightarrow> 48 \<le> c \<and> c \<le> 57 \<or> 97 \<le> c \<and> c \<le> 102"

fun fromhex :: "pystr \<Rightarrow> bytes option" where
  "fromhex [] = Some []"
| "fromhex (c # cs) =
     (if is_py_space c then fromhex cs
      else case cs of
        [] \<Rightarrow> None
      | d # ds \<Rightarrow>
          (case (hexval c, hexval d) of
             (Some a, Some b) \<Rightarrow> map_option ((#) (word_of_nat (16 * a + b))) (fromhex ds)
           | _ \<Rightarrow> None))"

definition hex_digit :: "nat \<Rightarrow> nat" where
  "hex_digit n = (if n < 10 then 48 + n else 87 + n)"

definition hex :: "bytes \<Rightarrow> pystr" where
  "hex bs = concat (map (\<lambda>b. [hex_digit (unat b div 16), hex_digit (unat b mod 16)]) bs)"

lemma is_lower_hex_imp_is_hex: "is_lower_hex c \<Longrightarrow> is_hex c"
  by (auto simp: is_lower_hex_def is_hex_def hexval_def)

lemma is_hex_not_space: "is_hex c \<Longrightarrow> \<not> is_py_space c"
  by (auto simp: is_py_space_def is_hex_def hexval_def split: if_splits)

lemma is_hex_ascii: "is_hex c \<Longrightarrow> c < 128"
  by (auto simp: is_hex_def hexval_def split: if_splits)

lemma hexval_hex_digit [simp]: "n < 16 \<Longrightarrow> hexval (hex_digit n) = Some n"
  by (auto simp: hexval_def hex_digit_def)

lemma hex_digit_not_space [simp]: "n < 16 \<Longrightarrow> \<not> is_py_space (hex_digit n)"
  by (auto simp: is_py_space_def hex_digit_def)

lemma hex_Nil [simp]: "hex [] = []"
  by (simp add: hex_def)

lemma hex_Cons [simp]:
  "hex (b # bs) = hex_digit (unat b div 16) # hex_digit (unat b mod 16) # hex bs"
  by (simp add: hex_def)

lemma length_hex [simp]: "length (hex bs) = 2 * length bs"
  by (induction bs) simp_all

lemma unat_byte_bound: "unat (b :: byte) div 16 < 16"
  using unsigned_less [of b, where ?'a = nat] by simp

lemma fromhex_hex [simp]: "fromhex (hex bs) = Some bs"
proof (induction bs)
  case (Cons b bs)
  have "16 * (unat b div 16) + unat b mod 16 = unat b" by simp
  with Cons show ?case
    by (simp add: unat_byte_bound)
qed simp

lemma hex_lower: "list_all is_lower_hex (hex bs)"
proof -
  have d: "is_lower_hex (hex_digit n)" if "n < 16" for n
    using that by (auto simp: is_lower_hex_def hex_digit_def)
  show ?thesis
    by (induction bs) (simp_all add: d unat_byte_bound)
qed

lemma hex_inject: "hex a = hex b \<longleftrightarrow> a = b"
  by (metis fromhex_hex option.inject)

text \<open>
  Each decoded byte takes two characters, so white space costs length: a text of exactly
  \<open>2 * n\<close> characters that decodes to \<open>n\<close> bytes holds hexadecimal digits only.
\<close>

lemma fromhex_length: "fromhex s = Some bs \<Longrightarrow> 2 * length bs \<le> length s"
proof (induction s arbitrary: bs rule: fromhex.induct)
  case (2 c cs)
  then show ?case
    by (fastforce split: if_splits list.splits option.splits)
qed simp

lemma fromhex_Some_Cons:
  assumes "fromhex (c # cs) = Some bs" "\<not> is_py_space c"
  obtains d ds b bs' where "cs = d # ds" "is_hex c" "is_hex d" "fromhex ds = Some bs'" "bs = b # bs'"
  using assms by (auto simp: is_hex_def split: list.splits option.splits)

lemma fromhex_exact:
  "fromhex s = Some bs \<Longrightarrow> length s = 2 * length bs \<Longrightarrow> list_all is_hex s"
proof (induction s arbitrary: bs rule: fromhex.induct)
  case (2 c cs)
  show ?case
  proof (cases "is_py_space c")
    case True
    with "2.prems" fromhex_length [of cs bs] show ?thesis by simp
  next
    case False
    with "2.prems"(1) obtain d ds b bs' where
      *: "cs = d # ds" "is_hex c" "is_hex d" "fromhex ds = Some bs'" "bs = b # bs'"
      by (rule fromhex_Some_Cons)
    then obtain a a' where "hexval c = Some a" "hexval d = Some a'"
      by (auto simp: is_hex_def)
    with False * "2.prems"(2) "2.IH"(2) [of d ds _ _ a a' bs'] have "list_all is_hex ds"
      by simp
    with * show ?thesis by simp
  qed
qed simp

lemma fromhex_all_hex:
  "list_all is_hex s \<Longrightarrow> even (length s) \<Longrightarrow> \<exists>bs. fromhex s = Some bs \<and> length s = 2 * length bs"
proof (induction "length s" arbitrary: s rule: less_induct)
  case less
  show ?case
  proof (cases s)
    case (Cons c cs)
    with less.prems obtain d ds where cs: "cs = d # ds" by (cases cs) auto
    with less.prems Cons less.hyps [of ds] obtain bs where
      "fromhex ds = Some bs" "length ds = 2 * length bs" by auto
    with less.prems Cons cs is_hex_not_space [of c] show ?thesis
      by (auto simp: is_hex_def)
  qed simp
qed

section \<open>Dictionaries\<close>

text \<open>
  A \<^verbatim>\<open>dict\<close> keeps insertion order, which the code relies on (fan-out takes the
  first subscribers, eviction the oldest client): it is an association list with distinct keys.
  \<^verbatim>\<open>d[k] = v\<close> is \<^const>\<open>AList.update\<close> (in place, or at the end),
  \<^verbatim>\<open>d.pop(k, None)\<close> and \<^verbatim>\<open>del d[k]\<close> are
  \<^const>\<open>AList.delete\<close>, \<^verbatim>\<open>d.get(k)\<close> is \<^const>\<open>map_of\<close>.
\<close>

type_synonym ('k, 'v) dict = "('k \<times> 'v) list"

abbreviation dget :: "('k, 'v) dict \<Rightarrow> 'k \<Rightarrow> 'v option" where
  "dget d k \<equiv> map_of d k"

abbreviation dset :: "('k, 'v) dict \<Rightarrow> 'k \<Rightarrow> 'v \<Rightarrow> ('k, 'v) dict" where
  "dset d k v \<equiv> AList.update k v d"

abbreviation dpop :: "('k, 'v) dict \<Rightarrow> 'k \<Rightarrow> ('k, 'v) dict" where
  "dpop d k \<equiv> AList.delete k d"

abbreviation dkeys :: "('k, 'v) dict \<Rightarrow> 'k list" where
  "dkeys d \<equiv> map fst d"

abbreviation wf_dict :: "('k, 'v) dict \<Rightarrow> bool" where
  "wf_dict d \<equiv> distinct (map fst d)"

abbreviation dvalues :: "('k, 'v) dict \<Rightarrow> 'v list" where
  "dvalues d \<equiv> map snd d"

text \<open>Look-ups stay look-ups: the simplifier must not turn them into membership.\<close>

declare map_of_eq_Some_iff [simp del] Some_eq_map_of_iff [simp del]

lemma dget_dset [dict_simps]: "dget (dset d k v) k' = (if k' = k then Some v else dget d k')"
  by (simp add: update_conv')

lemma dget_dpop [dict_simps]: "dget (dpop d k) k' = (if k' = k then None else dget d k')"
  by (simp add: delete_conv')

lemma dkeys_dset [dict_simps]: "set (dkeys (dset d k v)) = insert k (set (dkeys d))"
  by (simp add: dom_map_of_conv_image_fst [symmetric] update_conv')

lemma dkeys_dpop [dict_simps]: "set (dkeys (dpop d k)) = set (dkeys d) - {k}"
  by (auto simp: dom_map_of_conv_image_fst [symmetric] delete_conv' split: if_splits)

lemma wf_dset [dict_simps, intro]: "wf_dict d \<Longrightarrow> wf_dict (dset d k v)"
  by (rule distinct_update)

lemma wf_dpop [dict_simps, intro]: "wf_dict d \<Longrightarrow> wf_dict (dpop d k)"
  by (rule distinct_delete)

lemma dset_eq_append: "k \<notin> set (dkeys d) \<Longrightarrow> dset d k v = d @ [(k, v)]"
  by (induction d) auto

lemma length_dset: "length (dset d k v) = (if k \<in> set (dkeys d) then length d else Suc (length d))"
  by (induction d) auto

lemma length_dpop_le: "length (dpop d k) \<le> length d"
  by (rule length_delete_le)

lemma dget_None_iff: "dget d k = None \<longleftrightarrow> k \<notin> set (dkeys d)"
  by (simp add: map_of_eq_None_iff)

lemma dget_Some_key: "dget d k = Some v \<Longrightarrow> k \<in> set (dkeys d)"
  by (force dest: map_of_SomeD)

lemma in_dkeys_dget: "k \<in> set (dkeys d) \<Longrightarrow> \<exists>v. dget d k = Some v"
  by (cases "dget d k") (auto simp: dget_None_iff)

lemma dget_in_set: "wf_dict d \<Longrightarrow> (k, v) \<in> set d \<longleftrightarrow> dget d k = Some v"
  by (metis map_of_SomeD map_of_is_SomeI)

lemma wf_dict_filter [intro]: "wf_dict d \<Longrightarrow> wf_dict (filter P d)"
  by (rule distinct_map_filter)

lemma dget_filter_key: "dget (filter (\<lambda>(k, v). P k) d) k = (if P k then dget d k else None)"
  by (induction d) auto

lemma dget_filter:
  "wf_dict d \<Longrightarrow> dget (filter P d) k =
     (case dget d k of None \<Rightarrow> None | Some v \<Rightarrow> if P (k, v) then Some v else None)"
  by (induction d) (auto split: option.splits simp: dget_None_iff image_iff)

lemma dset_not_Nil [simp]: "dset d k v \<noteq> []"
  by (cases d) auto

lemma dpop_notin: "k \<notin> set (dkeys d) \<Longrightarrow> dpop d k = d"
  by (rule delete_id) simp

section \<open>Exceptions\<close>

text \<open>
  The exceptions that leave a modelled function. A \<^verbatim>\<open>ProtocolError\<close> carries its
  machine-readable code; the English text sent along with it is not modelled. A
  \<^verbatim>\<open>StrictJsonError\<close> carries the reason, one constructor per \<^verbatim>\<open>raise\<close>
  of \<^verbatim>\<open>strict_json.py\<close>.
\<close>

datatype strict_reason =
    NotUtf8 | ByteLimit | NestingLimit | BadNesting | NonFinite | DuplicateKey
  | InvalidJson | NodeLimit | StringLimit | KeyLimit

datatype exn =
    ProtocolError string
  | StrictJsonError strict_reason
  | ValueError string
  | TypeError
  | KeyError
  | AttributeError
  | UnicodeEncodeError
  | RuntimeError string

type_synonym 'a result = "exn + 'a"

definition rbind :: "'a result \<Rightarrow> ('a \<Rightarrow> 'b result) \<Rightarrow> 'b result" where
  "rbind m f = (case m of Inl e \<Rightarrow> Inl e | Inr x \<Rightarrow> f x)"

lemma rbind_simps [simp]: "rbind (Inl e) f = Inl e" "rbind (Inr x) f = f x"
  by (simp_all add: rbind_def)

lemma rbind_eq_Inr: "rbind m f = Inr y \<longleftrightarrow> (\<exists>x. m = Inr x \<and> f x = Inr y)"
  by (cases m) auto

lemma rbind_eq_Inl: "rbind m f = Inl e \<longleftrightarrow> m = Inl e \<or> (\<exists>x. m = Inr x \<and> f x = Inl e)"
  by (cases m) auto

text \<open>\<^verbatim>\<open>if cond: raise e\<close>\<close>

definition raise_if :: "bool \<Rightarrow> exn \<Rightarrow> unit result" where
  "raise_if b e = (if b then Inl e else Inr ())"

lemma raise_if_eq [simp]:
  "raise_if b e = Inr x \<longleftrightarrow> \<not> b"
  "raise_if b e = Inl e' \<longleftrightarrow> b \<and> e' = e"
  by (auto simp: raise_if_def)

end
