(* ===== verification/Rate_Limits.thy ===== *)
theory Rate_Limits
  imports Prelude
begin

text \<open>
  \<^verbatim>\<open>app/rate_limits.py\<close>: token buckets and the per-session, per-operation registry. Clock
  readings (\<^verbatim>\<open>time.monotonic()\<close>) are arguments; token counts are exact reals. The
  interface \<open>rate_gate\<close> states what a limiter promises; its client lemma bounds the number of
  admitted requests over any run, and the token bucket and each slot of the registry are
  instances.
\<close>

section \<open>Definitions\<close>

record token_bucket =
  capacity :: real
  tokens :: real
  refill_per_sec :: real
  last_refill :: real

definition new_bucket :: "real \<Rightarrow> real \<Rightarrow> real \<Rightarrow> token_bucket" where
  "new_bucket cap refill now =
     \<lparr>capacity = cap, tokens = cap, refill_per_sec = refill, last_refill = now\<rparr>"

definition bucket_refill :: "real \<Rightarrow> token_bucket \<Rightarrow> token_bucket" where
  "bucket_refill now b =
     (let elapsed = max 0 (now - last_refill b)
      in b\<lparr>tokens := min (capacity b) (tokens b + elapsed * refill_per_sec b), last_refill := now\<rparr>)"

definition try_consume :: "real \<Rightarrow> real \<Rightarrow> token_bucket \<Rightarrow> bool \<times> token_bucket" where
  "try_consume now cost b =
     (let b' = bucket_refill now b
      in if tokens b' < cost then (False, b') else (True, b'\<lparr>tokens := tokens b' - cost\<rparr>))"

definition DEFAULTS :: "(string \<times> (real \<times> real)) list" where
  "DEFAULTS =
     [(''MESSAGE'', (128, 64)),
      (''ATTACH_ROUTE'', (4, 4 / 60)),
      (''SIGNAL'', (40, 20)),
      (''SIGNAL_V2'', (40, 20)),
      (''FORWARD'', (10, 5)),
      (''DISCOVER'', (10, 2)),
      (''HEARTBEAT'', (1, 1 / 20)),
      (''PROVE'', (3, 0))]"

definition op_limits :: "string \<Rightarrow> real \<times> real" where
  "op_limits opn = (case map_of DEFAULTS opn of None \<Rightarrow> (30, 10) | Some l \<Rightarrow> l)"

text \<open>The registry: one bucket per session and operation, in creation order.\<close>

type_synonym limiter_registry = "(pystr \<times> string, token_bucket) dict"

definition registry_bucket :: "real \<Rightarrow> pystr \<Rightarrow> string \<Rightarrow> limiter_registry \<Rightarrow> token_bucket" where
  "registry_bucket now session_id opn reg =
     (case dget reg (session_id, opn) of
        Some b \<Rightarrow> b
      | None \<Rightarrow> new_bucket (fst (op_limits opn)) (snd (op_limits opn)) now)"

definition limiter_check :: "real \<Rightarrow> pystr \<Rightarrow> string \<Rightarrow> limiter_registry \<Rightarrow> bool \<times> limiter_registry" where
  "limiter_check now session_id opn reg =
     (case try_consume now 1 (registry_bucket now session_id opn reg) of
        (ok, b) \<Rightarrow> (ok, dset reg (session_id, opn) b))"

definition drop_session :: "pystr \<Rightarrow> limiter_registry \<Rightarrow> limiter_registry" where
  "drop_session session_id reg = filter (\<lambda>(key, b). fst key \<noteq> session_id) reg"

section \<open>The interface of a limiter\<close>

text \<open>
  A limiter \<open>consume\<close>s one unit at a time; \<open>budget g\<close> is what it would still admit at once,
  \<open>stamp g\<close> the time it was last asked, \<open>rate\<close> and \<open>burst\<close> its fixed parameters. It never
  creates budget faster than \<open>rate\<close>, never stores more than \<open>burst\<close>, and refuses only when
  less than one unit is left.
\<close>

locale rate_gate =
  fixes consume :: "real \<Rightarrow> 'g \<Rightarrow> bool \<times> 'g"
    and budget :: "'g \<Rightarrow> real"
    and stamp :: "'g \<Rightarrow> real"
    and rate :: "'g \<Rightarrow> real"
    and burst :: "'g \<Rightarrow> real"
    and ok :: "'g \<Rightarrow> bool"
  assumes ok_consume: "ok g \<Longrightarrow> stamp g \<le> now \<Longrightarrow> ok (snd (consume now g))"
    and stamp_consume: "stamp (snd (consume now g)) = now"
    and rate_consume: "rate (snd (consume now g)) = rate g"
    and burst_consume: "burst (snd (consume now g)) = burst g"
    and budget_range: "ok g \<Longrightarrow> 0 \<le> budget g \<and> budget g \<le> burst g"
    and rate_nonneg: "ok g \<Longrightarrow> 0 \<le> rate g"
    and charge: "ok g \<Longrightarrow> stamp g \<le> now \<Longrightarrow>
      budget (snd (consume now g)) + (if fst (consume now g) then 1 else 0) =
        min (burst g) (budget g + (now - stamp g) * rate g)"
    and refuse: "ok g \<Longrightarrow> stamp g \<le> now \<Longrightarrow>
      fst (consume now g) \<longleftrightarrow> 1 \<le> min (burst g) (budget g + (now - stamp g) * rate g)"
begin

text \<open>A run asks at the given times and counts the admitted requests.\<close>

fun admitted :: "real list \<Rightarrow> 'g \<Rightarrow> nat \<times> 'g" where
  "admitted [] g = (0, g)"
| "admitted (t # ts) g =
     (case consume t g of (b, g1) \<Rightarrow>
      case admitted ts g1 of (n, g2) \<Rightarrow> ((if b then Suc n else n), g2))"

lemma admitted_budget:
  assumes "ok g" "sorted (stamp g # ts)"
  shows "real (fst (admitted ts g)) \<le> budget g + (last (stamp g # ts) - stamp g) * rate g"
  using assms
proof (induction ts arbitrary: g)
  case Nil
  then show ?case using budget_range [of g] by simp
next
  case (Cons t ts)
  define g1 where "g1 = snd (consume t g)"
  have t: "stamp g \<le> t" using Cons.prems(2) by simp
  have g1: "ok g1" "stamp g1 = t" "rate g1 = rate g"
    using ok_consume [OF Cons.prems(1) t] stamp_consume rate_consume by (simp_all add: g1_def)
  have "real (fst (admitted ts g1)) \<le> budget g1 + (last (t # ts) - t) * rate g"
    using Cons.IH [of g1] Cons.prems(2) g1 by simp
  moreover have "budget g1 + (if fst (consume t g) then 1 else 0) \<le> budget g + (t - stamp g) * rate g"
    using charge [OF Cons.prems(1) t] by (simp add: g1_def)
  moreover have "real (fst (admitted (t # ts) g)) =
      real (fst (admitted ts g1)) + (if fst (consume t g) then 1 else 0)"
    by (simp add: g1_def split: prod.splits)
  ultimately show ?case by (simp add: algebra_simps)
qed

lemma admitted_burst:
  assumes "ok g" "sorted (stamp g # ts)"
  shows "real (fst (admitted ts g)) \<le> burst g + (last (stamp g # ts) - stamp g) * rate g"
  using admitted_budget [OF assms] budget_range [OF assms(1)] by linarith

text \<open>Waiting until one unit has accrued is enough to be admitted.\<close>

lemma admitted_after_wait:
  assumes "ok g" "1 \<le> burst g" "stamp g \<le> now" "1 \<le> (now - stamp g) * rate g"
  shows "fst (consume now g)"
  using refuse [OF assms(1,3)] budget_range [OF assms(1)] assms(2,4) by simp

end

section \<open>The token bucket is a limiter\<close>

definition bucket_ok :: "token_bucket \<Rightarrow> bool" where
  "bucket_ok b \<longleftrightarrow> 0 \<le> tokens b \<and> tokens b \<le> capacity b \<and> 0 \<le> refill_per_sec b"

lemma bucket_refill_simps [simp]:
  "capacity (bucket_refill now b) = capacity b"
  "refill_per_sec (bucket_refill now b) = refill_per_sec b"
  "last_refill (bucket_refill now b) = now"
  "tokens (bucket_refill now b) = min (capacity b) (tokens b + max 0 (now - last_refill b) * refill_per_sec b)"
  by (simp_all add: bucket_refill_def Let_def)

lemma try_consume_simps [simp]:
  "capacity (snd (try_consume now c b)) = capacity b"
  "refill_per_sec (snd (try_consume now c b)) = refill_per_sec b"
  "last_refill (snd (try_consume now c b)) = now"
  "fst (try_consume now c b) \<longleftrightarrow> c \<le> tokens (bucket_refill now b)"
  "tokens (snd (try_consume now c b)) =
     (if c \<le> tokens (bucket_refill now b) then tokens (bucket_refill now b) - c
      else tokens (bucket_refill now b))"
  by (auto simp: try_consume_def Let_def not_less)

lemma bucket_ok_new [simp]: "0 \<le> cap \<Longrightarrow> 0 \<le> refill \<Longrightarrow> bucket_ok (new_bucket cap refill now)"
  by (simp add: bucket_ok_def new_bucket_def)

text \<open>The invariant needs no assumption on the clock: a clock that steps back adds nothing.\<close>

lemma bucket_ok_consume: "bucket_ok b \<Longrightarrow> 0 \<le> c \<Longrightarrow> bucket_ok (snd (try_consume now c b))"
  by (auto simp: bucket_ok_def)

interpretation tb: rate_gate "\<lambda>now. try_consume now 1" tokens last_refill refill_per_sec capacity bucket_ok
proof (unfold_locales, goal_cases)
  case (1 b now)
  show ?case by (rule bucket_ok_consume [OF 1(1) zero_le_one])
qed (auto simp: bucket_ok_def)

section \<open>The registry\<close>

lemma op_limits_nonneg: "0 \<le> fst (op_limits opn)" "0 \<le> snd (op_limits opn)"
proof -
  have "\<forall>l \<in> snd ` set DEFAULTS. 0 \<le> fst l \<and> 0 \<le> snd l" by (simp add: DEFAULTS_def)
  then show "0 \<le> fst (op_limits opn)" "0 \<le> snd (op_limits opn)"
    by (force simp: op_limits_def dest: map_of_SomeD split: option.splits)+
qed

text \<open>
  Every stored bucket has the parameters of its operation; keys are distinct.
\<close>

definition registry_ok :: "limiter_registry \<Rightarrow> bool" where
  "registry_ok reg \<longleftrightarrow> wf_dict reg \<and>
     (\<forall>sid opn b. dget reg (sid, opn) = Some b \<longrightarrow>
        bucket_ok b \<and> capacity b = fst (op_limits opn) \<and> refill_per_sec b = snd (op_limits opn))"

lemma registry_ok_empty [simp]: "registry_ok []"
  by (simp add: registry_ok_def)

lemma registry_bucket_ok:
  assumes "registry_ok reg"
  shows "bucket_ok (registry_bucket now sid opn reg)"
    "capacity (registry_bucket now sid opn reg) = fst (op_limits opn)"
    "refill_per_sec (registry_bucket now sid opn reg) = snd (op_limits opn)"
  using assms op_limits_nonneg [of opn]
  by (auto simp: registry_ok_def registry_bucket_def new_bucket_def bucket_ok_def split: option.splits)
    fastforce

lemma limiter_check_simps:
  "fst (limiter_check now sid opn reg) = fst (try_consume now 1 (registry_bucket now sid opn reg))"
  "snd (limiter_check now sid opn reg) =
     dset reg (sid, opn) (snd (try_consume now 1 (registry_bucket now sid opn reg)))"
  by (simp_all add: limiter_check_def case_prod_unfold del: try_consume_simps)

lemma dget_limiter_check:
  "dget (snd (limiter_check now sid opn reg)) k =
     (if k = (sid, opn) then Some (snd (try_consume now 1 (registry_bucket now sid opn reg)))
      else dget reg k)"
  by (simp only: limiter_check_simps dget_dset)

lemma registry_ok_check:
  assumes "registry_ok reg"
  shows "registry_ok (snd (limiter_check now sid opn reg))"
  unfolding registry_ok_def
proof (intro conjI allI impI)
  show "wf_dict (snd (limiter_check now sid opn reg))"
    using assms by (auto simp: limiter_check_simps registry_ok_def simp del: try_consume_simps)
next
  fix sid' opn' b
  assume b: "dget (snd (limiter_check now sid opn reg)) (sid', opn') = Some b"
  have "bucket_ok (snd (try_consume now 1 (registry_bucket now sid opn reg)))"
    using registry_bucket_ok(1) [OF assms] by (rule bucket_ok_consume [OF _ zero_le_one])
  then show "bucket_ok b" "capacity b = fst (op_limits opn')" "refill_per_sec b = snd (op_limits opn')"
    using b assms registry_bucket_ok(2,3) [OF assms]
    by (auto simp: dget_limiter_check registry_ok_def split: if_splits)
qed

lemma registry_ok_drop: "registry_ok reg \<Longrightarrow> registry_ok (drop_session sid reg)"
  by (auto simp: registry_ok_def drop_session_def dget_filter split: option.splits if_splits)

lemma dget_drop_session:
  "dget (drop_session sid reg) k = (if fst k = sid then None else dget reg k)"
  unfolding drop_session_def using dget_filter_key [of "\<lambda>k. fst k \<noteq> sid" reg k] by simp

section \<open>Runs of the registry\<close>

text \<open>
  A run interleaves checks of any session and operation with the removal of sessions;
  \<open>slot_admitted\<close> counts what one slot admitted. Other slots do not matter: the count is that
  of a single bucket asked at the slot's own times.
\<close>

datatype limiter_event = Check real pystr string | Drop pystr

fun slot_admitted :: "pystr \<Rightarrow> string \<Rightarrow> limiter_event list \<Rightarrow> limiter_registry \<Rightarrow> nat" where
  "slot_admitted s opn [] reg = 0"
| "slot_admitted s opn (Check now s' opn' # es) reg =
     (case limiter_check now s' opn' reg of (b, reg') \<Rightarrow>
        (if b \<and> s' = s \<and> opn' = opn then 1 else 0) + slot_admitted s opn es reg')"
| "slot_admitted s opn (Drop s' # es) reg = slot_admitted s opn es (drop_session s' reg)"

fun slot_times :: "pystr \<Rightarrow> string \<Rightarrow> limiter_event list \<Rightarrow> real list" where
  "slot_times s opn [] = []"
| "slot_times s opn (Check now s' opn' # es) =
     (if s' = s \<and> opn' = opn then now # slot_times s opn es else slot_times s opn es)"
| "slot_times s opn (Drop s' # es) = slot_times s opn es"

lemma registry_bucket_frame:
  "dget reg' (s, opn) = dget reg (s, opn) \<Longrightarrow> registry_bucket now s opn reg' = registry_bucket now s opn reg"
  by (simp add: registry_bucket_def)

lemma slot_admitted_single:
  assumes "Drop s \<notin> set es"
  shows "slot_admitted s opn es reg =
    (case slot_times s opn es of
       [] \<Rightarrow> 0
     | t # ts \<Rightarrow> fst (tb.admitted (t # ts) (registry_bucket t s opn reg)))"
  using assms
proof (induction es arbitrary: reg)
  case (Cons e es)
  show ?case
  proof (cases e)
    case (Drop s')
    with Cons.prems have "dget (drop_session s' reg) (s, opn) = dget reg (s, opn)"
      by (auto simp: dget_drop_session)
    then have "registry_bucket now s opn (drop_session s' reg) = registry_bucket now s opn reg" for now
      by (rule registry_bucket_frame)
    then show ?thesis
      using Cons.IH [of "drop_session s' reg"] Cons.prems Drop
      by (simp del: tb.admitted.simps split: list.splits)
  next
    case (Check now s' opn')
    define reg' where "reg' = snd (limiter_check now s' opn' reg)"
    have IH: "slot_admitted s opn es reg' =
        (case slot_times s opn es of [] \<Rightarrow> 0
         | t # ts \<Rightarrow> fst (tb.admitted (t # ts) (registry_bucket t s opn reg')))"
      using Cons by (simp del: tb.admitted.simps)
    have run: "slot_admitted s opn (e # es) reg =
        (if fst (limiter_check now s' opn' reg) \<and> s' = s \<and> opn' = opn then 1 else 0) + slot_admitted s opn es reg'"
      by (simp add: Check reg'_def split: prod.splits)
    show ?thesis
    proof (cases "s' = s \<and> opn' = opn")
      case False
      then have "dget reg' (s, opn) = dget reg (s, opn)"
        by (auto simp: reg'_def dget_limiter_check)
      then have "registry_bucket now s opn reg' = registry_bucket now s opn reg" for now
        by (rule registry_bucket_frame)
      with False IH Check show ?thesis
        unfolding run by (auto simp del: tb.admitted.simps split: list.splits)
    next
      case True
      define b where "b = registry_bucket now s opn reg"
      have "dget reg' (s, opn) = Some (snd (try_consume now 1 b))"
        using True by (simp add: reg'_def dget_limiter_check b_def del: try_consume_simps)
      then have "registry_bucket t s opn reg' = snd (try_consume now 1 b)" for t
        by (simp add: registry_bucket_def)
      with True IH Check show ?thesis
        unfolding run
        by (simp add: limiter_check_simps b_def [symmetric] case_prod_unfold del: try_consume_simps
            split: list.splits)
    qed
  qed
qed simp

lemma slot_rate:
  assumes "registry_ok reg" "Drop s \<notin> set es" "dget reg (s, opn) = None"
    and "slot_times s opn es = t # ts" "sorted (t # ts)"
  shows "real (slot_admitted s opn es reg) \<le>
    fst (op_limits opn) + snd (op_limits opn) * (last (t # ts) - t)"
proof -
  let ?b = "registry_bucket t s opn reg"
  have "last_refill ?b = t" using assms(3) by (simp add: registry_bucket_def new_bucket_def)
  note b = registry_bucket_ok [OF assms(1), of t s opn] this
  have "slot_admitted s opn es reg = fst (tb.admitted (t # ts) ?b)"
    using slot_admitted_single [OF assms(2)] assms(4) by (simp del: tb.admitted.simps)
  with tb.admitted_burst [OF b(1), of "t # ts"] assms(5) b show ?thesis
    by (simp add: mult.commute del: tb.admitted.simps)
qed

section \<open>Properties\<close>

text \<open>Over any interleaving of checks and of removals of other sessions, in clock order, a
  session that starts fresh is admitted for an operation at most burst plus rate times elapsed
  seconds times.\<close>

theorem slot_rate_bound:
  assumes "registry_ok reg" "Drop s \<notin> set es" "dget reg (s, opn) = None"
    and "slot_times s opn es = t # ts" "sorted (t # ts)"
  shows "real (slot_admitted s opn es reg) \<le>
    fst (op_limits opn) + snd (op_limits opn) * (last (t # ts) - t)"
  using assms by (rule slot_rate)

theorem slot_rate_bound_witness:
  "real (slot_admitted (u ''a'') ''ATTACH_ROUTE''
      [Check 0 (u ''a'') ''ATTACH_ROUTE'', Drop (u ''b''), Check 2 (u ''b'') ''PROVE'',
       Check 90 (u ''a'') ''ATTACH_ROUTE''] []) \<le> 10"
  using slot_rate_bound [of "[]" "u ''a''" "[Check 0 (u ''a'') ''ATTACH_ROUTE'', Drop (u ''b''),
      Check 2 (u ''b'') ''PROVE'', Check 90 (u ''a'') ''ATTACH_ROUTE'']" "''ATTACH_ROUTE''" 0 "[90]"]
  by (simp add: op_limits_def DEFAULTS_def del: slot_admitted.simps)

text \<open>A session never gets more than three proof attempts, however long it stays connected
  and whatever else happens in between: the bucket of PROVE is not refilled.\<close>

theorem proof_attempts_bound:
  assumes "registry_ok reg" "Drop s \<notin> set es" "dget reg (s, ''PROVE'') = None"
    and "sorted (slot_times s ''PROVE'' es)"
  shows "slot_admitted s ''PROVE'' es reg \<le> 3"
proof (cases "slot_times s ''PROVE'' es")
  case Nil
  then show ?thesis using slot_admitted_single [OF assms(2), of "''PROVE''" reg] by simp
next
  case (Cons t ts)
  have "op_limits ''PROVE'' = (3, 0)" by (simp add: op_limits_def DEFAULTS_def)
  with slot_rate [OF assms(1-3) Cons] assms(4) Cons show ?thesis by simp
qed

theorem proof_attempts_bound_witness:
  "slot_admitted (u ''a'') ''PROVE''
     [Check 0 (u ''a'') ''PROVE'', Check 1 (u ''a'') ''PROVE'', Check 2 (u ''a'') ''PROVE'',
      Check 1000000 (u ''a'') ''PROVE''] [] \<le> 3"
  using proof_attempts_bound [of "[]" "u ''a''" "[Check 0 (u ''a'') ''PROVE'', Check 1 (u ''a'') ''PROVE'',
      Check 2 (u ''a'') ''PROVE'', Check 1000000 (u ''a'') ''PROVE'']"]
  by (simp del: slot_admitted.simps)

text \<open>A bucket that can hold a token admits a request as soon as one token's worth of time has
  passed since it was last asked.\<close>

theorem bucket_admits_after_wait:
  assumes "bucket_ok b" "1 \<le> capacity b" "last_refill b \<le> now"
    and "1 \<le> (now - last_refill b) * refill_per_sec b"
  shows "fst (try_consume now 1 b)"
  using assms by (rule tb.admitted_after_wait)

theorem bucket_admits_after_wait_witness: "fst (try_consume 20 1 (new_bucket 1 (1 / 20) 0))"
  using bucket_admits_after_wait [of "new_bucket 1 (1 / 20) 0" 20]
  by (simp add: new_bucket_def bucket_ok_def del: try_consume_simps)

end
