(* ===== verification/Config.thy ===== *)
theory Config
  imports Rate_Limits
begin

text \<open>
  \<^verbatim>\<open>app/config.py\<close>: the configuration record with the defaults of an empty environment, and
  the range checks of \<^verbatim>\<open>__post_init__\<close>. Float settings are reals: the checks refuse
  infinities and NaN, which have no counterpart here. The environment is read in \<^verbatim>\<open>Startup\<close>.
  The interface \<open>server_config\<close> collects what the other components rely on from an accepted
  configuration.
\<close>

section \<open>Definitions\<close>

record config =
  max_frame_bytes :: int
  max_routes_per_session :: int
  max_v1_routes_per_session :: int
  max_subscriptions :: int
  max_fanout :: int
  max_hops :: int
  max_concurrency :: int
  max_json_depth :: int
  max_json_nodes :: int
  max_dedupe_entries :: int
  admission_crypto_concurrency :: int
  admission_crypto_wait_seconds :: real
  admission_rate_burst :: int
  admission_rate_per_second :: real
  admission_global_burst :: int
  admission_global_per_second :: real
  turn_rate_burst :: int
  turn_rate_per_second :: real
  turn_global_burst :: int
  turn_global_per_second :: real
  signal_global_burst :: int
  signal_global_per_second :: real
  message_global_burst :: int
  message_global_per_second :: real
  route_lease_seconds :: real
  heartbeat_interval_seconds :: real
  session_stale_seconds :: real
  dedupe_window_seconds :: real
  proof_deadline_seconds :: real
  cleanup_interval_seconds :: real
  outbound_queue_frames :: int
  outbound_queue_bytes :: int
  outbound_send_timeout_seconds :: real
  node_id :: pystr
  public_base_url :: pystr
  public_ws_url :: pystr
  public_v1_ws_url :: pystr
  public_node_ws_url :: pystr
  advertise_v2 :: bool
  network_root_id :: pystr
  network_root_version :: int
  network_root_rollback_version :: int
  signing_key_pem :: pystr
  signing_key_file :: pystr
  require_configured_signing_key :: bool
  signing_key_activates_at :: int
  signing_key_expires_at :: int
  manifest_ttl_seconds :: int
  admission_ttl_seconds :: int
  turn_servers_json :: pystr
  turn_urls_json :: pystr
  turn_shared_secret :: pystr
  turn_shared_secrets_json :: pystr
  turn_username_prefix :: pystr
  turn_ttl_seconds :: int
  metrics_token :: pystr
  allowed_origins_json :: pystr
  trusted_nodes_json :: pystr
  node_mesh_enabled :: bool
  node_mesh_replica_count :: int
  node_mesh_ack_timeout_seconds :: real
  node_mesh_membership_epoch :: int
  node_mesh_suspicion_seconds :: real
  node_mesh_max_clock_skew_seconds :: real
  node_mesh_max_pending_operations :: int
  node_mesh_max_route_descriptors :: int
  node_mesh_ca_file :: pystr
  node_mesh_cert_file :: pystr
  node_mesh_key_file :: pystr
  node_mesh_require_mtls :: bool
  node_mesh_client_verify_header :: pystr
  node_mesh_client_verify_value :: pystr
  node_mesh_proxy_token_header :: pystr
  node_mesh_proxy_token :: pystr
  runtime_metrics_interval_seconds :: real
  readiness_event_loop_p99_seconds :: real
  readiness_rss_bytes :: int
  readiness_require_turn :: bool

definition default_config :: config where
  \<open>default_config =
     \<lparr>max_frame_bytes = 65536,
      max_routes_per_session = 32,
      max_v1_routes_per_session = 8,
      max_subscriptions = 16,
      max_fanout = 16,
      max_hops = 3,
      max_concurrency = 128,
      max_json_depth = 16,
      max_json_nodes = 512,
      max_dedupe_entries = 65536,
      admission_crypto_concurrency = 8,
      admission_crypto_wait_seconds = 1 / 4,
      admission_rate_burst = 128,
      admission_rate_per_second = 2,
      admission_global_burst = 256,
      admission_global_per_second = 32,
      turn_rate_burst = 20,
      turn_rate_per_second = 1,
      turn_global_burst = 128,
      turn_global_per_second = 16,
      signal_global_burst = 512,
      signal_global_per_second = 256,
      message_global_burst = 2048,
      message_global_per_second = 1024,
      route_lease_seconds = 90,
      heartbeat_interval_seconds = 27,
      session_stale_seconds = 90,
      dedupe_window_seconds = 120,
      proof_deadline_seconds = 10,
      cleanup_interval_seconds = 15,
      outbound_queue_frames = 64,
      outbound_queue_bytes = 262144,
      outbound_send_timeout_seconds = 5,
      node_id = u ''particle-node-local'',
      public_base_url = u ''http://127.0.0.1:8080'',
      public_ws_url = u ''ws://127.0.0.1:8080/v2/ws'',
      public_v1_ws_url = u ''ws://127.0.0.1:8080/v1/ws'',
      public_node_ws_url = u ''ws://127.0.0.1:8080/v2/node'',
      advertise_v2 = True,
      network_root_id = u ''particle-network-root-v1'',
      network_root_version = 1,
      network_root_rollback_version = 0,
      signing_key_pem = [],
      signing_key_file = [],
      require_configured_signing_key = False,
      signing_key_activates_at = 0,
      signing_key_expires_at = 2147483647,
      manifest_ttl_seconds = 3600,
      admission_ttl_seconds = 60,
      turn_servers_json = u ''[]'',
      turn_urls_json = u ''[]'',
      turn_shared_secret = [],
      turn_shared_secrets_json = u ''[]'',
      turn_username_prefix = u ''particle'',
      turn_ttl_seconds = 600,
      metrics_token = [],
      allowed_origins_json = u ''["https://particlerealms.online","http://127.0.0.1:9001","http://localhost:9001"]'',
      trusted_nodes_json = u ''[]'',
      node_mesh_enabled = False,
      node_mesh_replica_count = 2,
      node_mesh_ack_timeout_seconds = 2,
      node_mesh_membership_epoch = 1,
      node_mesh_suspicion_seconds = 10,
      node_mesh_max_clock_skew_seconds = 30,
      node_mesh_max_pending_operations = 1024,
      node_mesh_max_route_descriptors = 16384,
      node_mesh_ca_file = [],
      node_mesh_cert_file = [],
      node_mesh_key_file = [],
      node_mesh_require_mtls = True,
      node_mesh_client_verify_header = u ''x-ssl-client-verify'',
      node_mesh_client_verify_value = u ''SUCCESS'',
      node_mesh_proxy_token_header = u ''x-particle-node-proxy-token'',
      node_mesh_proxy_token = [],
      runtime_metrics_interval_seconds = 1,
      readiness_event_loop_p99_seconds = 1 / 4,
      readiness_rss_bytes = 629145600,
      readiness_require_turn = False\<rparr>\<close>

definition bounded_fields :: "(string \<times> (config \<Rightarrow> int) \<times> int \<times> int) list" where
  "bounded_fields =
     [(''max_frame_bytes'', max_frame_bytes, 1024, 1048576),
      (''max_routes_per_session'', max_routes_per_session, 1, 256),
      (''max_v1_routes_per_session'', max_v1_routes_per_session, 1, 64),
      (''max_subscriptions'', max_subscriptions, 1, 256),
      (''max_fanout'', max_fanout, 1, 256),
      (''max_hops'', max_hops, 1, 16),
      (''max_concurrency'', max_concurrency, 1, 100000),
      (''max_json_depth'', max_json_depth, 2, 64),
      (''max_json_nodes'', max_json_nodes, 16, 100000),
      (''max_dedupe_entries'', max_dedupe_entries, 1024, 10000000),
      (''admission_crypto_concurrency'', admission_crypto_concurrency, 1, 64),
      (''admission_rate_burst'', admission_rate_burst, 1, 100000),
      (''admission_global_burst'', admission_global_burst, 1, 100000),
      (''turn_rate_burst'', turn_rate_burst, 1, 100000),
      (''turn_global_burst'', turn_global_burst, 1, 100000),
      (''signal_global_burst'', signal_global_burst, 1, 100000),
      (''message_global_burst'', message_global_burst, 1, 1000000),
      (''outbound_queue_frames'', outbound_queue_frames, 1, 1024),
      (''outbound_queue_bytes'', outbound_queue_bytes, 1024, 67108864),
      (''network_root_version'', network_root_version, 0, 2147483647),
      (''network_root_rollback_version'', network_root_rollback_version, 0, 2147483647),
      (''manifest_ttl_seconds'', manifest_ttl_seconds, 60, 86400),
      (''admission_ttl_seconds'', admission_ttl_seconds, 10, 3600),
      (''turn_ttl_seconds'', turn_ttl_seconds, 60, 86400),
      (''node_mesh_replica_count'', node_mesh_replica_count, 1, 8),
      (''node_mesh_membership_epoch'', node_mesh_membership_epoch, 1, 2147483647),
      (''node_mesh_max_pending_operations'', node_mesh_max_pending_operations, 1, 100000),
      (''node_mesh_max_route_descriptors'', node_mesh_max_route_descriptors, 128, 1000000),
      (''readiness_rss_bytes'', readiness_rss_bytes, 16777216, 68719476736)]"

definition positive_fields :: "(string \<times> (config \<Rightarrow> real)) list" where
  "positive_fields =
     [(''route_lease_seconds'', route_lease_seconds),
      (''heartbeat_interval_seconds'', heartbeat_interval_seconds),
      (''session_stale_seconds'', session_stale_seconds),
      (''dedupe_window_seconds'', dedupe_window_seconds),
      (''proof_deadline_seconds'', proof_deadline_seconds),
      (''cleanup_interval_seconds'', cleanup_interval_seconds),
      (''admission_crypto_wait_seconds'', admission_crypto_wait_seconds),
      (''node_mesh_ack_timeout_seconds'', node_mesh_ack_timeout_seconds),
      (''runtime_metrics_interval_seconds'', runtime_metrics_interval_seconds),
      (''readiness_event_loop_p99_seconds'', readiness_event_loop_p99_seconds),
      (''admission_rate_per_second'', admission_rate_per_second),
      (''admission_global_per_second'', admission_global_per_second),
      (''turn_rate_per_second'', turn_rate_per_second),
      (''turn_global_per_second'', turn_global_per_second),
      (''signal_global_per_second'', signal_global_per_second),
      (''outbound_send_timeout_seconds'', outbound_send_timeout_seconds),
      (''message_global_per_second'', message_global_per_second)]"

definition nonnegative_fields :: "(string \<times> (config \<Rightarrow> real)) list" where
  "nonnegative_fields =
     [(''node_mesh_suspicion_seconds'', node_mesh_suspicion_seconds),
      (''node_mesh_max_clock_skew_seconds'', node_mesh_max_clock_skew_seconds)]"

fun check_all :: "('a \<Rightarrow> bool) \<Rightarrow> (string \<times> 'a) list \<Rightarrow> unit result" where
  "check_all good [] = Inr ()"
| "check_all good ((name, x) # xs) =
     (if good x then check_all good xs else Inl (ValueError name))"

definition utf8_len_in :: "nat \<Rightarrow> nat \<Rightarrow> pystr \<Rightarrow> bool" where
  "utf8_len_in lo hi s = (case utf8_len s of None \<Rightarrow> False | Some n \<Rightarrow> lo \<le> n \<and> n \<le> hi)"

definition post_init :: "config \<Rightarrow> unit result" where
  "post_init c =
     rbind (check_all (\<lambda>(f, lo, hi). lo \<le> f c \<and> f c \<le> hi) bounded_fields) (\<lambda>_.
     rbind (check_all (\<lambda>f. 0 < f c \<and> f c \<le> 86400) positive_fields) (\<lambda>_.
     rbind (check_all (\<lambda>f. 0 \<le> f c \<and> f c \<le> 86400) nonnegative_fields) (\<lambda>_.
     rbind (raise_if (outbound_queue_bytes c < max_frame_bytes c) (ValueError ''outbound_queue_bytes'')) (\<lambda>_.
     rbind (raise_if (route_lease_seconds c \<le> heartbeat_interval_seconds c) (ValueError ''route_lease_seconds'')) (\<lambda>_.
     rbind (raise_if (session_stale_seconds c \<le> heartbeat_interval_seconds c) (ValueError ''session_stale_seconds'')) (\<lambda>_.
     rbind (raise_if (network_root_rollback_version c > network_root_version c)
       (ValueError ''network_root_rollback_version'')) (\<lambda>_.
     rbind (raise_if (signing_key_activates_at c > signing_key_expires_at c) (ValueError ''signing_key'')) (\<lambda>_.
     rbind (raise_if (\<not> utf8_len_in 1 128 (node_id c)) (ValueError ''node_id'')) (\<lambda>_.
     raise_if (\<not> utf8_len_in 1 128 (network_root_id c)) (ValueError ''network_root_id''))))))))))"

section \<open>What an accepted configuration guarantees\<close>

lemma check_all_ok: "check_all good xs = Inr x \<longleftrightarrow> list_all (\<lambda>(n, y). good y) xs"
  by (induction xs) (auto split: if_splits)

lemma post_init_ok:
  "post_init c = Inr () \<longleftrightarrow>
   list_all (\<lambda>(n, f, lo, hi). lo \<le> f c \<and> f c \<le> hi) bounded_fields \<and>
   list_all (\<lambda>(n, f). 0 < f c \<and> f c \<le> 86400) positive_fields \<and>
   list_all (\<lambda>(n, f). 0 \<le> f c \<and> f c \<le> 86400) nonnegative_fields \<and>
   max_frame_bytes c \<le> outbound_queue_bytes c \<and>
   heartbeat_interval_seconds c < route_lease_seconds c \<and>
   heartbeat_interval_seconds c < session_stale_seconds c \<and>
   network_root_rollback_version c \<le> network_root_version c \<and>
   signing_key_activates_at c \<le> signing_key_expires_at c \<and>
   utf8_len_in 1 128 (node_id c) \<and> utf8_len_in 1 128 (network_root_id c)"
  by (auto simp: post_init_def rbind_eq_Inr check_all_ok not_less not_le)

locale server_config =
  fixes c :: config
  assumes accepted: "post_init c = Inr ()"
begin

lemma frames_positive: "1 \<le> outbound_queue_frames c"
  and frame_fits_queue: "max_frame_bytes c \<le> outbound_queue_bytes c"
  and frame_positive: "1024 \<le> max_frame_bytes c"
  using accepted by (simp_all add: post_init_ok bounded_fields_def)

lemma limits_positive:
  "1 \<le> max_routes_per_session c" "1 \<le> max_v1_routes_per_session c" "1 \<le> max_fanout c"
  "1 \<le> max_concurrency c" "2 \<le> max_json_depth c" "16 \<le> max_json_nodes c"
  "1024 \<le> max_dedupe_entries c" "1 \<le> max_hops c" "max_hops c \<le> 16"
  using accepted by (simp_all add: post_init_ok bounded_fields_def)

lemma times_positive:
  "0 < route_lease_seconds c" "0 < dedupe_window_seconds c" "0 < proof_deadline_seconds c"
  "0 < message_global_per_second c" "0 < session_stale_seconds c"
  using accepted by (simp_all add: post_init_ok positive_fields_def)

lemma mesh_limits:
  "1 \<le> node_mesh_replica_count c" "128 \<le> node_mesh_max_route_descriptors c"
  "1 \<le> node_mesh_max_pending_operations c"
  "0 \<le> node_mesh_suspicion_seconds c" "0 \<le> node_mesh_max_clock_skew_seconds c"
  using accepted by (simp_all add: post_init_ok bounded_fields_def nonnegative_fields_def)

lemma ttl_limits: "60 \<le> manifest_ttl_seconds c" "10 \<le> admission_ttl_seconds c" "60 \<le> turn_ttl_seconds c"
  using accepted by (simp_all add: post_init_ok bounded_fields_def)

lemma global_bucket_ok:
  "bucket_ok (new_bucket (real_of_int (message_global_burst c)) (message_global_per_second c) now)"
proof -
  have "1 \<le> message_global_burst c"
    using accepted by (simp add: post_init_ok bounded_fields_def)
  with times_positive(4) show ?thesis by simp
qed

end

lemma default_post_init: "post_init default_config = Inr ()"
proof -
  have ascii: "utf8_len_in (Suc 0) 128 (u s)" if "list_all (\<lambda>c. of_char c < (128 :: nat)) s" "1 \<le> length s" "length s \<le> 128" for s
    using that utf8_len_ascii [of "u s"] by (simp add: utf8_len_in_def u_def list.pred_map comp_def)
  show ?thesis
    unfolding post_init_ok bounded_fields_def positive_fields_def nonnegative_fields_def default_config_def
    by (simp add: ascii)
qed

interpretation default: server_config default_config
  by unfold_locales (rule default_post_init)

end
