(* ===== verification/Json.thy ===== *)
theory Json
  imports Prelude
begin

text \<open>
  JSON values as Python sees them, and the decoder \<^verbatim>\<open>json.loads\<close> as
  \<^verbatim>\<open>app/strict_json.py\<close> calls it: with an \<^verbatim>\<open>object_pairs_hook\<close> that refuses
  repeated keys and a \<^verbatim>\<open>parse_constant\<close> that refuses \<^verbatim>\<open>NaN\<close> and the two
  infinities. The decoder is fuelled; \<open>json_loads\<close> gives it two units per character and
  \<open>scan_fuel_enough\<close> shows that this never runs out.
\<close>

section \<open>Values\<close>

text \<open>
  A number with a fraction or an exponent becomes a \<^verbatim>\<open>float\<close>. Finite floats are taken
  as exact reals (rounding is not modelled); a literal at or beyond the rounding limit
  \<open>2 ^ 1024 - 2 ^ 970\<close> becomes an infinity, as in CPython.
\<close>

datatype pyfloat = FFin real | FInf | FNegInf

datatype json =
    JNull
  | JBool bool
  | JInt int
  | JFloat pyfloat
  | JStr pystr
  | JList "json list"
  | JDict "(pystr \<times> json) list"

fun depth :: "json \<Rightarrow> nat" where
  "depth (JList xs) = Suc (foldr max (map depth xs) 0)"
| "depth (JDict kvs) = Suc (foldr max (map (\<lambda>(k, v). depth v) kvs) 0)"
| "depth _ = 0"

fun nodes :: "json \<Rightarrow> nat" where
  "nodes (JList xs) = Suc (sum_list (map nodes xs))"
| "nodes (JDict kvs) = Suc (sum_list (map (\<lambda>(k, v). nodes v) kvs))"
| "nodes _ = 1"

text \<open>Every object, at any depth, has distinct keys.\<close>

fun unique_keys :: "json \<Rightarrow> bool" where
  "unique_keys (JList xs) = list_all unique_keys xs"
| "unique_keys (JDict kvs) = (wf_dict kvs \<and> list_all (\<lambda>(k, v). unique_keys v) kvs)"
| "unique_keys _ = True"

text \<open>A predicate on every string of a value, and on every property name.\<close>

fun all_strings :: "(pystr \<Rightarrow> bool) \<Rightarrow> json \<Rightarrow> bool" where
  "all_strings P (JStr s) = P s"
| "all_strings P (JList xs) = list_all (all_strings P) xs"
| "all_strings P (JDict kvs) = list_all (\<lambda>(k, v). P k \<and> all_strings P v) kvs"
| "all_strings P _ = True"

section \<open>Scanning\<close>

datatype 'a scan = Fuel | Fail strict_reason | Done 'a pystr

definition is_ws :: "nat \<Rightarrow> bool" where
  "is_ws c \<longleftrightarrow> c = 32 \<or> c = 9 \<or> c = 10 \<or> c = 13"

definition skip_ws :: "pystr \<Rightarrow> pystr" where
  "skip_ws s = dropWhile is_ws s"

definition is_digit :: "nat \<Rightarrow> bool" where
  "is_digit c \<longleftrightarrow> 48 \<le> c \<and> c \<le> 57"

text \<open>Strings: the characters after the opening quote; control characters are refused.\<close>

definition simple_escape :: "nat \<Rightarrow> nat option" where
  "simple_escape e =
     map_of [(34, 34), (92, 92), (47, 47), (98, 8), (102, 12), (110, 10), (114, 13), (116, 9)] e"

definition hex4 :: "pystr \<Rightarrow> nat option" where
  "hex4 s =
     (if length s < 4 \<or> \<not> list_all is_hex (take 4 s) then None
      else Some (foldl (\<lambda>n c. 16 * n + the (hexval c)) 0 (take 4 s)))"

definition low_surrogate :: "pystr \<Rightarrow> nat option" where
  "low_surrogate s =
     (if take 2 s = [92, 117] then
        (case hex4 (drop 2 s) of
           Some w \<Rightarrow> if 56320 \<le> w \<and> w \<le> 57343 then Some w else None
         | None \<Rightarrow> None)
      else None)"

definition join_surrogates :: "nat \<Rightarrow> nat \<Rightarrow> nat" where
  "join_surrogates hi lo = 65536 + (hi - 55296) * 1024 + (lo - 56320)"

abbreviation push_char :: "nat \<Rightarrow> (pystr \<times> pystr) option \<Rightarrow> (pystr \<times> pystr) option" where
  "push_char c \<equiv> map_option (\<lambda>(t, r). (c # t, r))"

function scan_str :: "pystr \<Rightarrow> (pystr \<times> pystr) option" where
  "scan_str [] = None"
| "scan_str (c # s) =
     (if c = 34 then Some ([], s)
      else if c = 92 then
        (case s of
           [] \<Rightarrow> None
         | e # s1 \<Rightarrow>
             if e = 117 then
               (case hex4 s1 of
                  None \<Rightarrow> None
                | Some v \<Rightarrow>
                    (case (if 55296 \<le> v \<and> v \<le> 56319 then low_surrogate (drop 4 s1) else None) of
                       Some w \<Rightarrow> push_char (join_surrogates v w) (scan_str (drop 10 s1))
                     | None \<Rightarrow> push_char v (scan_str (drop 4 s1))))
             else
               (case simple_escape e of
                  None \<Rightarrow> None
                | Some d \<Rightarrow> push_char d (scan_str s1)))
      else if c < 32 then None
      else push_char c (scan_str s))"
  by pat_completeness auto
termination
  by (relation "measure length") auto

text \<open>Numbers.\<close>

definition digits_val :: "pystr \<Rightarrow> nat" where
  "digits_val ds = foldl (\<lambda>n c. 10 * n + (c - 48)) 0 ds"

definition scan_int :: "pystr \<Rightarrow> (pystr \<times> pystr) option" where
  "scan_int s =
     (case s of
        [] \<Rightarrow> None
      | c # r \<Rightarrow>
          if c = 48 then Some ([48], r)
          else if is_digit c then Some (takeWhile is_digit s, dropWhile is_digit s)
          else None)"

definition scan_frac :: "pystr \<Rightarrow> pystr option \<times> pystr" where
  "scan_frac s =
     (case s of
        [] \<Rightarrow> (None, s)
      | c # r \<Rightarrow>
          if c = 46 \<and> takeWhile is_digit r \<noteq> [] then (Some (takeWhile is_digit r), dropWhile is_digit r)
          else (None, s))"

definition scan_exp :: "pystr \<Rightarrow> int option \<times> pystr" where
  "scan_exp s =
     (case s of
        [] \<Rightarrow> (None, s)
      | c # r \<Rightarrow>
          if c = 101 \<or> c = 69 then
            (let neg = (r \<noteq> [] \<and> hd r = 45);
                 body = (if r \<noteq> [] \<and> (hd r = 45 \<or> hd r = 43) then tl r else r);
                 ds = takeWhile is_digit body
             in if ds = [] then (None, s)
                else (Some ((if neg then - 1 else 1) * int (digits_val ds)), dropWhile is_digit body))
          else (None, s))"

definition float_of_real :: "real \<Rightarrow> pyfloat" where
  "float_of_real x =
     (if \<bar>x\<bar> < 2 ^ 1024 - 2 ^ 970 then FFin x else if 0 < x then FInf else FNegInf)"

definition make_number :: "bool \<Rightarrow> pystr \<Rightarrow> pystr option \<Rightarrow> int option \<Rightarrow> json option" where
  "make_number neg ds fr ex =
     (case (fr, ex) of
        (None, None) \<Rightarrow>
          if length ds > 4300 then None
          else Some (JInt ((if neg then - 1 else 1) * int (digits_val ds)))
      | _ \<Rightarrow>
          (let fs = (case fr of None \<Rightarrow> [] | Some fs \<Rightarrow> fs);
               e = (case ex of None \<Rightarrow> 0 | Some e \<Rightarrow> e)
           in Some (JFloat (float_of_real
                ((if neg then - 1 else 1) * real (digits_val (ds @ fs)) * 10 powi (e - int (length fs)))))))"

definition scan_number :: "pystr \<Rightarrow> json scan" where
  "scan_number s =
     (let neg = (s \<noteq> [] \<and> hd s = 45)
      in case scan_int (if neg then tl s else s) of
           None \<Rightarrow> Fail InvalidJson
         | Some (ds, r1) \<Rightarrow>
             (case scan_frac r1 of (fs, r2) \<Rightarrow>
              case scan_exp r2 of (ex, r3) \<Rightarrow>
              case make_number neg ds fs ex of
                None \<Rightarrow> Fail InvalidJson
              | Some v \<Rightarrow> Done v r3))"

text \<open>Literals, and the three constants that \<^verbatim>\<open>reject_constant\<close> refuses.\<close>

definition has_prefix :: "string \<Rightarrow> pystr \<Rightarrow> bool" where
  "has_prefix p s \<longleftrightarrow> take (length p) s = u p"

definition scan_atom :: "pystr \<Rightarrow> json scan" where
  "scan_atom s =
     (if has_prefix ''null'' s then Done JNull (drop 4 s)
      else if has_prefix ''true'' s then Done (JBool True) (drop 4 s)
      else if has_prefix ''false'' s then Done (JBool False) (drop 5 s)
      else if has_prefix ''NaN'' s \<or> has_prefix ''Infinity'' s \<or> has_prefix ''-Infinity'' s
        then Fail NonFinite
      else scan_number s)"

definition map_scan :: "('a \<Rightarrow> 'b) \<Rightarrow> 'a scan \<Rightarrow> 'b scan" where
  "map_scan f x = (case x of Fuel \<Rightarrow> Fuel | Fail e \<Rightarrow> Fail e | Done v r \<Rightarrow> Done (f v) r)"

text \<open>
  \<open>scan_elems\<close> starts at an element and ends after the closing bracket, \<open>scan_members\<close>
  at a property name and ends after the closing brace; the pairs of an object go through
  \<open>unique_object\<close> when the object is complete.
\<close>

definition unique_object :: "(pystr \<times> json) list \<Rightarrow> strict_reason + json" where
  "unique_object kvs = (if wf_dict kvs then Inr (JDict kvs) else Inl DuplicateKey)"

fun scan_value :: "nat \<Rightarrow> pystr \<Rightarrow> json scan"
and scan_elems :: "nat \<Rightarrow> pystr \<Rightarrow> json list scan"
and scan_members :: "nat \<Rightarrow> pystr \<Rightarrow> (pystr \<times> json) list scan" where
  "scan_value 0 s = Fuel"
| "scan_value (Suc n) s =
     (case s of
        [] \<Rightarrow> Fail InvalidJson
      | c # r \<Rightarrow>
          if c = 34 then
            (case scan_str r of None \<Rightarrow> Fail InvalidJson | Some (t, r') \<Rightarrow> Done (JStr t) r')
          else if c = 91 then
            (case skip_ws r of
               [] \<Rightarrow> Fail InvalidJson
             | d # r' \<Rightarrow> if d = 93 then Done (JList []) r' else map_scan JList (scan_elems n (d # r')))
          else if c = 123 then
            (case skip_ws r of
               [] \<Rightarrow> Fail InvalidJson
             | d # r' \<Rightarrow>
                 if d = 125 then Done (JDict []) r'
                 else (case scan_members n (d # r') of
                         Fuel \<Rightarrow> Fuel
                       | Fail e \<Rightarrow> Fail e
                       | Done kvs r2 \<Rightarrow>
                           (case unique_object kvs of Inl e \<Rightarrow> Fail e | Inr v \<Rightarrow> Done v r2)))
          else scan_atom s)"
| "scan_elems 0 s = Fuel"
| "scan_elems (Suc n) s =
     (case scan_value n s of
        Fuel \<Rightarrow> Fuel
      | Fail e \<Rightarrow> Fail e
      | Done v r \<Rightarrow>
          (case skip_ws r of
             [] \<Rightarrow> Fail InvalidJson
           | d # r' \<Rightarrow>
               if d = 93 then Done [v] r'
               else if d = 44 then map_scan ((#) v) (scan_elems n (skip_ws r'))
               else Fail InvalidJson))"
| "scan_members 0 s = Fuel"
| "scan_members (Suc n) s =
     (case s of
        [] \<Rightarrow> Fail InvalidJson
      | c # r \<Rightarrow>
          if c \<noteq> 34 then Fail InvalidJson
          else case scan_str r of
            None \<Rightarrow> Fail InvalidJson
          | Some (k, r1) \<Rightarrow>
              (case skip_ws r1 of
                 [] \<Rightarrow> Fail InvalidJson
               | d # r2 \<Rightarrow>
                   if d \<noteq> 58 then Fail InvalidJson
                   else case scan_value n (skip_ws r2) of
                     Fuel \<Rightarrow> Fuel
                   | Fail e \<Rightarrow> Fail e
                   | Done v r3 \<Rightarrow>
                       (case skip_ws r3 of
                          [] \<Rightarrow> Fail InvalidJson
                        | e # r4 \<Rightarrow>
                            if e = 125 then Done [(k, v)] r4
                            else if e = 44 then map_scan ((#) (k, v)) (scan_members n (skip_ws r4))
                            else Fail InvalidJson)))"

definition json_loads :: "pystr \<Rightarrow> strict_reason + json" where
  "json_loads s =
     (if s \<noteq> [] \<and> hd s = 65279 then Inl InvalidJson
      else case scan_value (Suc (2 * length s)) (skip_ws s) of
        Done v r \<Rightarrow> if skip_ws r = [] then Inr v else Inl InvalidJson
      | Fail e \<Rightarrow> Inl e
      | Fuel \<Rightarrow> Inl InvalidJson)"

section \<open>What a scanner leaves\<close>

lemma skip_ws_suffix: "\<exists>p. s = p @ skip_ws s \<and> list_all is_ws p"
  by (rule exI [of _ "takeWhile is_ws s"]) (auto simp: skip_ws_def list_all_iff dest: set_takeWhileD)

lemma length_skip_ws: "length (skip_ws s) \<le> length s"
  by (simp add: skip_ws_def length_dropWhile_le)

lemma skip_ws_idle [simp]: "\<not> is_ws c \<Longrightarrow> skip_ws (c # s) = c # s" "skip_ws [] = []"
  by (simp_all add: skip_ws_def)

lemma scan_str_shorter: "scan_str s = Some (t, r) \<Longrightarrow> length r < length s"
proof (induction s arbitrary: t rule: scan_str.induct)
  case (2 c s)
  then show ?case
    by (fastforce split: if_splits list.splits option.splits)
qed simp

lemma scan_int_shorter: "scan_int s = Some (ds, r) \<Longrightarrow> length r < length s"
proof -
  have "length (dropWhile is_digit xs) \<le> length xs" for xs by (rule length_dropWhile_le)
  then show "scan_int s = Some (ds, r) \<Longrightarrow> length r < length s"
    by (auto simp: scan_int_def less_Suc_eq_le split: list.splits if_splits)
qed

lemma scan_frac_le: "scan_frac s = (fs, r) \<Longrightarrow> length r \<le> length s"
  by (auto simp: scan_frac_def intro: le_SucI length_dropWhile_le split: list.splits if_splits)

lemma scan_exp_le: "scan_exp s = (ex, r) \<Longrightarrow> length r \<le> length s"
proof -
  have "length (dropWhile is_digit (tl xs)) \<le> Suc (length xs)" for xs
    using length_dropWhile_le [of is_digit "tl xs"] by simp
  then show "scan_exp s = (ex, r) \<Longrightarrow> length r \<le> length s"
    by (auto simp: scan_exp_def Let_def intro: le_SucI length_dropWhile_le
        split: list.splits if_splits)
qed

lemma scan_number_shorter: "scan_number s = Done v r \<Longrightarrow> length r < length s"
  by (fastforce simp: scan_number_def Let_def split: if_splits option.splits prod.splits
      dest!: scan_int_shorter scan_frac_le scan_exp_le)

lemma has_prefix_length: "has_prefix p s \<Longrightarrow> length p \<le> length s"
  by (metis has_prefix_def length_take length_u min.cobounded1)

lemma scan_atom_shorter: "scan_atom s = Done v r \<Longrightarrow> length r < length s"
  by (auto simp: scan_atom_def split: if_splits dest!: has_prefix_length dest: scan_number_shorter)

lemma map_scan_eq [simp]:
  "map_scan f x = Done y r \<longleftrightarrow> (\<exists>v. x = Done v r \<and> y = f v)"
  "map_scan f x = Fuel \<longleftrightarrow> x = Fuel"
  "map_scan f x = Fail e \<longleftrightarrow> x = Fail e"
  by (auto simp: map_scan_def split: scan.splits)

lemma skip_ws_Cons_shorter: "skip_ws s = c # r \<Longrightarrow> length r < length s"
  using length_skip_ws [of s] by simp

lemma scan_shorter:
  "(\<forall>s v r. scan_value n s = Done v r \<longrightarrow> length r < length s) \<and>
   (\<forall>s vs r. scan_elems n s = Done vs r \<longrightarrow> length r < length s) \<and>
   (\<forall>s kvs r. scan_members n s = Done kvs r \<longrightarrow> length r < length s)"
proof (induction n)
  case (Suc n)
  then have value_n: "scan_value n s = Done v r \<Longrightarrow> length r < length s"
    and elems_n: "scan_elems n s = Done vs r \<Longrightarrow> length r < length s"
    and members_n: "scan_members n s = Done kvs r \<Longrightarrow> length r < length s" for s v vs kvs r
    by blast+
  have v: "length r < length s" if "scan_value (Suc n) s = Done v r" for s v r
    using that
    by (fastforce simp: unique_object_def split: list.splits if_splits option.splits scan.splits
        dest!: scan_str_shorter scan_atom_shorter skip_ws_Cons_shorter elems_n members_n)
  have e: "length r < length s" if "scan_elems (Suc n) s = Done vs r" for s vs r
  proof -
    from that obtain w r1 d r2 where w: "scan_value n s = Done w r1" "skip_ws r1 = d # r2"
      and d: "r = r2 \<or> (\<exists>ws. scan_elems n (skip_ws r2) = Done ws r)"
      by (auto split: scan.splits list.splits if_splits)
    from d have "length r \<le> length r2"
      using elems_n [of "skip_ws r2"] length_skip_ws [of r2] by fastforce
    with value_n [OF w(1)] skip_ws_Cons_shorter [OF w(2)] show ?thesis by simp
  qed
  have m: "length r < length s" if "scan_members (Suc n) s = Done kvs r" for s kvs r
  proof -
    from that obtain c s1 k s2 s3 w s4 s5 d d' where
      s: "s = c # s1" "scan_str s1 = Some (k, s2)" "skip_ws s2 = d # s3"
         "scan_value n (skip_ws s3) = Done w s4" "skip_ws s4 = d' # s5"
      and d: "r = s5 \<or> (\<exists>ws. scan_members n (skip_ws s5) = Done ws r)"
      by (auto split: scan.splits list.splits if_splits option.splits)
    from d have "length r \<le> length s5"
      using members_n [of "skip_ws s5"] length_skip_ws [of s5] by fastforce
    with s(1) scan_str_shorter [OF s(2)] skip_ws_Cons_shorter [OF s(3)] value_n [OF s(4)]
      skip_ws_Cons_shorter [OF s(5)] length_skip_ws [of s3]
    show ?thesis by simp
  qed
  from v e m show ?case by blast
qed simp

lemmas scan_value_shorter = scan_shorter [THEN conjunct1, rule_format]
  and scan_elems_shorter = scan_shorter [THEN conjunct2, THEN conjunct1, rule_format]
  and scan_members_shorter = scan_shorter [THEN conjunct2, THEN conjunct2, rule_format]

section \<open>Enough fuel\<close>

lemma scan_atom_no_fuel [simp]: "scan_atom s \<noteq> Fuel"
  by (auto simp: scan_atom_def scan_number_def Let_def split: option.splits prod.splits)

lemma scan_fuel_enough:
  "(\<forall>s. 2 * length s < n \<longrightarrow> scan_value n s \<noteq> Fuel) \<and>
   (\<forall>s. Suc (2 * length s) < n \<longrightarrow> scan_elems n s \<noteq> Fuel) \<and>
   (\<forall>s. Suc (2 * length s) < n \<longrightarrow> scan_members n s \<noteq> Fuel)"
proof (induction n)
  case (Suc n)
  then have value_n: "2 * length s < n \<Longrightarrow> scan_value n s \<noteq> Fuel"
    and elems_n: "Suc (2 * length s) < n \<Longrightarrow> scan_elems n s \<noteq> Fuel"
    and members_n: "Suc (2 * length s) < n \<Longrightarrow> scan_members n s \<noteq> Fuel" for s
    by blast+
  have v: "scan_value (Suc n) s \<noteq> Fuel" if "2 * length s < Suc n" for s
  proof (cases s)
    case (Cons c r)
    have "scan_elems n (d # r') \<noteq> Fuel \<and> scan_members n (d # r') \<noteq> Fuel"
      if "skip_ws r = d # r'" for d r'
      using elems_n [of "d # r'"] members_n [of "d # r'"] skip_ws_Cons_shorter [OF that]
        \<open>2 * length s < Suc n\<close> Cons by simp
    with Cons show ?thesis
      by (auto simp: unique_object_def split: list.splits option.splits scan.splits if_splits)
  qed simp
  have e: "scan_elems (Suc n) s \<noteq> Fuel" if "Suc (2 * length s) < Suc n" for s
  proof -
    have "scan_elems n (skip_ws r') \<noteq> Fuel" if "scan_value n s = Done w r" "skip_ws r = d # r'" for w r d r'
      using elems_n [of "skip_ws r'"] scan_value_shorter [OF that(1)] skip_ws_Cons_shorter [OF that(2)]
        length_skip_ws [of r'] \<open>Suc (2 * length s) < Suc n\<close> by simp
    with value_n [of s] that show ?thesis
      by (auto split: list.splits scan.splits)
  qed
  have m: "scan_members (Suc n) s \<noteq> Fuel" if "Suc (2 * length s) < Suc n" for s
  proof -
    have *: "2 * length (skip_ws r2) < n" if "s = c # r" "scan_str r = Some (k, r1)" "skip_ws r1 = d # r2"
      for c r k r1 d r2
      using scan_str_shorter [OF that(2)] skip_ws_Cons_shorter [OF that(3)] length_skip_ws [of r2]
        \<open>Suc (2 * length s) < Suc n\<close> that(1) by simp
    have "scan_members n (skip_ws r4) \<noteq> Fuel"
      if "s = c # r" "scan_str r = Some (k, r1)" "skip_ws r1 = d # r2"
         "scan_value n (skip_ws r2) = Done w r3" "skip_ws r3 = f # r4"
      for c r k r1 d r2 w r3 f r4
      using members_n [of "skip_ws r4"] * [OF that(1-3)] scan_value_shorter [OF that(4)]
        skip_ws_Cons_shorter [OF that(5)] length_skip_ws [of r4] by simp
    with * value_n show ?thesis
      by (auto split: list.splits scan.splits option.splits)
  qed
  from v e m show ?case by blast
qed simp

lemma json_loads_scan:
  "\<exists>x. scan_value (Suc (2 * length s)) (skip_ws s) = x \<and> x \<noteq> Fuel"
  using scan_fuel_enough [of "Suc (2 * length s)"] length_skip_ws [of s] by auto

section \<open>Decoded objects have distinct keys\<close>

lemma make_number_scalar: "make_number neg ds fs ex = Some v \<Longrightarrow> (\<exists>i. v = JInt i) \<or> (\<exists>x. v = JFloat x)"
  by (auto simp: make_number_def Let_def split: option.splits if_splits)

lemma scan_atom_scalar:
  "scan_atom s = Done v r \<Longrightarrow> v = JNull \<or> (\<exists>b. v = JBool b) \<or> (\<exists>i. v = JInt i) \<or> (\<exists>x. v = JFloat x)"
  by (auto simp: scan_atom_def scan_number_def Let_def
      split: if_splits option.splits prod.splits dest: make_number_scalar)

lemma scan_unique_keys:
  "(\<forall>s v r. scan_value n s = Done v r \<longrightarrow> unique_keys v) \<and>
   (\<forall>s vs r. scan_elems n s = Done vs r \<longrightarrow> list_all unique_keys vs) \<and>
   (\<forall>s kvs r. scan_members n s = Done kvs r \<longrightarrow> list_all (\<lambda>(k, v). unique_keys v) kvs)"
proof (induction n)
  case (Suc n)
  have "unique_keys v" if "scan_value (Suc n) s = Done v r" for s v r
    using that Suc
    by (fastforce simp: unique_object_def split: list.splits if_splits option.splits scan.splits
        dest: scan_atom_scalar)
  moreover have "list_all unique_keys vs" if "scan_elems (Suc n) s = Done vs r" for s vs r
    using that Suc by (fastforce split: list.splits if_splits scan.splits)
  moreover have "list_all (\<lambda>(k, v). unique_keys v) kvs"
    if "scan_members (Suc n) s = Done kvs r" for s kvs r
    using that Suc by (fastforce split: list.splits if_splits scan.splits option.splits)
  ultimately show ?case by blast
qed simp

section \<open>Evaluation on concrete texts\<close>

lemmas scan_numeral =
  scan_value.simps(2) [of "pred_numeral k" for k, folded numeral_eq_Suc]
  scan_elems.simps(2) [of "pred_numeral k" for k, folded numeral_eq_Suc]
  scan_members.simps(2) [of "pred_numeral k" for k, folded numeral_eq_Suc]

lemmas json_eval = json_loads_def skip_ws_def is_ws_def is_digit_def scan_atom_def scan_number_def
  scan_int_def scan_frac_def scan_exp_def make_number_def has_prefix_def map_scan_def unique_object_def
  digits_val_def simple_escape_def hex4_def low_surrogate_def scan_numeral Let_def

end
