(* ===== verification/Metrics.thy ===== *)
theory Metrics
  imports Json
begin

text \<open>
  \<^verbatim>\<open>app/metrics.py\<close>: counters, gauges and bounded sample windows. Every method takes the
  registry's lock, so a method is one step. Rendering to Prometheus text and the probe loop
  are in \<^verbatim>\<open>Operations\<close>. Shown: the window keeps exactly the last 4096 observations, and
  \<open>quantile\<close> is the nearest-rank order statistic.
\<close>

section \<open>Definitions\<close>

record metrics =
  counters :: "(string, real) dict"
  gauges :: "(string, real) dict"
  samples :: "(string, real list) dict"

definition new_metrics :: metrics where
  "new_metrics = \<lparr>counters = [], gauges = [], samples = []\<rparr>"

definition dget_default :: "'v \<Rightarrow> ('k, 'v) dict \<Rightarrow> 'k \<Rightarrow> 'v" where
  "dget_default z d k = (case dget d k of None \<Rightarrow> z | Some v \<Rightarrow> v)"

definition increment_by :: "string \<Rightarrow> real \<Rightarrow> metrics \<Rightarrow> metrics" where
  "increment_by name amount m =
     m\<lparr>counters := dset (counters m) name (dget_default 0 (counters m) name + amount)\<rparr>"

abbreviation increment :: "string \<Rightarrow> metrics \<Rightarrow> metrics" where
  "increment name \<equiv> increment_by name 1"

definition gauge :: "string \<Rightarrow> real \<Rightarrow> metrics \<Rightarrow> metrics" where
  "gauge name value m = m\<lparr>gauges := dset (gauges m) name value\<rparr>"

definition observe :: "string \<Rightarrow> pyfloat \<Rightarrow> metrics \<Rightarrow> metrics" where
  "observe name value m =
     (case value of
        FFin x \<Rightarrow>
          (let xs = dget_default [] (samples m) name @ [x]
           in m\<lparr>samples := dset (samples m) name
                  (if length xs > 4096 then drop (length xs - 4096) xs else xs)\<rparr>)
      | _ \<Rightarrow> m)"

definition gauge_value :: "string \<Rightarrow> metrics \<Rightarrow> real" where
  "gauge_value name m = dget_default 0 (gauges m) name"

definition quantile_of :: "real list \<Rightarrow> real \<Rightarrow> real" where
  "quantile_of values q =
     (if values = [] then 0
      else let ordered = sort values;
               index = max 0 (min (int (length ordered) - 1) (\<lceil>q * real (length ordered)\<rceil> - 1))
           in ordered ! nat index)"

definition quantile :: "string \<Rightarrow> real \<Rightarrow> metrics \<Rightarrow> real" where
  "quantile name q m = quantile_of (dget_default [] (samples m) name) q"

section \<open>Lemmas\<close>

lemma dget_default_dset: "dget_default z (dset d k v) k' = (if k' = k then v else dget_default z d k')"
  by (simp add: dget_default_def dget_dset)

lemma drop_append_window:
  "drop (length (drop (length xs - n) xs @ [x]) - n) (drop (length xs - n) xs @ [x]) =
   drop (length (xs @ [x]) - n) (xs @ [x])"
  by (cases "length xs < n") (auto simp: not_less Suc_diff_le drop_Suc tl_drop [symmetric] drop_Cons'
      split: nat.splits)

lemma observe_step:
  "dget_default [] (samples (observe name (FFin x) m)) name =
   (let xs = dget_default [] (samples m) name @ [x] in drop (length xs - 4096) xs)"
  by (simp add: observe_def Let_def dget_default_dset)

lemma filter_count_sort: "length (filter P (sort xs)) = length (filter P xs)"
  by (metis mset_filter mset_sort size_mset)

lemma sorted_count_le:
  assumes "sorted xs" "i < length xs"
  shows "Suc i \<le> length (filter (\<lambda>x. x \<le> xs ! i) xs)"
proof -
  have "filter (\<lambda>x. x \<le> xs ! i) (take (Suc i) xs) = take (Suc i) xs"
    using assms by (intro filter_True) (auto simp: in_set_conv_nth sorted_iff_nth_mono)
  then have "Suc i = length (filter (\<lambda>x. x \<le> xs ! i) (take (Suc i) xs))"
    using assms by simp
  also have "\<dots> \<le> length (filter (\<lambda>x. x \<le> xs ! i) (take (Suc i) xs @ drop (Suc i) xs))"
    by (simp only: filter_append length_append)
  finally show ?thesis by simp
qed

lemma sorted_count_less:
  assumes "sorted xs" "i < length xs"
  shows "length (filter (\<lambda>x. x < xs ! i) xs) \<le> i"
proof -
  have "filter (\<lambda>x. x < xs ! i) (drop i xs) = []"
    using assms by (auto simp: filter_empty_conv in_set_conv_nth sorted_iff_nth_mono not_less)
  then have "filter (\<lambda>x. x < xs ! i) xs = filter (\<lambda>x. x < xs ! i) (take i xs)"
    by (metis append.right_neutral append_take_drop_id filter_append)
  then show ?thesis
    using length_filter_le [of "\<lambda>x. x < xs ! i" "take i xs"] by simp
qed

lemma quantile_rank:
  assumes "values \<noteq> []" "0 < q" "q \<le> 1"
  shows "quantile_of values q \<in> set values"
    and "q * real (length values) \<le> real (length (filter (\<lambda>x. x \<le> quantile_of values q) values))"
    and "real (length (filter (\<lambda>x. x < quantile_of values q) values)) < q * real (length values)"
proof -
  define n where "n = length values"
  define k where "k = nat \<lceil>q * real n\<rceil>"
  have n: "0 < n" using assms(1) by (simp add: n_def)
  then have pos: "0 < q * real n" using assms(2) by simp
  have "q * real n \<le> real n" using assms(3) n by simp
  then have k: "1 \<le> k" "k \<le> n" "q * real n \<le> real k" "real k - 1 < q * real n"
    using pos by (auto simp: k_def ceiling_le_iff) linarith+
  have i: "nat (max 0 (min (int n - 1) (\<lceil>q * real n\<rceil> - 1))) = k - 1"
    using k pos by (auto simp: k_def)
  then have eq: "quantile_of values q = sort values ! (k - 1)"
    using assms(1) by (simp add: quantile_of_def n_def Let_def)
  have lt: "k - 1 < length (sort values)" using k by (simp add: n_def)
  then show "quantile_of values q \<in> set values"
    using nth_mem [OF lt] by (simp add: eq)
  show "q * real (length values) \<le> real (length (filter (\<lambda>x. x \<le> quantile_of values q) values))"
    using sorted_count_le [OF sorted_sort lt] k
    by (simp add: eq filter_count_sort n_def [symmetric])
  show "real (length (filter (\<lambda>x. x < quantile_of values q) values)) < q * real (length values)"
    using sorted_count_less [OF sorted_sort lt] k
    by (simp add: eq filter_count_sort n_def [symmetric])
qed

section \<open>Properties\<close>

text \<open>A sample series holds exactly the last 4096 observed values, in order, so memory is
  bounded and no recent observation is lost.\<close>

theorem observe_keeps_last_window:
  "dget_default [] (samples (fold (observe name) (map FFin xs) new_metrics)) name =
   drop (length xs - 4096) xs"
proof (induction xs rule: rev_induct)
  case Nil
  then show ?case by (simp add: new_metrics_def dget_default_def)
next
  case (snoc x xs)
  then show ?case
    using drop_append_window [of xs 4096 x] by (simp add: observe_step Let_def)
qed

text \<open>For a quantile in (0, 1] of a non-empty series the result is one of the samples, at least
  that share of the samples is not above it, and less than that share is below it.\<close>

theorem quantile_nearest_rank:
  assumes "values \<noteq> []" "0 < q" "q \<le> 1"
  shows "quantile_of values q \<in> set values \<and>
    q * real (length values) \<le> real (length (filter (\<lambda>x. x \<le> quantile_of values q) values)) \<and>
    real (length (filter (\<lambda>x. x < quantile_of values q) values)) < q * real (length values)"
  using quantile_rank [OF assms] by blast

theorem quantile_nearest_rank_witness:
  "quantile_of [3, 1, 2] (1 / 2) \<in> set [3, 1, 2] \<and>
   1 / 2 * real (length [3 :: real, 1, 2]) \<le> real (length (filter (\<lambda>x. x \<le> quantile_of [3, 1, 2] (1 / 2)) [3, 1, 2])) \<and>
   real (length (filter (\<lambda>x. x < quantile_of [3, 1, 2] (1 / 2)) [3, 1, 2])) < 1 / 2 * real (length [3 :: real, 1, 2])"
  by (rule quantile_nearest_rank) simp_all

end
