(* ===== verification/Canonical.thy ===== *)
theory Canonical
  imports Json
begin

text \<open>
  \<^verbatim>\<open>app/canonical.py\<close>: \<^verbatim>\<open>json.dumps\<close> without white space and with
  \<^verbatim>\<open>ensure_ascii=False\<close>, in insertion order (as \<^verbatim>\<open>Hub.send_session\<close> measures frames)
  and with sorted keys (as signatures, manifests and dedupe keys need it). The text of a finite
  float (\<^verbatim>\<open>float.__repr__\<close>) and SHA-256 are parameters. That decoding
  the text gives back the value is shown in \<^verbatim>\<open>Json_Roundtrip\<close>.
\<close>

section \<open>Definitions\<close>

definition escape_char :: "nat \<Rightarrow> pystr" where
  "escape_char c =
     (if c = 34 then [92, 34]
      else if c = 92 then [92, 92]
      else if c = 10 then [92, 110]
      else if c = 13 then [92, 114]
      else if c = 9 then [92, 116]
      else if c = 12 then [92, 102]
      else if c = 8 then [92, 98]
      else if c < 32 then [92, 117, 48, 48, hex_digit (c div 16), hex_digit (c mod 16)]
      else [c])"

definition dump_str :: "pystr \<Rightarrow> pystr" where
  "dump_str s = 34 # concat (map escape_char s) @ [34]"

fun dump_nat :: "nat \<Rightarrow> pystr" where
  "dump_nat n = (if n < 10 then [48 + n] else dump_nat (n div 10) @ [48 + n mod 10])"

declare dump_nat.simps [simp del]

definition dump_int :: "int \<Rightarrow> pystr" where
  "dump_int i = (if i < 0 then 45 # dump_nat (nat (- i)) else dump_nat (nat i))"

fun dump_float :: "(real \<Rightarrow> pystr) \<Rightarrow> pyfloat \<Rightarrow> pystr" where
  "dump_float frepr (FFin x) = frepr x"
| "dump_float frepr FInf = u ''Infinity''"
| "dump_float frepr FNegInf = u ''-Infinity''"

fun join_comma :: "pystr list \<Rightarrow> pystr" where
  "join_comma [] = []"
| "join_comma [x] = x"
| "join_comma (x # y # xs) = x @ 44 # join_comma (y # xs)"

fun dumps :: "(real \<Rightarrow> pystr) \<Rightarrow> json \<Rightarrow> pystr" where
  "dumps frepr JNull = u ''null''"
| "dumps frepr (JBool b) = (if b then u ''true'' else u ''false'')"
| "dumps frepr (JInt i) = dump_int i"
| "dumps frepr (JFloat x) = dump_float frepr x"
| "dumps frepr (JStr s) = dump_str s"
| "dumps frepr (JList xs) = 91 # join_comma (map (dumps frepr) xs) @ [93]"
| "dumps frepr (JDict kvs) =
     123 # join_comma (map (\<lambda>(k, v). dump_str k @ 58 # dumps frepr v) kvs) @ [125]"

fun sort_keys :: "json \<Rightarrow> json" where
  "sort_keys (JList xs) = JList (map sort_keys xs)"
| "sort_keys (JDict kvs) = JDict (sort_key fst (map (\<lambda>(k, v). (k, sort_keys v)) kvs))"
| "sort_keys v = v"

definition canonical_json_bytes :: "(real \<Rightarrow> pystr) \<Rightarrow> json \<Rightarrow> bytes result" where
  "canonical_json_bytes frepr value =
     (case utf8_encode (dumps frepr (sort_keys value)) of
        None \<Rightarrow> Inl UnicodeEncodeError | Some b \<Rightarrow> Inr b)"

definition content_hash_hex :: "(real \<Rightarrow> pystr) \<Rightarrow> (bytes \<Rightarrow> bytes) \<Rightarrow> json \<Rightarrow> pystr result" where
  "content_hash_hex frepr sha256 value =
     rbind (canonical_json_bytes frepr value) (\<lambda>b. Inr (hex (sha256 b)))"

section \<open>Encodability\<close>

definition encodable :: "pystr \<Rightarrow> bool" where
  "encodable s \<longleftrightarrow> (\<forall>c \<in> set s. \<not> is_surrogate c)"

lemma utf8_len_encodable: "utf8_len s \<noteq> None \<longleftrightarrow> encodable s"
  by (auto simp: utf8_len_alt encodable_def list_ex_iff)

lemma encodable_simps [simp]:
  "encodable []" "encodable (c # s) \<longleftrightarrow> \<not> is_surrogate c \<and> encodable s"
  "encodable (s @ t) \<longleftrightarrow> encodable s \<and> encodable t" "encodable (concat ss) \<longleftrightarrow> list_all encodable ss"
  by (auto simp: encodable_def list_all_iff)

lemma ascii_encodable: "list_all (\<lambda>c. c < 128) s \<Longrightarrow> encodable s"
  by (auto simp: encodable_def list_all_iff is_surrogate_def)

lemma encodable_u [simp]: "encodable (u s)"
proof -
  have "(of_char ch :: nat) < 256" for ch :: char
    by (rule nat_of_char_less_256)
  then have "of_char ch < (55296 :: nat)" for ch :: char
    by (rule less_trans) simp
  then show ?thesis by (auto simp: u_def encodable_def is_surrogate_def not_le)
qed

lemma encodable_escape [simp]: "encodable (escape_char c) \<longleftrightarrow> \<not> is_surrogate c"
  by (auto simp: escape_char_def is_surrogate_def hex_digit_def)

lemma encodable_dump_str: "encodable (dump_str s) \<longleftrightarrow> encodable s"
  by (simp add: dump_str_def list_all_iff is_surrogate_def) (simp add: encodable_def is_surrogate_def)

lemma encodable_dump_nat: "encodable (dump_nat n)"
  by (induction n rule: dump_nat.induct) (subst dump_nat.simps, auto simp: is_surrogate_def)

lemma encodable_join: "encodable (join_comma ss) \<longleftrightarrow> list_all encodable ss"
  by (induction ss rule: join_comma.induct) (auto simp: is_surrogate_def)

text \<open>A value whose strings encode has a text that encodes, floats being written in ASCII.\<close>

lemma dumps_encodable:
  assumes "\<And>x. encodable (frepr x)"
  shows "encodable (dumps frepr v) \<longleftrightarrow> all_strings encodable v"
  using assms
proof (induction frepr v rule: dumps.induct)
  case (4 frepr x)
  then show ?case by (cases x) simp_all
qed (force simp: encodable_dump_str dump_int_def encodable_dump_nat encodable_join list.pred_map comp_def
    is_surrogate_def list_all_iff split: prod.splits)+

lemma all_strings_sort_keys: "all_strings P (sort_keys v) \<longleftrightarrow> all_strings P v"
  by (induction v rule: sort_keys.induct) (force simp: list_all_iff)+

lemma content_hash_ok:
  assumes "\<And>x. encodable (frepr x)" "all_strings encodable v"
  obtains key where "content_hash_hex frepr sha v = Inr key"
proof -
  have "encodable (dumps frepr (sort_keys v))"
    using assms by (simp add: dumps_encodable all_strings_sort_keys)
  then obtain b where "utf8_encode (dumps frepr (sort_keys v)) = Some b"
    unfolding utf8_len_encodable [symmetric] utf8_len_def by (cases "utf8_encode (dumps frepr (sort_keys v))") auto
  then show ?thesis using that by (simp add: content_hash_hex_def canonical_json_bytes_def)
qed

end
