(* ===== verification/Hub.thy ===== *)
theory Hub
  imports Config Metrics Canonical
begin

text \<open>
  \<^verbatim>\<open>app/hub.py\<close>: all server-side state. Sessions, route leases, the dedupe cache, the rate
  limiters and the bounded outbound queues. Every operation of the class is a function on the
  record \<open>hub\<close>; clock readings, new session ids and sockets are arguments, and writes to a socket
  are listed as \<open>effect\<close>s. The writer task of a session is a field with its own two steps.
\<close>

section \<open>State\<close>

datatype effect = SendFrame nat json | CloseSocket nat int string

text \<open>
  \<open>Writing None\<close> waits in \<^verbatim>\<open>queue.get()\<close>, \<open>Writing (Some f)\<close> is sending \<open>f\<close>; a task
  that ended with an exception is \<open>WriterDone\<close>.
\<close>

datatype writer = NoWriter | Writing "(json \<times> nat) option" | WriterDone

record session =
  ws :: nat
  proven :: bool
  challenge :: "bytes option"
  public_key_raw :: "bytes option"
  identity_key_hex :: "pystr option"
  identity_key_id :: "pystr option"
  created_at :: real
  last_heartbeat :: real
  sess_routes :: "pystr list"
  encryption_key_hex :: "pystr option"
  encryption_key_id :: "pystr option"
  session_protocol :: int
  last_signal_sequence :: int
  outbound_queue :: "(json \<times> nat) list"
  outbound_bytes :: int
  writer_task :: writer

record hub =
  hub_metrics :: metrics
  sessions :: "(pystr, session) dict"
  routes :: "(pystr, (pystr, real) dict) dict"
  seen :: "(pystr, real) dict"
  outbound_queued_bytes :: int
  rate_limiter :: limiter_registry
  global_message_limiter :: token_bucket

definition new_hub :: "config \<Rightarrow> real \<Rightarrow> hub" where
  "new_hub c now =
     \<lparr>hub_metrics = new_metrics, sessions = [], routes = [], seen = [], outbound_queued_bytes = 0,
      rate_limiter = [],
      global_message_limiter =
        new_bucket (real_of_int (message_global_burst c)) (message_global_per_second c) now\<rparr>"

definition with_metrics :: "(metrics \<Rightarrow> metrics) \<Rightarrow> hub \<Rightarrow> hub" where
  "with_metrics f h = h\<lparr>hub_metrics := f (hub_metrics h)\<rparr>"

definition gauge_sessions :: "hub \<Rightarrow> hub" where
  "gauge_sessions h = with_metrics (gauge ''active_sessions'' (real (length (sessions h)))) h"

definition gauge_routes :: "hub \<Rightarrow> hub" where
  "gauge_routes h = with_metrics (gauge ''active_routes'' (real (length (routes h)))) h"

definition gauge_queued :: "hub \<Rightarrow> hub" where
  "gauge_queued h = with_metrics (gauge ''outbound_queued_bytes'' (real_of_int (outbound_queued_bytes h))) h"

definition set_session :: "pystr \<Rightarrow> session \<Rightarrow> hub \<Rightarrow> hub" where
  "set_session sid s h = h\<lparr>sessions := dset (sessions h) sid s\<rparr>"

section \<open>Routes\<close>

definition attach_route ::
  "config \<Rightarrow> real \<Rightarrow> pystr \<Rightarrow> pystr \<Rightarrow> real option \<Rightarrow> int option \<Rightarrow> hub \<Rightarrow> hub result" where
  "attach_route c now sid rid ttl_seconds max_routes h =
     (case dget (sessions h) sid of
        None \<Rightarrow> Inl KeyError
      | Some s \<Rightarrow>
          (let route_limit = (case max_routes of None \<Rightarrow> max_routes_per_session c | Some n \<Rightarrow> n);
               ttl = (case ttl_seconds of None \<Rightarrow> route_lease_seconds c | Some x \<Rightarrow> x)
           in if rid \<notin> set (sess_routes s) \<and> int (length (sess_routes s)) \<ge> route_limit
              then Inl (ValueError ''too-many-routes'')
              else
                let route = dget_default [] (routes h) rid;
                    h1 = h\<lparr>routes := dset (routes h) rid (dset route sid (now + ttl))\<rparr>;
                    h2 = set_session sid (s\<lparr>sess_routes := List.insert rid (sess_routes s)\<rparr>) h1
                in Inr (gauge_routes (with_metrics (increment ''route_attachments'') h2))))"

definition heartbeat_route ::
  "config \<Rightarrow> real \<Rightarrow> pystr \<Rightarrow> pystr \<Rightarrow> real option \<Rightarrow> hub \<Rightarrow> bool \<times> hub" where
  "heartbeat_route c now sid rid ttl_seconds h =
     (case dget (routes h) rid of
        None \<Rightarrow> (False, h)
      | Some route \<Rightarrow>
          if sid \<notin> set (dkeys route) then (False, h)
          else
            let ttl = (case ttl_seconds of None \<Rightarrow> route_lease_seconds c | Some x \<Rightarrow> x)
            in (True, h\<lparr>routes := dset (routes h) rid (dset route sid (now + ttl))\<rparr>))"

definition detach_route :: "pystr \<Rightarrow> pystr \<Rightarrow> hub \<Rightarrow> hub" where
  "detach_route sid rid h =
     (let h1 =
        (case dget (routes h) rid of
           None \<Rightarrow> h
         | Some route \<Rightarrow>
             (let route' = dpop route sid
              in h\<lparr>routes := if route' = [] then dpop (routes h) rid else dset (routes h) rid route'\<rparr>));
          h2 =
        (case dget (sessions h1) sid of
           None \<Rightarrow> h1
         | Some s \<Rightarrow> set_session sid (s\<lparr>sess_routes := removeAll rid (sess_routes s)\<rparr>) h1)
      in gauge_routes (with_metrics (increment ''route_detachments'') h2))"

definition route_subscribers :: "real \<Rightarrow> pystr \<Rightarrow> pystr option \<Rightarrow> hub \<Rightarrow> pystr list" where
  "route_subscribers now rid exclude h =
     (case dget (routes h) rid of
        None \<Rightarrow> []
      | Some route \<Rightarrow>
          map fst (filter (\<lambda>(sid, expires_at). expires_at > now \<and> Some sid \<noteq> exclude) route))"

text \<open>
  \<^verbatim>\<open>prune_routes\<close> walks copies of the key lists; \<open>expire_member\<close> is the body of its inner
  loop, \<open>prune_route\<close> that of the outer one.
\<close>

definition expire_member :: "real \<Rightarrow> pystr \<Rightarrow> pystr \<Rightarrow> hub \<times> nat \<Rightarrow> hub \<times> nat" where
  "expire_member now rid sid st =
     (case st of (h, removed) \<Rightarrow>
        let route = dget_default [] (routes h) rid
        in case dget route sid of
             None \<Rightarrow> st
           | Some expires_at \<Rightarrow>
               if expires_at \<le> now then
                 let h1 = h\<lparr>routes := dset (routes h) rid (dpop route sid)\<rparr>
                 in ((case dget (sessions h1) sid of
                        None \<Rightarrow> h1
                      | Some s \<Rightarrow> set_session sid (s\<lparr>sess_routes := removeAll rid (sess_routes s)\<rparr>) h1),
                     Suc removed)
               else st)"

definition prune_route :: "real \<Rightarrow> pystr \<Rightarrow> hub \<times> nat \<Rightarrow> hub \<times> nat" where
  "prune_route now rid st =
     (let (h, removed) = fold (expire_member now rid) (dkeys (dget_default [] (routes (fst st)) rid)) st
      in if dget_default [] (routes h) rid = [] then (h\<lparr>routes := dpop (routes h) rid\<rparr>, removed)
         else (h, removed))"

definition prune_routes :: "real \<Rightarrow> hub \<Rightarrow> hub \<times> nat" where
  "prune_routes now h = fold (prune_route now) (dkeys (routes h)) (h, 0)"

section \<open>Sessions\<close>

definition new_session :: "nat \<Rightarrow> real \<Rightarrow> session" where
  "new_session socket now =
     \<lparr>ws = socket, proven = False, challenge = None, public_key_raw = None, identity_key_hex = None,
      identity_key_id = None, created_at = now, last_heartbeat = now, sess_routes = [],
      encryption_key_hex = None, encryption_key_id = None, session_protocol = 1,
      last_signal_sequence = - 1, outbound_queue = [], outbound_bytes = 0, writer_task = NoWriter\<rparr>"

definition create_session :: "real \<Rightarrow> nat \<Rightarrow> pystr \<Rightarrow> hub \<Rightarrow> hub" where
  "create_session now socket sid h =
     gauge_sessions (with_metrics (increment ''sessions_created'')
       (set_session sid (new_session socket now) h))"

definition remove_session :: "pystr \<Rightarrow> hub \<Rightarrow> hub" where
  "remove_session sid h =
     (case dget (sessions h) sid of
        None \<Rightarrow> h
      | Some s \<Rightarrow>
          (let h1 = gauge_queued (h\<lparr>sessions := dpop (sessions h) sid,
                       outbound_queued_bytes := max 0 (outbound_queued_bytes h - outbound_bytes s)\<rparr>);
               h2 = fold (detach_route sid) (sess_routes s) h1;
               h3 = h2\<lparr>rate_limiter := drop_session sid (rate_limiter h2)\<rparr>
           in gauge_sessions (with_metrics (increment ''sessions_removed'') h3)))"

definition touch_heartbeat :: "real \<Rightarrow> pystr \<Rightarrow> hub \<Rightarrow> hub" where
  "touch_heartbeat now sid h =
     (case dget (sessions h) sid of
        None \<Rightarrow> h
      | Some s \<Rightarrow> set_session sid (s\<lparr>last_heartbeat := now\<rparr>) h)"

definition session_count :: "hub \<Rightarrow> int" where
  "session_count h = int (length (sessions h))"

definition set_v2_identity :: "(bytes \<Rightarrow> bytes) \<Rightarrow> pystr \<Rightarrow> pystr \<Rightarrow> pystr \<Rightarrow> hub \<Rightarrow> hub result" where
  "set_v2_identity sha256 sid identity_hex encryption_hex h =
     (case dget (sessions h) sid of
        None \<Rightarrow> Inl KeyError
      | Some s \<Rightarrow>
          (case (fromhex identity_hex, fromhex encryption_hex) of
             (Some ik, Some ek) \<Rightarrow>
               Inr (set_session sid (s\<lparr>session_protocol := 2,
                 identity_key_hex := Some identity_hex, identity_key_id := Some (hex (sha256 ik)),
                 encryption_key_hex := Some encryption_hex, encryption_key_id := Some (hex (sha256 ek))\<rparr>) h)
           | _ \<Rightarrow> Inl (ValueError ''fromhex'')))"

definition json_opt :: "pystr option \<Rightarrow> json" where
  "json_opt x = (case x of None \<Rightarrow> JNull | Some s \<Rightarrow> JStr s)"

definition peer_descriptor :: "pystr \<Rightarrow> hub \<Rightarrow> (pystr \<times> json) list option" where
  "peer_descriptor sid h =
     (case dget (sessions h) sid of
        None \<Rightarrow> None
      | Some s \<Rightarrow>
          if \<not> proven s \<or> session_protocol s \<noteq> 2 then None
          else Some [(u ''sessionId'', JStr sid), (u ''encryptionKeyHex'', json_opt (encryption_key_hex s)),
                     (u ''keyId'', json_opt (encryption_key_id s))])"

definition route_peer_descriptors :: "real \<Rightarrow> pystr \<Rightarrow> pystr option \<Rightarrow> hub \<Rightarrow> (pystr \<times> json) list list" where
  "route_peer_descriptors now rid exclude h =
     List.map_filter (\<lambda>sid. peer_descriptor sid h) (route_subscribers now rid exclude h)"

definition prune_stale_sessions :: "config \<Rightarrow> real \<Rightarrow> hub \<Rightarrow> pystr list \<times> hub \<times> effect list" where
  "prune_stale_sessions c now h =
     (let stale = map fst (filter (\<lambda>(sid, s). now - last_heartbeat s > session_stale_seconds c) (sessions h));
          sockets = map (\<lambda>sid. case dget (sessions h) sid of None \<Rightarrow> 0 | Some s \<Rightarrow> ws s) stale
      in (stale, fold remove_session stale h, map (\<lambda>w. CloseSocket w 1001 ''stale session'') sockets))"

section \<open>Outbound queues\<close>

definition queue_full :: "config \<Rightarrow> session \<Rightarrow> bool" where
  "queue_full c s \<longleftrightarrow> 0 < outbound_queue_frames c \<and> outbound_queue_frames c \<le> int (length (outbound_queue s))"

definition send_session ::
  "(real \<Rightarrow> pystr) \<Rightarrow> config \<Rightarrow> pystr \<Rightarrow> json \<Rightarrow> hub \<Rightarrow> (bool \<times> hub \<times> effect list) result" where
  "send_session frepr c sid data h =
     (case dget (sessions h) sid of
        None \<Rightarrow> Inr (False, h, [])
      | Some s \<Rightarrow>
          (case utf8_len (dumps frepr data) of
             None \<Rightarrow> Inl UnicodeEncodeError
           | Some encoded_bytes \<Rightarrow>
               if queue_full c s \<or> outbound_bytes s + int encoded_bytes > outbound_queue_bytes c then
                 Inr (False, gauge_queued (with_metrics (increment ''outbound_queue_rejections'') h),
                      [CloseSocket (ws s) 1013 ''slow client''])
               else
                 let s1 = s\<lparr>outbound_queue := outbound_queue s @ [(data, encoded_bytes)],
                            outbound_bytes := outbound_bytes s + int encoded_bytes\<rparr>;
                     s2 = s1\<lparr>writer_task := (case writer_task s1 of Writing f \<Rightarrow> Writing f | _ \<Rightarrow> Writing None)\<rparr>;
                     h1 = set_session sid s2
                            (h\<lparr>outbound_queued_bytes := outbound_queued_bytes h + int encoded_bytes\<rparr>)
                 in Inr (True, gauge_queued h1, [])))"

text \<open>
  One turn of \<^verbatim>\<open>_writer_loop\<close> is \<open>writer_get\<close> (taking a frame off the queue) and
  \<open>writer_finish\<close> (the send returned, or raised).
\<close>

definition writer_get :: "pystr \<Rightarrow> hub \<Rightarrow> hub \<times> effect list" where
  "writer_get sid h =
     (case dget (sessions h) sid of
        None \<Rightarrow> (h, [])
      | Some s \<Rightarrow>
          (case (writer_task s, outbound_queue s) of
             (Writing None, f # q) \<Rightarrow>
               (set_session sid (s\<lparr>outbound_queue := q, writer_task := Writing (Some f)\<rparr>) h,
                [SendFrame (ws s) (fst f)])
           | _ \<Rightarrow> (h, [])))"

definition writer_finish :: "bool \<Rightarrow> pystr \<Rightarrow> hub \<Rightarrow> hub" where
  "writer_finish sent sid h =
     (case dget (sessions h) sid of
        None \<Rightarrow> h
      | Some s \<Rightarrow>
          (case writer_task s of
             Writing (Some (data, encoded_bytes)) \<Rightarrow>
               (let h1 = gauge_queued (set_session sid
                      (s\<lparr>outbound_bytes := max 0 (outbound_bytes s - int encoded_bytes),
                         writer_task := (if sent then Writing None else WriterDone)\<rparr>)
                      (h\<lparr>outbound_queued_bytes := max 0 (outbound_queued_bytes h - int encoded_bytes)\<rparr>))
                in if sent then h1 else with_metrics (increment ''outbound_writer_failures'') h1)
           | _ \<Rightarrow> h))"

section \<open>Dedupe\<close>

definition prune_dedupe :: "real \<Rightarrow> hub \<Rightarrow> hub \<times> nat" where
  "prune_dedupe now h =
     (let stale_keys = map fst (filter (\<lambda>(k, expires_at). expires_at \<le> now) (seen h))
      in (h\<lparr>seen := fold (\<lambda>k d. dpop d k) stale_keys (seen h)\<rparr>, length stale_keys))"

definition check_and_mark_seen :: "config \<Rightarrow> real \<Rightarrow> pystr \<Rightarrow> real \<Rightarrow> hub \<Rightarrow> bool \<times> hub" where
  "check_and_mark_seen c now dedupe_key ttl_seconds h =
     (let expires_at = dget (seen h) dedupe_key
      in if (case expires_at of None \<Rightarrow> False | Some e \<Rightarrow> e > now) then (False, h)
         else
           let h1 = (if expires_at = None \<and> int (length (seen h)) \<ge> max_dedupe_entries c
                     then fst (prune_dedupe now h) else h)
           in if expires_at = None \<and> int (length (seen h)) \<ge> max_dedupe_entries c \<and>
                 int (length (seen h1)) \<ge> max_dedupe_entries c
              then (False, with_metrics (increment ''dedupe_capacity_rejections'') h1)
              else (True, h1\<lparr>seen := dset (seen h1) dedupe_key (now + ttl_seconds)\<rparr>))"

text \<open>The body of \<^verbatim>\<open>_cleanup_loop\<close> of \<^verbatim>\<open>app/main.py\<close>.\<close>

definition cleanup_step :: "config \<Rightarrow> real \<Rightarrow> hub \<Rightarrow> hub \<times> effect list" where
  "cleanup_step c now h =
     (case prune_stale_sessions c now (fst (prune_routes now h)) of
        (stale, h1, effs) \<Rightarrow> (fst (prune_dedupe now h1), effs))"

end
