(* ===== verification/Hub_Routes.thy ===== *)
theory Hub_Routes
  imports Hub
begin

text \<open>
  The route directory of the hub: the two-sided bookkeeping (a lease in the route's table, the
  route in the session's set) stays consistent under every operation, no empty route is kept, and
  removing a session or pruning leaves exactly the live leases.
\<close>

section \<open>Frame facts\<close>

lemma with_metrics_simps [simp]:
  "sessions (with_metrics f h) = sessions h" "routes (with_metrics f h) = routes h"
  "seen (with_metrics f h) = seen h" "outbound_queued_bytes (with_metrics f h) = outbound_queued_bytes h"
  "rate_limiter (with_metrics f h) = rate_limiter h"
  "global_message_limiter (with_metrics f h) = global_message_limiter h"
  by (simp_all add: with_metrics_def)

lemma gauge_simps [simp]:
  "sessions (gauge_sessions h) = sessions h" "routes (gauge_sessions h) = routes h"
  "seen (gauge_sessions h) = seen h" "outbound_queued_bytes (gauge_sessions h) = outbound_queued_bytes h"
  "rate_limiter (gauge_sessions h) = rate_limiter h"
  "global_message_limiter (gauge_sessions h) = global_message_limiter h"
  "sessions (gauge_routes h) = sessions h" "routes (gauge_routes h) = routes h"
  "seen (gauge_routes h) = seen h" "outbound_queued_bytes (gauge_routes h) = outbound_queued_bytes h"
  "rate_limiter (gauge_routes h) = rate_limiter h"
  "global_message_limiter (gauge_routes h) = global_message_limiter h"
  "sessions (gauge_queued h) = sessions h" "routes (gauge_queued h) = routes h"
  "seen (gauge_queued h) = seen h" "outbound_queued_bytes (gauge_queued h) = outbound_queued_bytes h"
  "rate_limiter (gauge_queued h) = rate_limiter h"
  "global_message_limiter (gauge_queued h) = global_message_limiter h"
  by (simp_all add: gauge_sessions_def gauge_routes_def gauge_queued_def)

lemma set_session_simps [simp]:
  "sessions (set_session sid s h) = dset (sessions h) sid s" "routes (set_session sid s h) = routes h"
  "seen (set_session sid s h) = seen h" "outbound_queued_bytes (set_session sid s h) = outbound_queued_bytes h"
  "rate_limiter (set_session sid s h) = rate_limiter h"
  "global_message_limiter (set_session sid s h) = global_message_limiter h"
  by (simp_all add: set_session_def)

section \<open>Leases\<close>

definition lease :: "hub \<Rightarrow> pystr \<Rightarrow> pystr \<Rightarrow> real option" where
  "lease h rid sid = (case dget (routes h) rid of None \<Rightarrow> None | Some m \<Rightarrow> dget m sid)"

definition in_session :: "hub \<Rightarrow> pystr \<Rightarrow> pystr \<Rightarrow> bool" where
  "in_session h sid rid \<longleftrightarrow> (\<exists>s. dget (sessions h) sid = Some s \<and> rid \<in> set (sess_routes s))"

text \<open>Well-formed tables: distinct keys throughout and no empty route.\<close>

definition tables_ok :: "hub \<Rightarrow> bool" where
  "tables_ok h \<longleftrightarrow> wf_dict (sessions h) \<and> wf_dict (routes h) \<and>
     (\<forall>rid m. dget (routes h) rid = Some m \<longrightarrow> wf_dict m \<and> m \<noteq> []) \<and>
     (\<forall>sid s. dget (sessions h) sid = Some s \<longrightarrow> distinct (sess_routes s))"

definition routes_inv :: "hub \<Rightarrow> bool" where
  "routes_inv h \<longleftrightarrow> tables_ok h \<and> (\<forall>rid sid. lease h rid sid \<noteq> None \<longleftrightarrow> in_session h sid rid)"

lemma lease_cong: "routes h' = routes h \<Longrightarrow> lease h' = lease h"
  by (simp add: lease_def fun_eq_iff)

lemma dget_dpop_None: "dpop m k = [] \<Longrightarrow> k' \<noteq> k \<Longrightarrow> dget m k' = None"
  by (metis dget_dpop map_of.simps(1))

lemma routes_invD: "routes_inv h \<Longrightarrow> \<not> in_session h sid rid \<Longrightarrow> lease h rid sid = None"
  "routes_inv h \<Longrightarrow> in_session h sid rid \<Longrightarrow> lease h rid sid \<noteq> None"
  "routes_inv h \<Longrightarrow> tables_ok h"
  unfolding routes_inv_def by blast+

lemma new_hub_routes_inv: "routes_inv (new_hub c now)"
  by (simp add: routes_inv_def tables_ok_def new_hub_def lease_def in_session_def)

subsection \<open>Attaching\<close>

lemma attach_route_cases:
  assumes "attach_route c now sid rid ttl mx h = Inr h'"
  obtains s where "dget (sessions h) sid = Some s"
    "rid \<in> set (sess_routes s) \<or> int (length (sess_routes s)) < (case mx of None \<Rightarrow> max_routes_per_session c | Some n \<Rightarrow> n)"
    "sessions h' = dset (sessions h) sid (s\<lparr>sess_routes := List.insert rid (sess_routes s)\<rparr>)"
    "routes h' = dset (routes h) rid (dset (dget_default [] (routes h) rid) sid
        (now + (case ttl of None \<Rightarrow> route_lease_seconds c | Some x \<Rightarrow> x)))"
    "seen h' = seen h" "outbound_queued_bytes h' = outbound_queued_bytes h"
    "rate_limiter h' = rate_limiter h" "global_message_limiter h' = global_message_limiter h"
proof -
  obtain s where s: "dget (sessions h) sid = Some s"
    using assms by (auto simp: attach_route_def split: option.splits)
  show ?thesis
    by (rule that [OF s]) (use assms s in \<open>auto simp: attach_route_def Let_def split: if_splits\<close>)
qed

lemma lease_put:
  assumes "routes h' = dset (routes h) rid (dset (dget_default [] (routes h) rid) sid e)"
  shows "lease h' r s = (if r = rid \<and> s = sid then Some e else lease h r s)"
  by (simp add: lease_def assms dget_dset dget_default_def split: option.split)

lemma lease_attach:
  assumes "attach_route c now sid rid ttl mx h = Inr h'"
  shows "lease h' r s = (if r = rid \<and> s = sid
    then Some (now + (case ttl of None \<Rightarrow> route_lease_seconds c | Some x \<Rightarrow> x)) else lease h r s)"
  by (rule attach_route_cases [OF assms]) (rule lease_put)

lemma attach_routes_inv:
  assumes "routes_inv h" "attach_route c now sid rid ttl mx h = Inr h'"
  shows "routes_inv h'"
proof -
  obtain s where s: "dget (sessions h) sid = Some s"
    "sessions h' = dset (sessions h) sid (s\<lparr>sess_routes := List.insert rid (sess_routes s)\<rparr>)"
    "routes h' = dset (routes h) rid (dset (dget_default [] (routes h) rid) sid
        (now + (case ttl of None \<Rightarrow> route_lease_seconds c | Some x \<Rightarrow> x)))"
    using assms(2) by (rule attach_route_cases)
  have "wf_dict (dget_default [] (routes h) rid)"
    using assms(1) by (auto simp: routes_inv_def tables_ok_def dget_default_def split: option.splits)
  then have "tables_ok h'"
    using assms(1) s by (auto simp: routes_inv_def tables_ok_def dget_dset split: if_splits)
  moreover have "in_session h' x r \<longleftrightarrow> r = rid \<and> x = sid \<or> in_session h x r" for x r
    using s by (auto simp: in_session_def dget_dset)
  ultimately show ?thesis
    using assms(1) by (auto simp: routes_inv_def lease_attach [OF assms(2)])
qed

subsection \<open>Detaching\<close>

lemma sessions_detach:
  "dget (sessions (detach_route sid rid h)) x =
     (if x = sid then map_option (\<lambda>s. s\<lparr>sess_routes := removeAll rid (sess_routes s)\<rparr>) (dget (sessions h) sid)
      else dget (sessions h) x)"
  by (auto simp: detach_route_def Let_def dget_dset split: option.splits)

lemma detach_frame [simp]:
  "seen (detach_route sid rid h) = seen h"
  "outbound_queued_bytes (detach_route sid rid h) = outbound_queued_bytes h"
  "rate_limiter (detach_route sid rid h) = rate_limiter h"
  "global_message_limiter (detach_route sid rid h) = global_message_limiter h"
  by (auto simp: detach_route_def Let_def split: option.splits)

lemma routes_detach:
  "routes (detach_route sid rid h) =
     (case dget (routes h) rid of
        None \<Rightarrow> routes h
      | Some m \<Rightarrow> if dpop m sid = [] then dpop (routes h) rid else dset (routes h) rid (dpop m sid))"
  by (auto simp: detach_route_def Let_def split: option.splits)

lemma lease_detach:
  "lease (detach_route sid rid h) r s = (if r = rid \<and> s = sid then None else lease h r s)"
  by (auto simp: lease_def routes_detach dget_dset dget_dpop dest: dget_dpop_None split: option.splits)

lemma tables_ok_detach: "tables_ok h \<Longrightarrow> tables_ok (detach_route sid rid h)"
proof -
  assume ok: "tables_ok h"
  have "wf_dict (sessions (detach_route sid rid h))"
    using ok by (auto simp: detach_route_def Let_def tables_ok_def split: option.splits)
  moreover have "wf_dict (routes (detach_route sid rid h))"
    using ok by (auto simp: routes_detach tables_ok_def split: option.splits)
  ultimately show ?thesis
    using ok by (auto simp: tables_ok_def sessions_detach routes_detach dget_dset dget_dpop distinct_removeAll
        split: option.splits if_splits)
qed

lemma in_session_detach:
  "in_session (detach_route sid rid h) x r \<longleftrightarrow> in_session h x r \<and> \<not> (x = sid \<and> r = rid)"
  by (auto simp: in_session_def sessions_detach)

lemma detach_routes_inv: "routes_inv h \<Longrightarrow> routes_inv (detach_route sid rid h)"
  by (auto simp: routes_inv_def tables_ok_detach lease_detach in_session_detach)

subsection \<open>Removing a session\<close>

lemma fold_detach:
  "lease (fold (detach_route sid) rs h) r s = (if s = sid \<and> r \<in> set rs then None else lease h r s)"
  "tables_ok h \<Longrightarrow> tables_ok (fold (detach_route sid) rs h)"
  "x \<noteq> sid \<Longrightarrow> dget (sessions (fold (detach_route sid) rs h)) x = dget (sessions h) x"
  "dget (sessions h) sid = None \<Longrightarrow> dget (sessions (fold (detach_route sid) rs h)) sid = None"
  "seen (fold (detach_route sid) rs h) = seen h"
  "outbound_queued_bytes (fold (detach_route sid) rs h) = outbound_queued_bytes h"
  "rate_limiter (fold (detach_route sid) rs h) = rate_limiter h"
  "global_message_limiter (fold (detach_route sid) rs h) = global_message_limiter h"
  by (induction rs arbitrary: h) (auto simp: lease_detach tables_ok_detach sessions_detach)

lemma sessions_fold_detach:
  "dget (sessions h) sid = None \<Longrightarrow> sessions (fold (detach_route sid) rs h) = sessions h"
proof (induction rs arbitrary: h)
  case (Cons r rs)
  have "sessions (detach_route sid r h) = sessions h"
    using Cons.prems by (auto simp: detach_route_def Let_def split: option.splits)
  with Cons show ?case by simp
qed simp

lemma remove_session_None: "dget (sessions h) sid = None \<Longrightarrow> remove_session sid h = h"
  by (simp add: remove_session_def)

lemma remove_session_frame:
  assumes "dget (sessions h) sid = Some s"
  shows "sessions (remove_session sid h) = dpop (sessions h) sid"
    "seen (remove_session sid h) = seen h"
    "outbound_queued_bytes (remove_session sid h) = max 0 (outbound_queued_bytes h - outbound_bytes s)"
    "rate_limiter (remove_session sid h) = drop_session sid (rate_limiter h)"
    "global_message_limiter (remove_session sid h) = global_message_limiter h"
  using assms by (simp_all add: remove_session_def Let_def fold_detach sessions_fold_detach dget_dpop)

lemma dget_remove_session: "dget (sessions (remove_session sid h)) x = (if x = sid then None else dget (sessions h) x)"
  by (cases "dget (sessions h) sid") (auto simp: remove_session_None remove_session_frame dget_dpop)

lemma lease_remove_session:
  assumes "routes_inv h"
  shows "lease (remove_session sid h) r x = (if x = sid then None else lease h r x)"
proof (cases "dget (sessions h) sid")
  case None
  then have "lease h r sid = None"
    using routes_invD(1) [OF assms, of sid r] by (simp add: in_session_def)
  with None show ?thesis by (simp add: remove_session_None)
next
  case (Some s)
  let ?h1 = "gauge_queued (h\<lparr>sessions := dpop (sessions h) sid,
      outbound_queued_bytes := max 0 (outbound_queued_bytes h - outbound_bytes s)\<rparr>)"
  have "routes (remove_session sid h) = routes (fold (detach_route sid) (sess_routes s) ?h1)"
    using Some by (simp add: remove_session_def Let_def)
  then have "lease (remove_session sid h) = lease (fold (detach_route sid) (sess_routes s) ?h1)"
    by (rule lease_cong)
  moreover have "lease ?h1 = lease h" by (rule lease_cong) simp
  moreover have "r \<notin> set (sess_routes s) \<Longrightarrow> lease h r sid = None"
    using routes_invD(1) [OF assms, of sid r] Some by (simp add: in_session_def)
  ultimately show ?thesis by (auto simp: fold_detach)
qed

lemma tables_ok_remove: "tables_ok h \<Longrightarrow> tables_ok (remove_session sid h)"
proof (cases "dget (sessions h) sid")
  case (Some s)
  assume ok: "tables_ok h"
  let ?h1 = "gauge_queued (h\<lparr>sessions := dpop (sessions h) sid,
      outbound_queued_bytes := max 0 (outbound_queued_bytes h - outbound_bytes s)\<rparr>)"
  have "tables_ok ?h1"
    using ok by (auto simp: tables_ok_def dget_dpop split: if_splits)
  then have "tables_ok (fold (detach_route sid) (sess_routes s) ?h1)" by (rule fold_detach(2))
  then show ?thesis using Some by (simp add: remove_session_def Let_def tables_ok_def)
qed (simp add: remove_session_None)

lemma remove_routes_inv: "routes_inv h \<Longrightarrow> routes_inv (remove_session sid h)"
  using lease_remove_session tables_ok_remove
  by (auto simp: routes_inv_def in_session_def dget_remove_session split: if_splits)

subsection \<open>Pruning\<close>

text \<open>
  The loops of \<^verbatim>\<open>prune_routes\<close> amount to filtering every lease table and dropping the
  tables that become empty, in place, so the order of the remaining subscribers is unchanged.
\<close>

abbreviation table :: "hub \<Rightarrow> pystr \<Rightarrow> (pystr, real) dict" where
  "table h rid \<equiv> dget_default [] (routes h) rid"

definition wf_tables :: "hub \<Rightarrow> bool" where
  "wf_tables h \<longleftrightarrow> wf_dict (sessions h) \<and> wf_dict (routes h) \<and> (\<forall>rid. wf_dict (table h rid)) \<and>
     (\<forall>sid s. dget (sessions h) sid = Some s \<longrightarrow> distinct (sess_routes s))"

lemma tables_ok_wf: "tables_ok h \<Longrightarrow> wf_tables h"
  by (auto simp: tables_ok_def wf_tables_def dget_default_def split: option.splits)

definition keep_routes :: "(pystr \<Rightarrow> bool) \<Rightarrow> session \<Rightarrow> session" where
  "keep_routes P s = s\<lparr>sess_routes := filter P (sess_routes s)\<rparr>"

definition expired_lease :: "real \<Rightarrow> hub \<Rightarrow> pystr \<Rightarrow> pystr \<Rightarrow> bool" where
  "expired_lease now h rid sid \<longleftrightarrow> (\<exists>e. dget (table h rid) sid = Some e \<and> e \<le> now)"

lemma keep_routes_simps [simp]:
  "keep_routes P (keep_routes Q s) = keep_routes (\<lambda>r. Q r \<and> P r) s" "keep_routes (\<lambda>_. True) s = s"
  "sess_routes (keep_routes P s) = filter P (sess_routes s)"
  by (simp_all add: keep_routes_def)

lemma keep_all [simp]: "keep_routes (\<lambda>_. True) = (\<lambda>s. s)"
  by (simp add: fun_eq_iff)

lemma removeAll_filter_neq: "removeAll x xs = filter (\<lambda>y. y \<noteq> x) xs"
  by (induction xs) auto

lemma expire_entry:
  "wf_dict m \<Longrightarrow> filter (\<lambda>(s, e). s = sid \<longrightarrow> (now :: real) < e) m =
     (case dget m sid of None \<Rightarrow> m | Some e \<Rightarrow> if e \<le> now then dpop m sid else m)"
proof (induction m)
  case (Cons p m)
  obtain s e where p: "p = (s, e)" by (cases p)
  have "s = sid \<Longrightarrow> filter (\<lambda>(s, e). s = sid \<longrightarrow> now < e) m = m"
    using Cons.prems p by (force simp: filter_id_conv)
  then show ?case
    using Cons p by (auto simp: dpop_notin split: option.splits)
qed simp

lemma expire_member_routes:
  "routes (fst (expire_member now rid sid st)) =
     (case dget (table (fst st) rid) sid of
        None \<Rightarrow> routes (fst st)
      | Some e \<Rightarrow> if e \<le> now then dset (routes (fst st)) rid (dpop (table (fst st) rid) sid) else routes (fst st))"
  by (auto simp: expire_member_def Let_def split: option.splits prod.splits)

lemma expire_member_table:
  assumes "wf_dict (table (fst st) rid)"
  shows "table (fst (expire_member now rid sid st)) r =
      (if r = rid then filter (\<lambda>(s, e). s = sid \<longrightarrow> now < e) (table (fst st) rid) else table (fst st) r)"
  by (auto simp: expire_member_routes expire_entry [OF assms] dget_default_dset split: option.splits)

lemma expire_member_keys:
  "dkeys (routes (fst (expire_member now rid sid st))) = dkeys (routes (fst st))"
proof -
  have "dget (table (fst st) rid) sid = Some e \<Longrightarrow> rid \<in> set (dkeys (routes (fst st)))" for e
    by (auto simp: dget_default_def split: option.splits dest: dget_Some_key)
  then have "dget (table (fst st) rid) sid = Some e \<Longrightarrow>
      dkeys (dset (routes (fst st)) rid z) = dkeys (routes (fst st))" for e z
    by (simp add: update_keys)
  then show ?thesis by (auto simp: expire_member_routes split: option.splits)
qed

lemma expire_member_sessions:
  "dget (sessions (fst (expire_member now rid sid st))) x =
     map_option (keep_routes (\<lambda>r. r = rid \<and> x = sid \<longrightarrow> \<not> expired_lease now (fst st) r x))
       (dget (sessions (fst st)) x)"
proof (cases "x = sid \<and> expired_lease now (fst st) rid sid")
  case True
  then show ?thesis
    by (cases st) (auto simp: expire_member_def expired_lease_def keep_routes_def Let_def dget_dset
        removeAll_filter_neq split: option.splits)
next
  case False
  then have "(\<lambda>r. r = rid \<and> x = sid \<longrightarrow> \<not> expired_lease now (fst st) r x) = (\<lambda>_. True)" by auto
  moreover have "dget (sessions (fst (expire_member now rid sid st))) x = dget (sessions (fst st)) x"
    using False by (cases st) (auto simp: expire_member_def expired_lease_def Let_def dget_dset
        split: option.splits)
  ultimately show ?thesis by (simp add: option.map_ident)
qed

lemma expire_member_wf:
  assumes "wf_tables (fst st)"
  shows "wf_tables (fst (expire_member now rid sid st))"
proof -
  have wf: "wf_dict (table (fst st) rid)" using assms by (simp add: wf_tables_def)
  have "wf_dict (sessions (fst (expire_member now rid sid st)))"
    using assms by (cases st) (auto simp: expire_member_def Let_def wf_tables_def split: option.splits)
  then show ?thesis
    using assms unfolding wf_tables_def
    by (auto simp: expire_member_sessions expire_member_table [OF wf] expire_member_keys split: if_splits)
qed

text \<open>The inner loop, over any list of members.\<close>

lemma expire_members:
  assumes "wf_tables (fst st)" "h' = fst (fold (expire_member now rid) sids st)"
  shows "wf_tables h' \<and> dkeys (routes h') = dkeys (routes (fst st)) \<and>
    (\<forall>r. table h' r = (if r = rid then filter (\<lambda>(s, e). s \<in> set sids \<longrightarrow> now < e) (table (fst st) rid)
        else table (fst st) r)) \<and>
    (\<forall>x. dget (sessions h') x =
      map_option (keep_routes (\<lambda>r. r = rid \<and> x \<in> set sids \<longrightarrow> \<not> expired_lease now (fst st) r x))
        (dget (sessions (fst st)) x))"
  using assms
proof (induction sids arbitrary: st)
  case (Cons sid sids)
  let ?st1 = "expire_member now rid sid st"
  have wf: "wf_dict (table (fst st) rid)" using Cons.prems(1) by (simp add: wf_tables_def)
  note IH = Cons.IH [OF expire_member_wf [OF Cons.prems(1)], of now rid sid]
  have ex: "expired_lease now (fst ?st1) rid x \<longleftrightarrow> x \<noteq> sid \<and> expired_lease now (fst st) rid x" for x
    using wf by (auto simp: expired_lease_def expire_member_table [OF wf] dget_filter split: option.splits if_splits)
  have "(\<lambda>r. (r = rid \<and> x = sid \<longrightarrow> \<not> expired_lease now (fst st) r x) \<and>
        (r = rid \<and> x \<in> set sids \<longrightarrow> \<not> expired_lease now (fst ?st1) r x)) =
      (\<lambda>r. r = rid \<and> x \<in> set (sid # sids) \<longrightarrow> \<not> expired_lease now (fst st) r x)" for x
    by (auto simp: fun_eq_iff ex)
  then show ?case
    using IH Cons.prems(2) by (auto simp: expire_member_table [OF wf] expire_member_keys expire_member_sessions
        option.map_comp comp_def case_prod_unfold intro!: filter_cong)
qed (simp add: option.map_ident)

text \<open>One route, then all of them. \<open>live now\<close> keeps the leases that have not run out.\<close>

abbreviation live :: "real \<Rightarrow> (pystr, real) dict \<Rightarrow> (pystr, real) dict" where
  "live now \<equiv> filter (\<lambda>(s, e). now < e)"

definition pruned :: "real \<Rightarrow> pystr list \<Rightarrow> hub \<Rightarrow> hub \<Rightarrow> bool" where
  "pruned now rids h h' \<longleftrightarrow> wf_tables h' \<and>
     (\<forall>r. r \<in> set (dkeys (routes h')) \<longleftrightarrow>
        r \<in> set (dkeys (routes h)) \<and> (r \<in> set rids \<longrightarrow> live now (table h r) \<noteq> [])) \<and>
     (\<forall>r. table h' r = (if r \<in> set rids then live now (table h r) else table h r)) \<and>
     (\<forall>x. dget (sessions h') x =
        map_option (keep_routes (\<lambda>r. r \<in> set rids \<longrightarrow> \<not> expired_lease now h r x)) (dget (sessions h) x))"

lemma table_dpop: "dget_default [] (dpop d k) r = (if r = k then [] else dget_default [] d r)"
  by (simp add: dget_default_def dget_dpop)

lemma table_notin: "rid \<notin> set (dkeys (routes h)) \<Longrightarrow> table h rid = []"
  by (simp only: dget_default_def dget_None_iff [symmetric] option.case)

lemma prune_route_pruned:
  assumes "wf_tables (fst st)"
  shows "pruned now [rid] (fst st) (fst (prune_route now rid st))"
proof -
  let ?sids = "dkeys (table (fst st) rid)"
  define h1 where "h1 = fst (fold (expire_member now rid) ?sids st)"
  note e = expire_members [OF assms h1_def]
  have "filter (\<lambda>(s, e). s \<in> set ?sids \<longrightarrow> now < e) (table (fst st) rid) = live now (table (fst st) rid)"
    by (intro filter_cong) force+
  then have t: "table h1 r = (if r = rid then live now (table (fst st) rid) else table (fst st) r)" for r
    using e by simp
  have ss: "dget (sessions h1) x =
      map_option (keep_routes (\<lambda>r. r \<in> set [rid] \<longrightarrow> \<not> expired_lease now (fst st) r x))
        (dget (sessions (fst st)) x)" for x
  proof -
    have "expired_lease now (fst st) rid x \<Longrightarrow> x \<in> set ?sids"
      by (auto simp: expired_lease_def dest: dget_Some_key)
    then have "(\<lambda>r. r = rid \<and> x \<in> set ?sids \<longrightarrow> \<not> expired_lease now (fst st) r x) =
        (\<lambda>r. r \<in> set [rid] \<longrightarrow> \<not> expired_lease now (fst st) r x)"
      by (auto simp: fun_eq_iff)
    with e show ?thesis by simp
  qed
  define h2 where "h2 = (if table h1 rid = [] then h1\<lparr>routes := dpop (routes h1) rid\<rparr> else h1)"
  have 2: "fst (prune_route now rid st) = h2"
    by (simp add: prune_route_def h1_def h2_def case_prod_unfold Let_def)
  have t2: "table h2 r = table h1 r" for r by (simp add: h2_def table_dpop)
  have s2: "sessions h2 = sessions h1" by (simp add: h2_def)
  have k2: "r \<in> set (dkeys (routes h2)) \<longleftrightarrow> r \<in> set (dkeys (routes h1)) \<and> (r = rid \<longrightarrow> table h1 rid \<noteq> [])" for r
    using dkeys_dpop [of rid "routes h1"] by (auto simp: h2_def)
  have w1: "wf_tables h1" and k1: "dkeys (routes h1) = dkeys (routes (fst st))" using e by auto
  have "wf_dict (routes h2)" using w1 by (auto simp: h2_def wf_tables_def)
  then have "wf_tables h2" using w1 by (simp add: wf_tables_def t2 s2)
  then show ?thesis unfolding 2 pruned_def t2 s2 k2 k1
    by (simp add: t ss)
qed

lemma pruned_trans:
  assumes "pruned now [r] h h1" "pruned now rs h1 h2" "r \<notin> set rs"
  shows "pruned now (r # rs) h h2"
proof -
  have "expired_lease now h1 q x \<longleftrightarrow> expired_lease now h q x" if "q \<noteq> r" for q x
    using assms(1) that by (simp add: expired_lease_def pruned_def)
  then have "(\<lambda>q. (q \<in> set [r] \<longrightarrow> \<not> expired_lease now h q x) \<and> (q \<in> set rs \<longrightarrow> \<not> expired_lease now h1 q x)) =
      (\<lambda>q. q \<in> set (r # rs) \<longrightarrow> \<not> expired_lease now h q x)" for x
    using assms(3) by (metis (no_types, opaque_lifting) empty_iff empty_set set_ConsD list.set_intros)
  then show ?thesis
    using assms by (auto simp: pruned_def option.map_comp comp_def)
qed

lemma pruned_wf: "pruned now rs h h' \<Longrightarrow> wf_tables h'"
  by (simp add: pruned_def)

lemma fold_prune_route:
  "distinct rids \<Longrightarrow> wf_tables (fst st) \<Longrightarrow> pruned now rids (fst st) (fst (fold (prune_route now) rids st))"
proof (induction rids arbitrary: st)
  case Nil
  then show ?case by (simp add: pruned_def option.map_ident)
next
  case (Cons r rs)
  have p: "pruned now [r] (fst st) (fst (prune_route now r st))"
    using Cons.prems by (intro prune_route_pruned) simp
  have "pruned now rs (fst (prune_route now r st)) (fst (fold (prune_route now) rs (prune_route now r st)))"
    using Cons.prems pruned_wf [OF p] by (intro Cons.IH) simp_all
  with p show ?case using pruned_trans [of now r] Cons.prems by simp
qed

lemma expire_member_frame [simp]:
  "seen (fst (expire_member now rid sid st)) = seen (fst st)"
  "outbound_queued_bytes (fst (expire_member now rid sid st)) = outbound_queued_bytes (fst st)"
  "rate_limiter (fst (expire_member now rid sid st)) = rate_limiter (fst st)"
  "global_message_limiter (fst (expire_member now rid sid st)) = global_message_limiter (fst st)"
  by (cases st; auto simp: expire_member_def Let_def split: option.splits)+

lemma expire_members_frame [simp]:
  "seen (fst (fold (expire_member now rid) sids st)) = seen (fst st)"
  "outbound_queued_bytes (fst (fold (expire_member now rid) sids st)) = outbound_queued_bytes (fst st)"
  "rate_limiter (fst (fold (expire_member now rid) sids st)) = rate_limiter (fst st)"
  "global_message_limiter (fst (fold (expire_member now rid) sids st)) = global_message_limiter (fst st)"
  by (induction sids arbitrary: st) auto

lemma prune_route_frame [simp]:
  "seen (fst (prune_route now rid st)) = seen (fst st)"
  "outbound_queued_bytes (fst (prune_route now rid st)) = outbound_queued_bytes (fst st)"
  "rate_limiter (fst (prune_route now rid st)) = rate_limiter (fst st)"
  "global_message_limiter (fst (prune_route now rid st)) = global_message_limiter (fst st)"
  by (simp_all add: prune_route_def case_prod_unfold Let_def)

lemma fold_prune_frame [simp]:
  "seen (fst (fold (prune_route now) rids st)) = seen (fst st)"
  "outbound_queued_bytes (fst (fold (prune_route now) rids st)) = outbound_queued_bytes (fst st)"
  "rate_limiter (fst (fold (prune_route now) rids st)) = rate_limiter (fst st)"
  "global_message_limiter (fst (fold (prune_route now) rids st)) = global_message_limiter (fst st)"
  by (induction rids arbitrary: st) auto

lemma prune_routes_frame [simp]:
  "seen (fst (prune_routes now h)) = seen h"
  "outbound_queued_bytes (fst (prune_routes now h)) = outbound_queued_bytes h"
  "rate_limiter (fst (prune_routes now h)) = rate_limiter h"
  "global_message_limiter (fst (prune_routes now h)) = global_message_limiter h"
  by (simp_all add: prune_routes_def)

lemma prune_routes_pruned:
  assumes "tables_ok h"
  shows "pruned now (dkeys (routes h)) h (fst (prune_routes now h))"
  using fold_prune_route [of "dkeys (routes h)" "(h, 0)" now] tables_ok_wf [OF assms] assms
  by (simp add: prune_routes_def tables_ok_def)

lemma lease_table: "lease h r x = dget (table h r) x"
  by (simp add: lease_def dget_default_def split: option.split)

lemma prune_routes_table:
  assumes "tables_ok h"
  shows "table (fst (prune_routes now h)) r = live now (table h r)"
  using prune_routes_pruned [OF assms, of now] table_notin [of r h] by (auto simp: pruned_def)

lemma prune_routes_sessions:
  assumes "tables_ok h"
  shows "dget (sessions (fst (prune_routes now h))) x =
    map_option (keep_routes (\<lambda>r. \<not> expired_lease now h r x)) (dget (sessions h) x)"
proof -
  have "expired_lease now h r x \<Longrightarrow> r \<in> set (dkeys (routes h))" for r
    using table_notin [of r h] by (cases "r \<in> set (dkeys (routes h))") (auto simp: expired_lease_def)
  then have "(\<lambda>r. r \<in> set (dkeys (routes h)) \<longrightarrow> \<not> expired_lease now h r x) = (\<lambda>r. \<not> expired_lease now h r x)"
    by auto
  then show ?thesis using prune_routes_pruned [OF assms, of now] by (simp add: pruned_def)
qed

lemma lease_prune:
  assumes "tables_ok h"
  shows "lease (fst (prune_routes now h)) r x =
    (case lease h r x of None \<Rightarrow> None | Some e \<Rightarrow> if now < e then Some e else None)"
  using tables_ok_wf [OF assms]
  by (simp add: lease_table prune_routes_table [OF assms] wf_tables_def dget_filter split: option.split)

lemma tables_ok_prune: "tables_ok h \<Longrightarrow> tables_ok (fst (prune_routes now h))"
proof -
  assume ok: "tables_ok h"
  let ?h' = "fst (prune_routes now h)"
  have p: "pruned now (dkeys (routes h)) h ?h'" by (rule prune_routes_pruned [OF ok])
  have "m \<noteq> []" if m: "dget (routes ?h') r = Some m" for r m
    using p dget_Some_key [OF m] prune_routes_table [OF ok, of now r] m
    by (auto simp: pruned_def dget_default_def split: if_splits)
  moreover have "wf_dict m" if m: "dget (routes ?h') r = Some m" for r m
  proof -
    have "wf_dict (table ?h' r)" using pruned_wf [OF p] unfolding wf_tables_def by blast
    with m show ?thesis by (simp add: dget_default_def)
  qed
  ultimately show ?thesis
    using p by (simp add: pruned_def wf_tables_def tables_ok_def)
qed

lemma in_session_prune:
  assumes "tables_ok h"
  shows "in_session (fst (prune_routes now h)) x r \<longleftrightarrow> in_session h x r \<and> \<not> expired_lease now h r x"
  by (auto simp: in_session_def prune_routes_sessions [OF assms])

lemma prune_routes_inv: "routes_inv h \<Longrightarrow> routes_inv (fst (prune_routes now h))"
proof -
  assume inv: "routes_inv h"
  then have ok: "tables_ok h" by (rule routes_invD)
  have "lease (fst (prune_routes now h)) r x \<noteq> None \<longleftrightarrow> in_session (fst (prune_routes now h)) x r" for r x
  proof -
    have "lease h r x \<noteq> None \<longleftrightarrow> in_session h x r" using inv unfolding routes_inv_def by blast
    then show ?thesis
      by (auto simp: lease_prune [OF ok] in_session_prune [OF ok] expired_lease_def lease_table [symmetric]
          split: option.splits if_splits)
  qed
  then show ?thesis using tables_ok_prune [OF ok] by (simp add: routes_inv_def)
qed

lemma subscribers_table:
  "route_subscribers now r ex h = map fst (filter (\<lambda>(sid, e). e > now \<and> Some sid \<noteq> ex) (table h r))"
  by (simp add: route_subscribers_def dget_default_def split: option.split)

lemma set_subscribers:
  assumes "tables_ok h"
  shows "sid \<in> set (route_subscribers now r ex h) \<longleftrightarrow> (\<exists>e. lease h r sid = Some e \<and> e > now) \<and> Some sid \<noteq> ex"
proof -
  have "wf_dict (table h r)" using tables_ok_wf [OF assms] by (simp add: wf_tables_def)
  then show ?thesis by (force simp: subscribers_table lease_table dget_in_set [symmetric])
qed

lemma subscribers_prune:
  assumes "tables_ok h" "now \<le> t"
  shows "route_subscribers t r ex (fst (prune_routes now h)) = route_subscribers t r ex h"
proof -
  have "filter (\<lambda>(sid, e). e > t \<and> Some sid \<noteq> ex) (live now (table h r)) =
      filter (\<lambda>(sid, e). e > t \<and> Some sid \<noteq> ex) (table h r)"
    using assms(2) by (auto intro!: filter_cong)
  then show ?thesis by (simp add: subscribers_table prune_routes_table [OF assms(1)])
qed

end
