(* ===== verification/Hub_Queues.thy ===== *)
theory Hub_Queues
  imports Hub_Routes
begin

text \<open>
  The bounded outbound queues of the hub. Every queued frame is accounted for: the bytes a session
  reports are exactly those of its queue plus the frame its writer is sending, they never exceed
  \<^verbatim>\<open>outbound_queue_bytes\<close>, and the hub's total is the sum over the sessions.
\<close>

section \<open>Sums over a dict\<close>

definition dict_sum :: "('v \<Rightarrow> int) \<Rightarrow> ('k, 'v) dict \<Rightarrow> int" where
  "dict_sum f d = sum_list (map (\<lambda>(k, v). f v) d)"

lemma dict_sum_Nil [simp]: "dict_sum f [] = 0"
  by (simp add: dict_sum_def)

lemma dict_sum_dset:
  "wf_dict d \<Longrightarrow> dict_sum f (dset d k v) =
     dict_sum f d + f v - (case dget d k of None \<Rightarrow> 0 | Some w \<Rightarrow> f w)"
  by (induction d) (auto simp: dict_sum_def split: option.splits)

lemma dict_sum_dpop:
  "wf_dict d \<Longrightarrow> dict_sum f (dpop d k) =
     dict_sum f d - (case dget d k of None \<Rightarrow> 0 | Some w \<Rightarrow> f w)"
proof (induction d)
  case (Cons p d)
  obtain a b where p: "p = (a, b)" by (cases p)
  then have "a = k \<Longrightarrow> dpop d k = d" using Cons.prems by (auto intro: dpop_notin)
  with Cons p show ?case by (auto simp: dict_sum_def split: option.splits)
qed simp

lemma dict_sum_nonneg: "(\<And>k v. dget d k = Some v \<Longrightarrow> 0 \<le> f v) \<Longrightarrow> wf_dict d \<Longrightarrow> 0 \<le> dict_sum f d"
  by (auto simp: dict_sum_def dget_in_set [symmetric] intro!: sum_list_nonneg)

lemma dict_sum_le:
  "(\<And>k v. dget d k = Some v \<Longrightarrow> f v \<le> b) \<Longrightarrow> wf_dict d \<Longrightarrow> dict_sum f d \<le> int (length d) * b"
proof (induction d)
  case (Cons p d)
  obtain k v where p: "p = (k, v)" by (cases p)
  have "dget (p # d) k' = Some w" if "dget d k' = Some w" for k' w
    using Cons.prems(2) p that by (auto dest: dget_Some_key)
  then have "dict_sum f d \<le> int (length d) * b" using Cons by auto
  moreover have "f v \<le> b" using Cons.prems(1) [of k v] p by simp
  ultimately show ?case by (simp add: p dict_sum_def algebra_simps)
qed simp

lemma dict_sum_cong:
  assumes "wf_dict d" "wf_dict d'" "\<And>k. map_option f (dget d' k) = map_option f (dget d k)"
  shows "dict_sum f d' = dict_sum f d"
  using assms
proof (induction d arbitrary: d')
  case Nil
  then have "d' = []"
    by (cases d') (auto, metis option.simps(8) option.simps(9) option.distinct(1))
  then show ?case by simp
next
  case (Cons p d)
  obtain k v where p: "p = (k, v)" by (cases p)
  have k: "map_option f (dget d' k) = Some (f v)" using Cons.prems(3) [of k] p by simp
  have "dget d k = None" using Cons.prems(1) p by (simp add: dget_None_iff)
  then have "dict_sum f (dpop d' k) = dict_sum f d"
    using Cons.prems p by (intro Cons.IH) (auto simp: dget_dpop split: if_splits)
  then show ?case
    using k dict_sum_dpop [OF Cons.prems(2), of f k] by (auto simp: p dict_sum_def)
qed

section \<open>The accounting invariant\<close>

definition in_flight :: "session \<Rightarrow> nat" where
  "in_flight s = (case writer_task s of Writing (Some (data, n)) \<Rightarrow> n | _ \<Rightarrow> 0)"

definition queue_ok :: "config \<Rightarrow> session \<Rightarrow> bool" where
  "queue_ok c s \<longleftrightarrow> outbound_bytes s = int (sum_list (map snd (outbound_queue s)) + in_flight s) \<and>
     outbound_bytes s \<le> outbound_queue_bytes c \<and> int (length (outbound_queue s)) \<le> outbound_queue_frames c"

definition queues_inv :: "config \<Rightarrow> hub \<Rightarrow> bool" where
  "queues_inv c h \<longleftrightarrow> wf_dict (sessions h) \<and>
     (\<forall>sid s. dget (sessions h) sid = Some s \<longrightarrow> queue_ok c s) \<and>
     outbound_queued_bytes h = dict_sum outbound_bytes (sessions h)"

lemma queues_inv_cong:
  "sessions h' = sessions h \<Longrightarrow> outbound_queued_bytes h' = outbound_queued_bytes h \<Longrightarrow>
     queues_inv c h \<Longrightarrow> queues_inv c h'"
  by (simp add: queues_inv_def)

lemma queue_ok_nonneg: "queue_ok c s \<Longrightarrow> 0 \<le> outbound_bytes s"
  by (simp add: queue_ok_def)

lemma queue_ok_in_flight: "queue_ok c s \<Longrightarrow> int (in_flight s) \<le> outbound_bytes s"
  by (simp add: queue_ok_def)

lemma queue_ok_le: "queue_ok c s \<Longrightarrow> outbound_bytes s \<le> outbound_queue_bytes c"
  by (simp add: queue_ok_def)

lemma queues_invD:
  "queues_inv c h \<Longrightarrow> dget (sessions h) sid = Some s \<Longrightarrow> queue_ok c s"
  "queues_inv c h \<Longrightarrow> wf_dict (sessions h)"
  "queues_inv c h \<Longrightarrow> outbound_queued_bytes h = dict_sum outbound_bytes (sessions h)"
  unfolding queues_inv_def by blast+

lemma queues_inv_total:
  assumes "queues_inv c h"
  shows "0 \<le> outbound_queued_bytes h"
    "outbound_queued_bytes h \<le> session_count h * outbound_queue_bytes c"
  unfolding queues_invD(3) [OF assms] session_count_def
  by (rule dict_sum_nonneg, erule queue_ok_nonneg [OF queues_invD(1) [OF assms]], rule queues_invD [OF assms])
    (rule dict_sum_le, erule queue_ok_le [OF queues_invD(1) [OF assms]], rule queues_invD [OF assms])

lemma queues_inv_member:
  assumes "queues_inv c h" "dget (sessions h) sid = Some s"
  shows "outbound_bytes s \<le> outbound_queued_bytes h"
proof -
  have wf: "wf_dict (sessions h)" using assms by (simp add: queues_inv_def)
  have "0 \<le> dict_sum outbound_bytes (dpop (sessions h) sid)"
    using queues_invD(1,2) [OF assms(1)] queue_ok_nonneg
    by (intro dict_sum_nonneg) (auto simp: dget_dpop split: if_splits)
  then show ?thesis using assms by (simp add: dict_sum_dpop [OF wf] queues_inv_def)
qed

text \<open>A session update that keeps the queue keeps the invariant.\<close>

lemma queues_inv_set_session:
  assumes "queues_inv c h" "dget (sessions h) sid = Some s" "queue_ok c s'"
    "outbound_queued_bytes h' = outbound_queued_bytes h + outbound_bytes s' - outbound_bytes s"
    "sessions h' = dset (sessions h) sid s'"
  shows "queues_inv c h'"
  using assms by (auto simp: queues_inv_def dict_sum_dset dget_dset split: if_splits)

definition same_queue :: "session \<Rightarrow> session \<Rightarrow> bool" where
  "same_queue s s' \<longleftrightarrow> outbound_bytes s' = outbound_bytes s \<and> outbound_queue s' = outbound_queue s \<and>
     writer_task s' = writer_task s"

lemma queue_ok_same: "same_queue s s' \<Longrightarrow> queue_ok c s' = queue_ok c s"
  by (simp add: same_queue_def queue_ok_def in_flight_def)

lemma queues_inv_same:
  assumes "queues_inv c h" "dget (sessions h) sid = Some s" "same_queue s s'"
    "sessions h' = dset (sessions h) sid s'" "outbound_queued_bytes h' = outbound_queued_bytes h"
  shows "queues_inv c h'"
proof (rule queues_inv_set_session [OF assms(1,2) _ _ assms(4)])
  show "queue_ok c s'"
    using assms(1-3) queue_ok_same [OF assms(3)] by (simp add: queues_inv_def)
qed (use assms(3,5) in \<open>simp add: same_queue_def\<close>)

section \<open>Every operation keeps it\<close>

lemma new_hub_queues: "queues_inv c (new_hub c now)"
  by (simp add: queues_inv_def new_hub_def)

lemma attach_queues:
  assumes "queues_inv c h" "attach_route c now sid rid ttl mx h = Inr h'"
  shows "queues_inv c h'"
proof -
  obtain s where s: "dget (sessions h) sid = Some s"
    "sessions h' = dset (sessions h) sid (s\<lparr>sess_routes := List.insert rid (sess_routes s)\<rparr>)"
    "outbound_queued_bytes h' = outbound_queued_bytes h"
    using assms(2) by (rule attach_route_cases)
  show ?thesis by (rule queues_inv_same [OF assms(1) s(1) _ s(2,3)]) (simp add: same_queue_def)
qed

lemma heartbeat_queues: "queues_inv c h \<Longrightarrow> queues_inv c (snd (heartbeat_route c now sid rid ttl h))"
  by (simp add: heartbeat_route_def Let_def queues_inv_def split: option.split)

lemma detach_queues: "queues_inv c h \<Longrightarrow> queues_inv c (detach_route sid rid h)"
proof (cases "dget (sessions h) sid")
  case None
  assume "queues_inv c h"
  with None show ?thesis
    by (simp add: detach_route_def Let_def queues_inv_def split: option.split)
next
  case (Some s)
  assume "queues_inv c h"
  then show ?thesis using Some
    by (rule queues_inv_same [where s' = "s\<lparr>sess_routes := removeAll rid (sess_routes s)\<rparr>"])
      (use Some in \<open>auto simp: same_queue_def detach_route_def Let_def split: option.splits\<close>)
qed

lemma remove_queues: "queues_inv c h \<Longrightarrow> queues_inv c (remove_session sid h)"
proof (cases "dget (sessions h) sid")
  case (Some s)
  assume inv: "queues_inv c h"
  then have "outbound_bytes s \<le> outbound_queued_bytes h" using Some by (rule queues_inv_member)
  with inv Some show ?thesis
    by (auto simp: queues_inv_def remove_session_frame [OF Some] dict_sum_dpop dget_dpop split: if_splits)
qed (simp add: remove_session_None)

lemma remove_all_queues: "queues_inv c h \<Longrightarrow> queues_inv c (fold remove_session sids h)"
  by (induction sids arbitrary: h) (auto simp: remove_queues)

lemma create_queues:
  assumes "queues_inv c h" "dget (sessions h) sid = None" "0 \<le> outbound_queue_bytes c" "0 \<le> outbound_queue_frames c"
  shows "queues_inv c (create_session now w sid h)"
proof -
  have "queue_ok c (new_session w now)" using assms by (simp add: queue_ok_def new_session_def in_flight_def)
  moreover have "outbound_bytes (new_session w now) = 0" by (simp add: new_session_def)
  ultimately show ?thesis
    using assms by (auto simp: create_session_def queues_inv_def dict_sum_dset dget_dset split: if_splits)
qed

lemma touch_queues: "queues_inv c h \<Longrightarrow> queues_inv c (touch_heartbeat now sid h)"
proof (cases "dget (sessions h) sid")
  case (Some s)
  assume "queues_inv c h"
  then show ?thesis using Some
    by (rule queues_inv_same [where s' = "s\<lparr>last_heartbeat := now\<rparr>"])
      (use Some in \<open>auto simp: same_queue_def touch_heartbeat_def\<close>)
qed (simp add: touch_heartbeat_def)

lemma identity_queues:
  assumes "queues_inv c h" "set_v2_identity sha sid ik ek h = Inr h'"
  shows "queues_inv c h'"
proof -
  obtain s where s: "dget (sessions h) sid = Some s"
    using assms(2) by (auto simp: set_v2_identity_def split: option.splits)
  with assms(1) show ?thesis
    by (rule queues_inv_same [where s' = "the (dget (sessions h') sid)"])
      (use assms(2) s in \<open>auto simp: set_v2_identity_def same_queue_def dget_dset split: option.splits\<close>)
qed

lemma prune_routes_queues:
  assumes "queues_inv c h" "tables_ok h"
  shows "queues_inv c (fst (prune_routes now h))"
proof -
  have wf: "wf_dict (sessions (fst (prune_routes now h)))"
    using tables_ok_prune [OF assms(2)] by (simp add: tables_ok_def)
  have keep: "queue_ok c (keep_routes P s) = queue_ok c s" for P s
    by (rule queue_ok_same) (simp add: same_queue_def keep_routes_def)
  have "dict_sum outbound_bytes (sessions (fst (prune_routes now h))) = dict_sum outbound_bytes (sessions h)"
    using assms(1) wf
    by (intro dict_sum_cong) (auto simp: queues_inv_def prune_routes_sessions [OF assms(2)] option.map_comp
        comp_def keep_routes_def)
  then show ?thesis
    using assms(1) wf by (auto simp: queues_inv_def prune_routes_sessions [OF assms(2)] keep)
qed

lemma prune_stale_queues: "queues_inv c h \<Longrightarrow> queues_inv c (fst (snd (prune_stale_sessions c now h)))"
  by (simp add: prune_stale_sessions_def Let_def remove_all_queues)

lemma prune_dedupe_frame [simp]:
  "sessions (fst (prune_dedupe now h)) = sessions h" "routes (fst (prune_dedupe now h)) = routes h"
  "outbound_queued_bytes (fst (prune_dedupe now h)) = outbound_queued_bytes h"
  "rate_limiter (fst (prune_dedupe now h)) = rate_limiter h"
  "global_message_limiter (fst (prune_dedupe now h)) = global_message_limiter h"
  by (simp_all add: prune_dedupe_def Let_def)

lemma mark_seen_frame [simp]:
  "sessions (snd (check_and_mark_seen c now k ttl h)) = sessions h"
  "routes (snd (check_and_mark_seen c now k ttl h)) = routes h"
  "outbound_queued_bytes (snd (check_and_mark_seen c now k ttl h)) = outbound_queued_bytes h"
  "rate_limiter (snd (check_and_mark_seen c now k ttl h)) = rate_limiter h"
  "global_message_limiter (snd (check_and_mark_seen c now k ttl h)) = global_message_limiter h"
  by (simp_all add: check_and_mark_seen_def Let_def)

subsection \<open>Sending and the writer\<close>

lemma send_session_cases:
  assumes "send_session frepr c sid data h = Inr (ok, h', effs)"
  shows "dget (sessions h) sid = None \<and> \<not> ok \<and> h' = h \<and> effs = [] \<or>
    (\<exists>s n. dget (sessions h) sid = Some s \<and> utf8_len (dumps frepr data) = Some n \<and>
       (queue_full c s \<or> outbound_bytes s + int n > outbound_queue_bytes c) \<and> \<not> ok \<and>
       h' = gauge_queued (with_metrics (increment ''outbound_queue_rejections'') h) \<and>
       effs = [CloseSocket (ws s) 1013 ''slow client'']) \<or>
    (\<exists>s n wt. dget (sessions h) sid = Some s \<and> utf8_len (dumps frepr data) = Some n \<and> ok \<and> effs = [] \<and>
       \<not> queue_full c s \<and> outbound_bytes s + int n \<le> outbound_queue_bytes c \<and>
       (wt = writer_task s \<or> wt = Writing None \<and> in_flight s = 0) \<and>
       sessions h' = dset (sessions h) sid (s\<lparr>outbound_queue := outbound_queue s @ [(data, n)],
          outbound_bytes := outbound_bytes s + int n, writer_task := wt\<rparr>) \<and>
       routes h' = routes h \<and> seen h' = seen h \<and> rate_limiter h' = rate_limiter h \<and>
       global_message_limiter h' = global_message_limiter h \<and>
       outbound_queued_bytes h' = outbound_queued_bytes h + int n)"
  using assms
  by (auto simp: send_session_def Let_def in_flight_def split: option.splits if_splits writer.splits)

lemma send_queues:
  assumes "queues_inv c h" "send_session frepr c sid data h = Inr (ok, h', effs)" "0 < outbound_queue_frames c"
  shows "queues_inv c h'"
proof -
  consider "sessions h' = sessions h" "outbound_queued_bytes h' = outbound_queued_bytes h"
    | s n wt where "dget (sessions h) sid = Some s" "\<not> queue_full c s"
      "outbound_bytes s + int n \<le> outbound_queue_bytes c" "wt = writer_task s \<or> wt = Writing None \<and> in_flight s = 0"
      "sessions h' = dset (sessions h) sid (s\<lparr>outbound_queue := outbound_queue s @ [(data, n)],
          outbound_bytes := outbound_bytes s + int n, writer_task := wt\<rparr>)"
      "outbound_queued_bytes h' = outbound_queued_bytes h + int n"
    using send_session_cases [OF assms(2)] by fastforce
  then show ?thesis
  proof cases
    case 1
    then show ?thesis using assms(1) by (rule queues_inv_cong)
  next
    case (2 s n wt)
    have "queue_ok c s" by (rule queues_invD(1) [OF assms(1) 2(1)])
    with 2 assms(3) show ?thesis
      by (intro queues_inv_set_session [OF assms(1) 2(1) _ _ 2(5)])
        (auto simp: queue_ok_def in_flight_def queue_full_def)
  qed
qed

lemma writer_get_queues: "queues_inv c h \<Longrightarrow> queues_inv c (fst (writer_get sid h))"
proof (cases "\<exists>s f q. dget (sessions h) sid = Some s \<and> writer_task s = Writing None \<and> outbound_queue s = f # q")
  case True
  assume inv: "queues_inv c h"
  from True obtain s f q where s: "dget (sessions h) sid = Some s" "writer_task s = Writing None"
    "outbound_queue s = f # q" by blast
  then have "queue_ok c s" using inv by (simp add: queues_inv_def)
  with s show ?thesis
    by (intro queues_inv_set_session [OF inv s(1)])
      (auto simp: writer_get_def queue_ok_def in_flight_def split: prod.splits)
next
  case False
  assume "queues_inv c h"
  with False show ?thesis
    by (auto simp: writer_get_def split: option.splits writer.splits list.splits)
qed

lemma writer_finish_queues: "queues_inv c h \<Longrightarrow> queues_inv c (writer_finish sent sid h)"
proof (cases "\<exists>s d n. dget (sessions h) sid = Some s \<and> writer_task s = Writing (Some (d, n))")
  case True
  assume inv: "queues_inv c h"
  from True obtain s d n where s: "dget (sessions h) sid = Some s" "writer_task s = Writing (Some (d, n))" by blast
  then have "queue_ok c s" using inv by (simp add: queues_inv_def)
  moreover have "outbound_bytes s \<le> outbound_queued_bytes h" using inv s(1) by (rule queues_inv_member)
  ultimately show ?thesis
    using s by (intro queues_inv_set_session [OF inv s(1), where s' = "s\<lparr>outbound_bytes := outbound_bytes s - int n,
          writer_task := if sent then Writing None else WriterDone\<rparr>"])
      (auto simp: writer_finish_def queue_ok_def in_flight_def Let_def)
next
  case False
  assume "queues_inv c h"
  with False show ?thesis
    by (auto simp: writer_finish_def split: option.splits writer.splits prod.splits)
qed

end
