(* ===== verification/Hub_Dedupe.thy ===== *)
theory Hub_Dedupe
  imports Hub_Queues
begin

text \<open>
  The replay cache of the hub (\<^verbatim>\<open>_seen\<close>, \<^verbatim>\<open>check_and_mark_seen\<close>,
  \<^verbatim>\<open>prune_dedupe\<close>). The interface \<open>replay_cache\<close> states what the message handlers rely
  on; its client lemma says that a key is accepted once per window whatever happens in between.
  The last section collects the invariant of the whole hub.
\<close>

section \<open>What the operations do\<close>

definition seen_inv :: "config \<Rightarrow> hub \<Rightarrow> bool" where
  "seen_inv c h \<longleftrightarrow> wf_dict (seen h) \<and> int (length (seen h)) \<le> max_dedupe_entries c"

abbreviation live_seen :: "real \<Rightarrow> hub \<Rightarrow> (pystr, real) dict" where
  "live_seen now h \<equiv> filter (\<lambda>(k, e). now < e) (seen h)"

lemma fold_dpop: "fold (\<lambda>k d. dpop d k) ks d = filter (\<lambda>(k, v). k \<notin> set ks) d"
proof (induction ks arbitrary: d)
  case (Cons k ks)
  have "dpop d k = filter (\<lambda>(k', v). k' \<noteq> k) d" by (induction d) auto
  then have "fold (\<lambda>k d. dpop d k) (k # ks) d = filter (\<lambda>(k', v). k' \<notin> set ks) (filter (\<lambda>(k', v). k' \<noteq> k) d)"
    by (simp add: Cons.IH)
  also have "\<dots> = filter (\<lambda>(k', v). k' \<notin> set (k # ks)) d"
    by (auto intro!: filter_cong)
  finally show ?case .
qed (simp add: case_prod_unfold)

lemma seen_prune_dedupe:
  assumes "wf_dict (seen h)"
  shows "seen (fst (prune_dedupe now h)) = live_seen now h"
proof -
  have "k \<notin> fst ` set (filter (\<lambda>(k, e). e \<le> now) (seen h)) \<longleftrightarrow> now < e" if "(k, e) \<in> set (seen h)" for k e
  proof (cases "now < e")
    case True
    then show ?thesis using eq_key_imp_eq_value [OF assms that] by (auto simp: image_iff)
  next
    case False
    with that have "(k, e) \<in> set (filter (\<lambda>(k, e). e \<le> now) (seen h))" by simp
    with False show ?thesis using image_eqI [of k fst "(k, e)"] by simp
  qed
  then show ?thesis
    unfolding prune_dedupe_def Let_def by (auto simp: fold_dpop intro!: filter_cong)
qed

text \<open>The exact condition for a key to be accepted.\<close>

lemma mark_accepted_iff:
  assumes "wf_dict (seen h)"
  shows "fst (check_and_mark_seen c now k ttl h) \<longleftrightarrow>
    (case dget (seen h) k of
       Some e \<Rightarrow> e \<le> now
     | None \<Rightarrow> int (length (live_seen now h)) < max_dedupe_entries c)"
proof -
  obtain n where n: "length (live_seen now h) = n" "n \<le> length (seen h)" by simp
  then show ?thesis
    by (auto simp: check_and_mark_seen_def Let_def seen_prune_dedupe [OF assms] split: option.splits)
qed

lemma mark_seen_table:
  assumes "wf_dict (seen h)" "now < e"
  shows "dget (seen (snd (check_and_mark_seen c now k ttl h))) k' = Some e \<longleftrightarrow>
    (if k' = k \<and> fst (check_and_mark_seen c now k ttl h) then e = now + ttl else dget (seen h) k' = Some e)"
proof -
  have *: "dget (live_seen now h) k' = Some e \<longleftrightarrow> dget (seen h) k' = Some e"
    using assms by (simp add: dget_filter split: option.split)
  show ?thesis
    using assms(2) by (auto simp: check_and_mark_seen_def Let_def seen_prune_dedupe [OF assms(1)] * dget_dset
        split: option.splits)
qed

lemma mark_seen_inv:
  assumes "seen_inv c h"
  shows "seen_inv c (snd (check_and_mark_seen c now k ttl h))"
proof -
  have wf: "wf_dict (seen h)" using assms by (simp add: seen_inv_def)
  obtain n where n: "length (live_seen now h) = n" "n \<le> length (seen h)" by simp
  have "k \<in> fst ` set (seen h)" if "dget (seen h) k = Some e" for e
    using dget_Some_key [OF that] by simp
  with n show ?thesis
    using assms by (auto simp: seen_inv_def check_and_mark_seen_def Let_def seen_prune_dedupe [OF wf]
        length_dset split: option.splits)
qed

lemma prune_dedupe_inv:
  assumes "seen_inv c h"
  shows "seen_inv c (fst (prune_dedupe now h))"
proof -
  obtain n where "length (live_seen now h) = n" "n \<le> length (seen h)" by simp
  moreover have "wf_dict (seen h)" using assms by (simp add: seen_inv_def)
  ultimately show ?thesis using assms by (auto simp: seen_inv_def seen_prune_dedupe)
qed

section \<open>The interface of a replay cache\<close>

datatype 'k cache_op = Mark real 'k real | Prune real

fun op_time :: "'k cache_op \<Rightarrow> real" where
  "op_time (Mark now k ttl) = now"
| "op_time (Prune now) = now"

locale replay_cache =
  fixes mark :: "real \<Rightarrow> 'k \<Rightarrow> real \<Rightarrow> 's \<Rightarrow> bool \<times> 's"
    and prune :: "real \<Rightarrow> 's \<Rightarrow> 's"
    and expiry :: "'s \<Rightarrow> 'k \<Rightarrow> real option"
    and ok :: "'s \<Rightarrow> bool"
  assumes ok_mark: "ok s \<Longrightarrow> ok (snd (mark now k ttl s))"
    and ok_prune: "ok s \<Longrightarrow> ok (prune now s)"
    and blocked: "ok s \<Longrightarrow> expiry s k = Some e \<Longrightarrow> now < e \<Longrightarrow> \<not> fst (mark now k ttl s)"
    and recorded: "ok s \<Longrightarrow> 0 < ttl \<Longrightarrow> fst (mark now k ttl s) \<Longrightarrow>
      expiry (snd (mark now k ttl s)) k = Some (now + ttl)"
    and mark_keeps: "ok s \<Longrightarrow> expiry s k' = Some e \<Longrightarrow> now < e \<Longrightarrow>
      expiry (snd (mark now k ttl s)) k' = Some e"
    and prune_keeps: "ok s \<Longrightarrow> expiry s k' = Some e \<Longrightarrow> now < e \<Longrightarrow> expiry (prune now s) k' = Some e"
begin

fun step :: "'k cache_op \<Rightarrow> 's \<Rightarrow> 's" where
  "step (Mark now k ttl) s = snd (mark now k ttl s)"
| "step (Prune now) s = prune now s"

lemma run_keeps:
  "ok s \<Longrightarrow> expiry s k = Some e \<Longrightarrow> \<forall>p \<in> set ops. op_time p < e \<Longrightarrow>
     ok (fold step ops s) \<and> expiry (fold step ops s) k = Some e"
proof (induction ops arbitrary: s)
  case (Cons p ops)
  have "ok (step p s) \<and> expiry (step p s) k = Some e"
    using Cons.prems by (cases p) (auto simp: ok_mark ok_prune mark_keeps prune_keeps)
  with Cons show ?case by simp
qed simp

lemma no_replay:
  assumes "ok s" "0 < ttl" "fst (mark t k ttl s)" "\<forall>p \<in> set ops. op_time p < t + ttl" "t' < t + ttl"
  shows "\<not> fst (mark t' k ttl' (fold step ops (snd (mark t k ttl s))))"
  using run_keeps [OF ok_mark [OF assms(1)] recorded [OF assms(1,2,3)] assms(4)] assms(5) blocked by blast

end

interpretation dedupe: replay_cache "check_and_mark_seen c" "\<lambda>now h. fst (prune_dedupe now h)"
  "\<lambda>h. dget (seen h)" "seen_inv c" for c
proof (unfold_locales, goal_cases)
  case (3 h k e now ttl)
  then show ?case by (simp add: mark_accepted_iff seen_inv_def)
next
  case (4 h ttl now k)
  then show ?case by (subst mark_seen_table) (simp_all add: seen_inv_def)
next
  case (5 h k' e now k ttl)
  then have "k' = k \<Longrightarrow> \<not> fst (check_and_mark_seen c now k ttl h)"
    by (simp add: mark_accepted_iff seen_inv_def)
  with 5 show ?case by (subst mark_seen_table) (auto simp: seen_inv_def)
next
  case (6 h k' e now)
  then show ?case by (simp add: seen_prune_dedupe seen_inv_def dget_filter)
qed (rule mark_seen_inv prune_dedupe_inv, assumption)+

section \<open>The invariant of the hub\<close>

definition hub_inv :: "config \<Rightarrow> hub \<Rightarrow> bool" where
  "hub_inv c h \<longleftrightarrow> routes_inv h \<and> queues_inv c h \<and> seen_inv c h \<and> registry_ok (rate_limiter h) \<and>
     bucket_ok (global_message_limiter h)"

lemma hub_invD:
  "hub_inv c h \<Longrightarrow> routes_inv h" "hub_inv c h \<Longrightarrow> queues_inv c h" "hub_inv c h \<Longrightarrow> seen_inv c h"
  "hub_inv c h \<Longrightarrow> registry_ok (rate_limiter h)" "hub_inv c h \<Longrightarrow> bucket_ok (global_message_limiter h)"
  "hub_inv c h \<Longrightarrow> tables_ok h" "hub_inv c h \<Longrightarrow> wf_dict (sessions h)"
  by (auto simp: hub_inv_def routes_inv_def tables_ok_def)

text \<open>The invariant does not look at the metrics.\<close>

lemma hub_inv_metrics [simp]: "hub_inv c (with_metrics f h) = hub_inv c h"
  by (simp add: hub_inv_def routes_inv_def tables_ok_def lease_def in_session_def queues_inv_def seen_inv_def)

lemma hub_inv_gauges [simp]:
  "hub_inv c (gauge_sessions h) = hub_inv c h" "hub_inv c (gauge_routes h) = hub_inv c h"
  "hub_inv c (gauge_queued h) = hub_inv c h"
  by (simp_all add: gauge_sessions_def gauge_routes_def gauge_queued_def)

text \<open>An update of one session that leaves its routes and its queue alone.\<close>

lemma routes_inv_set_session:
  assumes "routes_inv h" "dget (sessions h) sid = Some s" "sess_routes s' = sess_routes s"
    "sessions h' = dset (sessions h) sid s'" "routes h' = routes h"
  shows "routes_inv h'"
proof -
  have "in_session h' x r = in_session h x r" for x r
    using assms(2-4) by (auto simp: in_session_def dget_dset)
  moreover have "tables_ok h'"
    using assms by (auto simp: routes_inv_def tables_ok_def dget_dset split: if_splits)
  ultimately show ?thesis using assms(1,5) by (simp add: routes_inv_def lease_cong [of h' h])
qed

lemma hub_inv_set_session:
  assumes "hub_inv c h" "dget (sessions h) sid = Some s" "sess_routes s' = sess_routes s" "same_queue s s'"
  shows "hub_inv c (set_session sid s' h)"
  using assms routes_inv_set_session [of h sid s s' "set_session sid s' h"]
    queues_inv_same [of c h sid s s' "set_session sid s' h"]
  by (simp add: hub_inv_def seen_inv_def)

lemma hub_inv_new:
  assumes "post_init c = Inr ()"
  shows "hub_inv c (new_hub c now)"
proof -
  have "bucket_ok (global_message_limiter (new_hub c now))"
    using server_config.global_bucket_ok [of c now] assms by (simp add: server_config_def new_hub_def)
  moreover have "1024 \<le> max_dedupe_entries c"
    using server_config.limits_positive(7) [of c] assms by (simp add: server_config_def)
  ultimately show ?thesis
    by (simp add: hub_inv_def new_hub_routes_inv new_hub_queues seen_inv_def)
      (simp add: new_hub_def)
qed

lemma hub_inv_create:
  assumes "hub_inv c h" "post_init c = Inr ()" "dget (sessions h) sid = None"
  shows "hub_inv c (create_session now w sid h)"
proof -
  have "1 \<le> outbound_queue_frames c" "0 \<le> outbound_queue_bytes c"
    using server_config.frames_positive [of c] server_config.frame_fits_queue [of c]
      server_config.frame_positive [of c] assms(2)
    by (simp_all add: server_config_def)
  then have "queues_inv c (create_session now w sid h)"
    using assms by (intro create_queues) (auto simp: hub_inv_def)
  moreover have "in_session (create_session now w sid h) x r = in_session h x r" for x r
    using assms(3) by (auto simp: in_session_def create_session_def dget_dset new_session_def)
  then have "routes_inv (create_session now w sid h)"
    using assms(1) by (auto simp: hub_inv_def routes_inv_def tables_ok_def lease_def create_session_def
        dget_dset new_session_def)
  ultimately show ?thesis
    using assms(1) by (simp add: hub_inv_def seen_inv_def create_session_def)
qed

lemma hub_inv_remove: "hub_inv c h \<Longrightarrow> hub_inv c (remove_session sid h)"
proof (cases "dget (sessions h) sid")
  case (Some s)
  assume "hub_inv c h"
  then show ?thesis
    using remove_routes_inv remove_queues registry_ok_drop
    by (simp add: hub_inv_def seen_inv_def remove_session_frame [OF Some])
qed (simp add: remove_session_None)

lemma hub_inv_remove_all: "hub_inv c h \<Longrightarrow> hub_inv c (fold remove_session sids h)"
  by (induction sids arbitrary: h) (auto simp: hub_inv_remove)

lemma hub_inv_touch:
  assumes "hub_inv c h"
  shows "hub_inv c (touch_heartbeat now sid h)"
  using assms hub_inv_set_session [OF assms, of sid]
  by (auto simp: touch_heartbeat_def same_queue_def split: option.splits)

lemma hub_inv_attach: "hub_inv c h \<Longrightarrow> attach_route c now sid rid ttl mx h = Inr h' \<Longrightarrow> hub_inv c h'"
  using attach_routes_inv attach_queues
  by (auto simp: hub_inv_def seen_inv_def elim: attach_route_cases)

lemma hub_inv_heartbeat:
  assumes "hub_inv c h"
  shows "hub_inv c (snd (heartbeat_route c now sid rid ttl h))"
proof (cases "\<exists>m. dget (routes h) rid = Some m \<and> sid \<in> set (dkeys m)")
  case True
  then obtain m where m: "dget (routes h) rid = Some m" "sid \<in> set (dkeys m)" by blast
  let ?e = "now + (case ttl of None \<Rightarrow> route_lease_seconds c | Some x \<Rightarrow> x)"
  let ?h' = "h\<lparr>routes := dset (routes h) rid (dset m sid ?e)\<rparr>"
  have h': "snd (heartbeat_route c now sid rid ttl h) = ?h'"
    using m by (simp add: heartbeat_route_def Let_def)
  have "lease ?h' r x \<noteq> None \<longleftrightarrow> lease h r x \<noteq> None" for r x
    using m in_dkeys_dget [OF m(2)] by (auto simp: lease_def dget_dset)
  moreover have "tables_ok ?h'"
    using hub_invD(6) [OF assms] m by (auto simp: tables_ok_def dget_dset split: if_splits)
  ultimately have "routes_inv ?h'"
    using hub_invD(1) [OF assms] by (simp add: routes_inv_def in_session_def)
  then show ?thesis
    using assms heartbeat_queues [of c h] unfolding h' by (simp add: hub_inv_def seen_inv_def queues_inv_def)
qed (use assms in \<open>auto simp: heartbeat_route_def split: option.splits\<close>)

lemma hub_inv_detach: "hub_inv c h \<Longrightarrow> hub_inv c (detach_route sid rid h)"
  using detach_routes_inv detach_queues by (simp add: hub_inv_def seen_inv_def)

lemma hub_inv_identity: "hub_inv c h \<Longrightarrow> set_v2_identity sha sid ik ek h = Inr h' \<Longrightarrow> hub_inv c h'"
  using hub_inv_set_session [of c h sid]
  by (auto simp: set_v2_identity_def same_queue_def split: option.splits)

lemma hub_inv_send:
  assumes "hub_inv c h" "post_init c = Inr ()" "send_session frepr c sid data h = Inr (b, h', effs)"
  shows "hub_inv c h'"
proof -
  have "0 < outbound_queue_frames c"
    using server_config.frames_positive [of c] assms(2) by (simp add: server_config_def)
  then have q: "queues_inv c h'" using send_queues hub_invD(2) [OF assms(1)] assms(3) by blast
  consider "hub_inv c h'"
    | s n wt where "dget (sessions h) sid = Some s"
      "sessions h' = dset (sessions h) sid (s\<lparr>outbound_queue := outbound_queue s @ [(data, n)],
          outbound_bytes := outbound_bytes s + int n, writer_task := wt\<rparr>)"
      "routes h' = routes h" "seen h' = seen h" "rate_limiter h' = rate_limiter h"
      "global_message_limiter h' = global_message_limiter h"
    using send_session_cases [OF assms(3)] assms(1) by (elim disjE) auto
  then show ?thesis
  proof cases
    case (2 s n wt)
    then show ?thesis
      using q assms(1) routes_inv_set_session [OF hub_invD(1) [OF assms(1)] 2(1) _ 2(2,3)]
      by (simp add: hub_inv_def seen_inv_def)
  qed
qed

lemma hub_inv_queue_step:
  assumes "hub_inv c h" "queues_inv c h'" "dget (sessions h) sid = Some s" "sess_routes s' = sess_routes s"
    "sessions h' = dset (sessions h) sid s'" "routes h' = routes h" "seen h' = seen h"
    "rate_limiter h' = rate_limiter h" "global_message_limiter h' = global_message_limiter h"
  shows "hub_inv c h'"
  using assms routes_inv_set_session [OF hub_invD(1) [OF assms(1)] assms(3-6)]
  by (simp add: hub_inv_def seen_inv_def)

lemma hub_inv_writer_get:
  assumes "hub_inv c h"
  shows "hub_inv c (fst (writer_get sid h))"
proof (cases "\<exists>s f q. dget (sessions h) sid = Some s \<and> writer_task s = Writing None \<and> outbound_queue s = f # q")
  case True
  then obtain s f q where s: "dget (sessions h) sid = Some s" "writer_task s = Writing None"
    "outbound_queue s = f # q" by blast
  show ?thesis
    by (rule hub_inv_queue_step [OF assms writer_get_queues [OF hub_invD(2) [OF assms]] s(1)])
      (use s in \<open>auto simp: writer_get_def\<close>)
next
  case False
  with assms show ?thesis by (auto simp: writer_get_def split: option.splits writer.splits list.splits)
qed

lemma hub_inv_writer_finish:
  assumes "hub_inv c h"
  shows "hub_inv c (writer_finish sent sid h)"
proof (cases "\<exists>s d n. dget (sessions h) sid = Some s \<and> writer_task s = Writing (Some (d, n))")
  case True
  then obtain s d n where s: "dget (sessions h) sid = Some s" "writer_task s = Writing (Some (d, n))" by blast
  show ?thesis
    by (rule hub_inv_queue_step [OF assms writer_finish_queues [OF hub_invD(2) [OF assms]] s(1),
          where s' = "s\<lparr>outbound_bytes := max 0 (outbound_bytes s - int n),
            writer_task := (if sent then Writing None else WriterDone)\<rparr>"])
      (use s in \<open>auto simp: writer_finish_def Let_def\<close>)
next
  case False
  with assms show ?thesis
    by (auto simp: writer_finish_def split: option.splits writer.splits prod.splits)
qed

lemma hub_inv_mark: "hub_inv c h \<Longrightarrow> hub_inv c (snd (check_and_mark_seen c now k ttl h))"
  using mark_seen_inv by (simp add: hub_inv_def routes_inv_def tables_ok_def lease_def in_session_def queues_inv_def)

lemma hub_inv_prune_dedupe: "hub_inv c h \<Longrightarrow> hub_inv c (fst (prune_dedupe now h))"
  using prune_dedupe_inv by (simp add: hub_inv_def routes_inv_def tables_ok_def lease_def in_session_def queues_inv_def)

lemma hub_inv_prune_routes: "hub_inv c h \<Longrightarrow> hub_inv c (fst (prune_routes now h))"
  using prune_routes_inv prune_routes_queues routes_invD(3) by (simp add: hub_inv_def seen_inv_def)

lemma hub_inv_cleanup: "hub_inv c h \<Longrightarrow> hub_inv c (fst (cleanup_step c now h))"
  by (simp add: cleanup_step_def prune_stale_sessions_def Let_def hub_inv_prune_dedupe hub_inv_remove_all
      hub_inv_prune_routes)

lemma hub_inv_limiter:
  "hub_inv c h \<Longrightarrow> hub_inv c (h\<lparr>rate_limiter := snd (limiter_check now sid opn (rate_limiter h))\<rparr>)"
  using registry_ok_check
  by (simp add: hub_inv_def routes_inv_def tables_ok_def lease_def in_session_def queues_inv_def seen_inv_def)

lemma hub_inv_global:
  "hub_inv c h \<Longrightarrow> hub_inv c (h\<lparr>global_message_limiter := snd (try_consume now 1 (global_message_limiter h))\<rparr>)"
  using bucket_ok_consume
  by (simp add: hub_inv_def routes_inv_def tables_ok_def lease_def in_session_def queues_inv_def seen_inv_def)

end
