(* ===== verification/Strict_Json.thy ===== *)
theory Strict_Json
  imports Json
begin

text \<open>
  \<^verbatim>\<open>app/strict_json.py\<close>: the decoder every frame and request body goes through. The byte
  limit and a lexical nesting pre-scan run before decoding, the node and string limits after it.
  The main results: the pre-scan, which never parses, accepts a JSON text exactly when the
  decoded value is no deeper than the limit; the iterative tree walk accepts exactly when the
  structural node count and every string fit; together they give an exact description of
  \<open>loads_strict\<close>.
\<close>

section \<open>Definitions\<close>

text \<open>The state of the pre-scan: depth, inside a string, after a backslash.\<close>

type_synonym nest_state = "int \<times> bool \<times> bool"

fun nest_step :: "int \<Rightarrow> nest_state \<Rightarrow> nat \<Rightarrow> nest_state result" where
  "nest_step maximum (d, in_string, escaped) c =
     (if in_string then
        (if escaped then Inr (d, True, False)
         else if c = 92 then Inr (d, True, True)
         else if c = 34 then Inr (d, False, False)
         else Inr (d, True, False))
      else if c = 34 then Inr (d, True, escaped)
      else if c = 91 \<or> c = 123 then
        (if d + 1 > maximum then Inl (StrictJsonError NestingLimit) else Inr (d + 1, False, escaped))
      else if c = 93 \<or> c = 125 then
        (if d - 1 < 0 then Inl (StrictJsonError BadNesting) else Inr (d - 1, False, escaped))
      else Inr (d, False, escaped))"

fun nest_scan :: "int \<Rightarrow> nest_state \<Rightarrow> pystr \<Rightarrow> nest_state result" where
  "nest_scan maximum st [] = Inr st"
| "nest_scan maximum st (c # cs) = rbind (nest_step maximum st c) (\<lambda>st'. nest_scan maximum st' cs)"

definition check_nesting :: "pystr \<Rightarrow> int \<Rightarrow> unit result" where
  "check_nesting text maximum =
     rbind (nest_scan maximum (0, False, False) text) (\<lambda>(d, in_string, escaped).
       raise_if (in_string \<or> d \<noteq> 0) (StrictJsonError BadNesting))"

definition string_fits :: "int \<Rightarrow> pystr \<Rightarrow> bool" where
  "string_fits max_string_bytes s = (case utf8_len s of None \<Rightarrow> False | Some n \<Rightarrow> int n \<le> max_string_bytes)"

definition check_size :: "int \<Rightarrow> strict_reason \<Rightarrow> pystr \<Rightarrow> unit result" where
  "check_size max_string_bytes why s =
     (case utf8_len s of
        None \<Rightarrow> Inl UnicodeEncodeError
      | Some n \<Rightarrow> raise_if (int n > max_string_bytes) (StrictJsonError why))"

fun check_keys :: "int \<Rightarrow> (pystr \<times> json) list \<Rightarrow> unit result" where
  "check_keys max_string_bytes [] = Inr ()"
| "check_keys max_string_bytes ((key, child) # kvs) =
     rbind (check_size max_string_bytes KeyLimit key) (\<lambda>_. check_keys max_string_bytes kvs)"

text \<open>
  The work list of \<^verbatim>\<open>_check_tree\<close> with its top first: \<^verbatim>\<open>pending.pop()\<close> takes the
  head, appending children in order leaves the last one on top.
\<close>

function tree_loop :: "int \<Rightarrow> int \<Rightarrow> int \<Rightarrow> json list \<Rightarrow> unit result" where
  "tree_loop max_nodes max_string_bytes seen [] = Inr ()"
| "tree_loop max_nodes max_string_bytes seen (current # pending) =
     (if seen + 1 > max_nodes then Inl (StrictJsonError NodeLimit)
      else case current of
        JStr s \<Rightarrow>
          rbind (check_size max_string_bytes StringLimit s)
            (\<lambda>_. tree_loop max_nodes max_string_bytes (seen + 1) pending)
      | JDict kvs \<Rightarrow>
          rbind (check_keys max_string_bytes kvs)
            (\<lambda>_. tree_loop max_nodes max_string_bytes (seen + 1) (rev (map snd kvs) @ pending))
      | JList xs \<Rightarrow> tree_loop max_nodes max_string_bytes (seen + 1) (rev xs @ pending)
      | _ \<Rightarrow> tree_loop max_nodes max_string_bytes (seen + 1) pending)"
  by pat_completeness auto
termination
  by (relation "measure (\<lambda>(_, _, _, pending). sum_list (map nodes pending))")
    (auto simp: sum_list_rev rev_map [symmetric] comp_def case_prod_unfold)

definition check_tree :: "json \<Rightarrow> int \<Rightarrow> int \<Rightarrow> unit result" where
  "check_tree value max_nodes max_string_bytes = tree_loop max_nodes max_string_bytes 0 [value]"

datatype json_input = Text pystr | Raw bytes

definition loads_strict :: "json_input \<Rightarrow> int \<Rightarrow> int \<Rightarrow> int \<Rightarrow> int \<Rightarrow> json result" where
  "loads_strict value max_bytes max_depth max_nodes max_string_bytes =
     rbind
       (case value of
          Text text \<Rightarrow>
            (case utf8_encode text of None \<Rightarrow> Inl UnicodeEncodeError | Some raw \<Rightarrow> Inr (raw, text))
        | Raw raw \<Rightarrow>
            (case utf8_decode raw of
               None \<Rightarrow> Inl (StrictJsonError NotUtf8) | Some text \<Rightarrow> Inr (raw, text)))
       (\<lambda>(raw, text).
          rbind (raise_if (int (length raw) > max_bytes) (StrictJsonError ByteLimit)) (\<lambda>_.
          rbind (check_nesting text max_depth) (\<lambda>_.
          case json_loads text of
            Inl why \<Rightarrow> Inl (StrictJsonError why)
          | Inr decoded \<Rightarrow>
              rbind (check_tree decoded max_nodes max_string_bytes) (\<lambda>_. Inr decoded))))"

section \<open>The nesting pre-scan\<close>

lemma nest_scan_append:
  "nest_scan m st (xs @ ys) = rbind (nest_scan m st xs) (\<lambda>st'. nest_scan m st' ys)"
proof (induction xs arbitrary: st)
  case (Cons c xs)
  then show ?case by (cases "nest_step m st c") simp_all
qed simp

text \<open>
  \<open>balanced p h\<close>: outside a string, scanning \<open>p\<close> returns to the depth it started from
  and fails exactly when the limit is less than \<open>h\<close> above it.
\<close>

definition balanced :: "pystr \<Rightarrow> nat \<Rightarrow> bool" where
  "balanced p h \<longleftrightarrow>
     (\<forall>m d. 0 \<le> d \<longrightarrow> d \<le> m \<longrightarrow>
        nest_scan m (d, False, False) p =
          (if d + int h \<le> m then Inr (d, False, False) else Inl (StrictJsonError NestingLimit)))"

definition neutral_char :: "nat \<Rightarrow> bool" where
  "neutral_char c \<longleftrightarrow> c \<noteq> 34 \<and> c \<noteq> 91 \<and> c \<noteq> 123 \<and> c \<noteq> 93 \<and> c \<noteq> 125"

lemma balanced_append: "balanced p h \<Longrightarrow> balanced q k \<Longrightarrow> balanced (p @ q) (max h k)"
  by (auto simp: balanced_def nest_scan_append)

lemma balanced_append0: "balanced p 0 \<Longrightarrow> balanced q k \<Longrightarrow> balanced (p @ q) k"
  using balanced_append [of p 0 q k] by simp

lemma balanced_append0R: "balanced p k \<Longrightarrow> balanced q 0 \<Longrightarrow> balanced (p @ q) k"
  using balanced_append [of p k q 0] by simp

lemma nest_scan_neutral: "list_all neutral_char p \<Longrightarrow> nest_scan m (d, False, e) p = Inr (d, False, e)"
  by (induction p) (auto simp: neutral_char_def)

lemma balanced_neutral: "list_all neutral_char p \<Longrightarrow> balanced p 0"
  by (simp add: balanced_def nest_scan_neutral)

lemma balanced_bracket:
  assumes "balanced p h" "opn = 91 \<or> opn = 123" "cls = 93 \<or> cls = 125"
  shows "balanced (opn # p @ [cls]) (Suc h)"
proof -
  have "nest_scan m (d, False, False) (opn # p @ [cls]) =
      (if d + int (Suc h) \<le> m then Inr (d, False, False) else Inl (StrictJsonError NestingLimit))"
    if "0 \<le> d" "d \<le> m" for m d
    using assms that by (auto simp: balanced_def nest_scan_append)
  then show ?thesis by (simp add: balanced_def)
qed

lemma balanced_ws: "list_all is_ws p \<Longrightarrow> balanced p 0"
  by (rule balanced_neutral) (auto simp: list_all_iff is_ws_def neutral_char_def)

lemma skip_ws_balanced: "\<exists>p. s = p @ skip_ws s \<and> balanced p 0"
  using skip_ws_suffix [of s] balanced_ws by blast

subsection \<open>What each scanner consumes\<close>

definition str_body :: "pystr \<Rightarrow> bool" where
  "str_body p \<longleftrightarrow> (\<forall>m d. nest_scan m (d, True, False) p = Inr (d, False, False))"

lemma str_body_append: "\<forall>m d. nest_scan m (d, True, False) p = Inr (d, True, False) \<Longrightarrow> str_body q \<Longrightarrow> str_body (p @ q)"
  by (simp add: str_body_def nest_scan_append)

lemma nest_scan_hex: "list_all is_hex p \<Longrightarrow> nest_scan m (d, True, False) p = Inr (d, True, False)"
  by (induction p) (auto simp: is_hex_def hexval_def split: if_splits)

lemma hex4_split: "hex4 s = Some v \<Longrightarrow> s = take 4 s @ drop 4 s \<and> list_all is_hex (take 4 s)"
  by (auto simp: hex4_def split: if_splits)

text \<open>An escape of the decoder is an escape of the pre-scan.\<close>

lemma scan_str_body: "scan_str s = Some (t, r) \<Longrightarrow> \<exists>p. s = p @ r \<and> str_body p"
proof (induction s arbitrary: t rule: scan_str.induct)
  case (2 c s)
  have add: "\<exists>p. q @ s' = p @ r \<and> str_body p"
    if "\<exists>p. s' = p @ r \<and> str_body p" "\<forall>m d. nest_scan m (d, True, False) q = Inr (d, True, False)"
    for q s'
    using that str_body_append by (metis append.assoc)
  consider (quote) "c = 34" "s = r"
    | (pair) s1 v w t' where "c = 92" "s = 117 # s1" "hex4 s1 = Some v" "55296 \<le> v \<and> v \<le> 56319"
        "low_surrogate (drop 4 s1) = Some w" "scan_str (drop 10 s1) = Some (t', r)"
    | (unicode) s1 v t' where "c = 92" "s = 117 # s1" "hex4 s1 = Some v"
        "(if 55296 \<le> v \<and> v \<le> 56319 then low_surrogate (drop 4 s1) else None) = None"
        "scan_str (drop 4 s1) = Some (t', r)"
    | (simple) e s1 d t' where "c = 92" "s = e # s1" "e \<noteq> 117" "simple_escape e = Some d"
        "scan_str s1 = Some (t', r)"
    | (plain) t' where "c \<noteq> 34" "c \<noteq> 92" "\<not> c < 32" "scan_str s = Some (t', r)"
    using "2.prems" by (auto split: if_splits list.splits option.splits)
  then show ?case
  proof cases
    case quote
    then show ?thesis by (intro exI [of _ "[34]"]) (simp add: str_body_def)
  next
    case pair
    have lo: "take 2 (drop 4 s1) = [92, 117]" "list_all is_hex (take 4 (drop 6 s1))"
      using pair(5) hex4_split [of "drop 2 (drop 4 s1)"]
      by (auto simp: low_surrogate_def split: if_splits option.splits)
    have "drop 4 s1 = [92, 117] @ drop 6 s1"
      using append_take_drop_id [of 2 "drop 4 s1"] lo(1) by simp
    moreover have "drop 6 s1 = take 4 (drop 6 s1) @ drop 10 s1"
      using append_take_drop_id [of 4 "drop 6 s1"] by simp
    ultimately have s1: "s1 = (take 4 s1 @ [92, 117] @ take 4 (drop 6 s1)) @ drop 10 s1"
      using append_take_drop_id [of 4 s1] by simp
    have "\<exists>p. drop 10 s1 = p @ r \<and> str_body p"
      using "2.IH"(2) pair by simp
    from add [OF this, of "[92, 117] @ take 4 s1 @ [92, 117] @ take 4 (drop 6 s1)"]
    have "\<exists>p. ([92, 117] @ take 4 s1 @ [92, 117] @ take 4 (drop 6 s1)) @ drop 10 s1 = p @ r \<and> str_body p"
      using lo(2) hex4_split [OF pair(3)] by (simp add: nest_scan_append nest_scan_hex)
    with s1 pair(1,2) show ?thesis by (metis append.assoc append_Cons append_Nil)
  next
    case unicode
    have "\<exists>p. drop 4 s1 = p @ r \<and> str_body p"
      using "2.IH"(1) unicode by simp
    from add [OF this, of "[92, 117] @ take 4 s1"]
    have "\<exists>p. ([92, 117] @ take 4 s1) @ drop 4 s1 = p @ r \<and> str_body p"
      using hex4_split [OF unicode(3)] by (simp add: nest_scan_append nest_scan_hex)
    with unicode(1,2) show ?thesis by simp
  next
    case simple
    have "\<exists>p. s1 = p @ r \<and> str_body p"
      using "2.IH"(3) simple by simp
    from add [OF this, of "[92, e]"] simple show ?thesis by simp
  next
    case plain
    have "\<exists>p. s = p @ r \<and> str_body p"
      using "2.IH"(4) plain by simp
    from add [OF this, of "[c]"] plain show ?thesis by simp
  qed
qed simp

lemma balanced_string: "str_body p \<Longrightarrow> balanced (34 # p) 0"
  by (simp add: str_body_def balanced_def)

text \<open>Literals and numbers hold no quote and no bracket.\<close>

lemma digits_neutral: "list_all neutral_char (takeWhile is_digit s)"
  by (auto simp: list_all_iff neutral_char_def is_digit_def dest: set_takeWhileD)

lemma scan_int_neutral:
  assumes "scan_int s = Some (ds, r)"
  shows "\<exists>p. s = p @ r \<and> list_all neutral_char p"
proof -
  from assms consider "s = [48] @ r" | "r = dropWhile is_digit s"
    by (auto simp: scan_int_def split: list.splits if_splits)
  then show ?thesis
  proof cases
    case 1
    then show ?thesis by (intro exI [of _ "[48]"]) (simp add: neutral_char_def)
  next
    case 2
    then show ?thesis using digits_neutral [of s] by (metis takeWhile_dropWhile_id)
  qed
qed

lemma scan_frac_neutral:
  assumes "scan_frac s = (fs, r)"
  shows "\<exists>p. s = p @ r \<and> list_all neutral_char p"
proof -
  from assms consider "s = [] @ r" | s' where "s = 46 # s'" "r = dropWhile is_digit s'"
    by (auto simp: scan_frac_def split: list.splits if_splits)
  then show ?thesis
  proof cases
    case 2
    then have "s = (46 # takeWhile is_digit s') @ r" by simp
    moreover have "list_all neutral_char (46 # takeWhile is_digit s')"
      using digits_neutral by (simp add: neutral_char_def)
    ultimately show ?thesis by blast
  qed (metis list.pred_inject(1))
qed

lemma scan_exp_neutral: "scan_exp s = (ex, r) \<Longrightarrow> \<exists>p. s = p @ r \<and> list_all neutral_char p"
proof (cases s)
  case (Cons c s')
  let ?body = "if s' \<noteq> [] \<and> (hd s' = 45 \<or> hd s' = 43) then tl s' else s'"
  let ?sgn = "if s' \<noteq> [] \<and> (hd s' = 45 \<or> hd s' = 43) then [hd s'] else []"
  have s: "s = (c # ?sgn @ takeWhile is_digit ?body) @ dropWhile is_digit ?body"
    using Cons by (cases s') auto
  have sgn: "list_all neutral_char ?sgn" by (auto simp: neutral_char_def)
  assume "scan_exp s = (ex, r)"
  then consider "r = s" | "c = 101 \<or> c = 69" "r = dropWhile is_digit ?body"
    using Cons by (auto simp: scan_exp_def Let_def split: if_splits)
  then show ?thesis
  proof cases
    case 2
    then have "list_all neutral_char (c # ?sgn @ takeWhile is_digit ?body)"
      using digits_neutral [of ?body] sgn by (auto simp: neutral_char_def)
    with s 2 show ?thesis by blast
  next
    case 1
    then have "s = [] @ r" by simp
    then show ?thesis by (metis list.pred_inject(1))
  qed
qed (simp add: scan_exp_def)

lemma scan_number_neutral: "scan_number s = Done v r \<Longrightarrow> \<exists>p. s = p @ r \<and> list_all neutral_char p"
proof -
  assume "scan_number s = Done v r"
  then obtain ds r1 fs r2 ex where
    n: "scan_int (if s \<noteq> [] \<and> hd s = 45 then tl s else s) = Some (ds, r1)"
       "scan_frac r1 = (fs, r2)" "scan_exp r2 = (ex, r)"
    by (auto simp: scan_number_def Let_def split: option.splits prod.splits if_splits)
  obtain p1 where p1: "(if s \<noteq> [] \<and> hd s = 45 then tl s else s) = p1 @ r1" "list_all neutral_char p1"
    using scan_int_neutral [OF n(1)] by blast
  obtain p2 p3 where p23: "r1 = p2 @ p3 @ r" "list_all neutral_char p2" "list_all neutral_char p3"
    using scan_frac_neutral [OF n(2)] scan_exp_neutral [OF n(3)] by auto
  let ?sgn = "if s \<noteq> [] \<and> hd s = 45 then [45] else []"
  have "s = (?sgn @ p1 @ p2 @ p3) @ r"
    using p1(1) p23(1) by (cases s) (auto split: if_splits)
  moreover have "list_all neutral_char (?sgn @ p1 @ p2 @ p3)"
    using p1(2) p23 by (auto simp: neutral_char_def)
  ultimately show ?thesis by blast
qed

lemma has_prefix_split: "has_prefix p s \<Longrightarrow> s = u p @ drop (length p) s"
  by (metis append_take_drop_id has_prefix_def)

lemma has_prefix_neutral:
  assumes "has_prefix p s" "list_all neutral_char (u p)" "length p = n"
  shows "\<exists>q. s = q @ drop n s \<and> list_all neutral_char q"
  using has_prefix_split [OF assms(1)] assms(2,3) by blast

lemma scan_atom_balanced: "scan_atom s = Done v r \<Longrightarrow> \<exists>p. s = p @ r \<and> balanced p (depth v)"
proof -
  assume a: "scan_atom s = Done v r"
  then consider "has_prefix ''null'' s" "r = drop 4 s" | "has_prefix ''true'' s" "r = drop 4 s"
    | "has_prefix ''false'' s" "r = drop 5 s" | "scan_number s = Done v r"
    by (simp add: scan_atom_def split: if_splits)
  then have "\<exists>p. s = p @ r \<and> list_all neutral_char p"
  proof cases
    case 1
    then show ?thesis using has_prefix_neutral [of "''null''" s 4] by (simp add: u_def neutral_char_def)
  next
    case 2
    then show ?thesis using has_prefix_neutral [of "''true''" s 4] by (simp add: u_def neutral_char_def)
  next
    case 3
    then show ?thesis using has_prefix_neutral [of "''false''" s 5] by (simp add: u_def neutral_char_def)
  qed (rule scan_number_neutral)
  moreover from a have "depth v = 0" by (auto dest: scan_atom_scalar)
  ultimately show ?thesis using balanced_neutral by auto
qed

abbreviation depths :: "json list \<Rightarrow> nat" where
  "depths vs \<equiv> foldr max (map depth vs) 0"

abbreviation member_depths :: "(pystr \<times> json) list \<Rightarrow> nat" where
  "member_depths kvs \<equiv> foldr max (map (\<lambda>(k, v). depth v) kvs) 0"

lemma scan_container_balanced:
  assumes "skip_ws r0 = p @ cls # r" "balanced p h" "opn = 91 \<or> opn = 123" "cls = 93 \<or> cls = 125"
  shows "\<exists>q. opn # r0 = q @ r \<and> balanced q (Suc h)"
proof -
  obtain w where w: "r0 = w @ skip_ws r0" "balanced w 0" using skip_ws_balanced by blast
  from w(1) assms(1) have "r0 = w @ p @ cls # r" by metis
  then have "opn # r0 = (opn # (w @ p) @ [cls]) @ r" by simp
  moreover have "balanced (opn # (w @ p) @ [cls]) (Suc h)"
    using balanced_append0 [OF w(2) assms(2)] assms(3,4) by (rule balanced_bracket)
  ultimately show ?thesis by blast
qed

lemma scan_value_balanced_step:
  assumes "scan_value (Suc n) s = Done v r"
    and elems_n: "\<And>s vs r. scan_elems n s = Done vs r \<Longrightarrow> \<exists>p. s = p @ 93 # r \<and> balanced p (depths vs)"
    and members_n: "\<And>s kvs r. scan_members n s = Done kvs r \<Longrightarrow>
      \<exists>p. s = p @ 125 # r \<and> balanced p (member_depths kvs)"
  shows "\<exists>p. s = p @ r \<and> balanced p (depth v)"
proof -
  obtain c r0 where s: "s = c # r0" using assms(1) by (cases s) auto
  consider (str) t where "c = 34" "scan_str r0 = Some (t, r)" "v = JStr t"
    | (nil) "c = 91" "skip_ws r0 = 93 # r" "v = JList []"
    | (list) vs where "c = 91" "scan_elems n (skip_ws r0) = Done vs r" "v = JList vs"
    | (empty) "c = 123" "skip_ws r0 = 125 # r" "v = JDict []"
    | (obj) kvs where "c = 123" "scan_members n (skip_ws r0) = Done kvs r" "v = JDict kvs"
    | (atom) "scan_atom s = Done v r"
    using assms(1) s
    by (auto simp: unique_object_def split: if_splits list.splits option.splits scan.splits)
  then show ?thesis
  proof cases
    case str
    then obtain p where p: "r0 = p @ r" "str_body p" using scan_str_body by blast
    then have "s = (34 # p) @ r" using s str by simp
    with balanced_string [OF p(2)] str show ?thesis by auto
  next
    case nil
    then show ?thesis
      using scan_container_balanced [of r0 "[]" 93 r 0 91] balanced_neutral [of "[]"] s by simp
  next
    case list
    then show ?thesis
      using elems_n [of "skip_ws r0" vs r] scan_container_balanced [of r0 _ 93 r "depths vs" 91] s by auto
  next
    case empty
    then show ?thesis
      using scan_container_balanced [of r0 "[]" 125 r 0 123] balanced_neutral [of "[]"] s by simp
  next
    case obj
    then show ?thesis
      using members_n [of "skip_ws r0" kvs r] scan_container_balanced [of r0 _ 125 r "member_depths kvs" 123] s
      by auto
  qed (rule scan_atom_balanced)
qed

lemma scan_elems_balanced_step:
  assumes "scan_elems (Suc n) s = Done vs r"
    and value_n: "\<And>s v r. scan_value n s = Done v r \<Longrightarrow> \<exists>p. s = p @ r \<and> balanced p (depth v)"
    and elems_n: "\<And>s vs r. scan_elems n s = Done vs r \<Longrightarrow> \<exists>p. s = p @ 93 # r \<and> balanced p (depths vs)"
  shows "\<exists>p. s = p @ 93 # r \<and> balanced p (depths vs)"
proof -
  obtain v r1 d r2 where v: "scan_value n s = Done v r1" "skip_ws r1 = d # r2"
    and d: "d = 93 \<and> r = r2 \<and> vs = [v] \<or>
      d = 44 \<and> (\<exists>ws. scan_elems n (skip_ws r2) = Done ws r \<and> vs = v # ws)"
    using assms(1) by (auto split: scan.splits list.splits if_splits)
  obtain p w where p: "s = p @ r1" "balanced p (depth v)" "r1 = w @ d # r2" "balanced w 0"
    using value_n [OF v(1)] skip_ws_balanced [of r1] v(2) by auto
  have pw: "balanced (p @ w) (depth v)" using p(2,4) by (rule balanced_append0R)
  from d show ?thesis
  proof
    assume "d = 93 \<and> r = r2 \<and> vs = [v]"
    with p pw show ?thesis by (intro exI [of _ "p @ w"]) simp
  next
    assume "d = 44 \<and> (\<exists>ws. scan_elems n (skip_ws r2) = Done ws r \<and> vs = v # ws)"
    then obtain ws q w2 where ws: "d = 44" "vs = v # ws" "skip_ws r2 = q @ 93 # r" "balanced q (depths ws)"
        "r2 = w2 @ skip_ws r2" "balanced w2 0"
      using elems_n skip_ws_balanced [of r2] by blast
    have "balanced ([44] @ w2 @ q) (depths ws)"
      using balanced_append0 [OF balanced_neutral balanced_append0 [OF ws(6,4)], of "[44]"]
      by (simp add: neutral_char_def)
    from balanced_append [OF pw this] have "balanced ((p @ w) @ [44] @ w2 @ q) (depths vs)"
      using ws(2) by simp
    moreover have "s = ((p @ w) @ [44] @ w2 @ q) @ 93 # r"
      using p(1,3) ws(1,3,5) by (metis append.assoc append_Cons append_Nil)
    ultimately show ?thesis by blast
  qed
qed

lemma scan_members_balanced_step:
  assumes "scan_members (Suc n) s = Done kvs r"
    and value_n: "\<And>s v r. scan_value n s = Done v r \<Longrightarrow> \<exists>p. s = p @ r \<and> balanced p (depth v)"
    and members_n: "\<And>s kvs r. scan_members n s = Done kvs r \<Longrightarrow>
      \<exists>p. s = p @ 125 # r \<and> balanced p (member_depths kvs)"
  shows "\<exists>p. s = p @ 125 # r \<and> balanced p (member_depths kvs)"
proof -
  obtain r0 k r1 r2 v r3 d r4 where
    s: "s = 34 # r0" "scan_str r0 = Some (k, r1)" "skip_ws r1 = 58 # r2"
       "scan_value n (skip_ws r2) = Done v r3" "skip_ws r3 = d # r4"
    and d: "d = 125 \<and> r = r4 \<and> kvs = [(k, v)] \<or>
      d = 44 \<and> (\<exists>ws. scan_members n (skip_ws r4) = Done ws r \<and> kvs = (k, v) # ws)"
    using assms(1) by (auto split: scan.splits list.splits if_splits option.splits)
  obtain p0 w1 w2 p w3 where
    p: "r0 = p0 @ r1" "str_body p0" "r1 = w1 @ 58 # r2" "balanced w1 0" "r2 = w2 @ skip_ws r2" "balanced w2 0"
       "skip_ws r2 = p @ r3" "balanced p (depth v)" "r3 = w3 @ d # r4" "balanced w3 0"
    using scan_str_body [OF s(2)] skip_ws_balanced [of r1] skip_ws_balanced [of r2]
      skip_ws_balanced [of r3] value_n [OF s(4)] s(3,5) by metis
  let ?head = "(34 # p0) @ w1 @ [58] @ w2 @ p @ w3"
  have "s = ?head @ d # r4"
    using s(1) p(1,3,5,7,9) by (metis append.assoc append_Cons append_Nil)
  moreover have colon: "balanced [58] 0" by (simp add: balanced_neutral neutral_char_def)
  have head: "balanced ?head (depth v)"
    by (rule balanced_append0 [OF balanced_string [OF p(2)] balanced_append0 [OF p(4)
          balanced_append0 [OF colon balanced_append0 [OF p(6) balanced_append0R [OF p(8,10)]]]]])
  ultimately show ?thesis
    using d
  proof (elim disjE conjE exE)
    assume "s = ?head @ d # r4" "d = 125" "r = r4" "kvs = [(k, v)]"
    with head show ?thesis by (intro exI [of _ ?head]) simp
  next
    fix ws assume *: "s = ?head @ d # r4" "d = 44" "scan_members n (skip_ws r4) = Done ws r" "kvs = (k, v) # ws"
    then obtain q w4 where q: "skip_ws r4 = q @ 125 # r" "balanced q (member_depths ws)"
        "r4 = w4 @ skip_ws r4" "balanced w4 0"
      using members_n skip_ws_balanced [of r4] by blast
    have "balanced ([44] @ w4 @ q) (member_depths ws)"
      using balanced_append0 [OF balanced_neutral balanced_append0 [OF q(4,2)], of "[44]"]
      by (simp add: neutral_char_def)
    from balanced_append [OF head this] have "balanced (?head @ [44] @ w4 @ q) (member_depths kvs)"
      using *(4) by simp
    moreover have "s = (?head @ [44] @ w4 @ q) @ 125 # r"
      using *(1,2) q(1,3) by (metis append.assoc append_Cons append_Nil)
    ultimately show ?thesis by blast
  qed
qed

lemma scan_balanced:
  "(\<forall>s v r. scan_value n s = Done v r \<longrightarrow> (\<exists>p. s = p @ r \<and> balanced p (depth v))) \<and>
   (\<forall>s vs r. scan_elems n s = Done vs r \<longrightarrow> (\<exists>p. s = p @ 93 # r \<and> balanced p (depths vs))) \<and>
   (\<forall>s kvs r. scan_members n s = Done kvs r \<longrightarrow>
      (\<exists>p. s = p @ 125 # r \<and> balanced p (member_depths kvs)))"
proof (induction n)
  case (Suc n)
  then have value_n: "scan_value n s = Done v r \<Longrightarrow> \<exists>p. s = p @ r \<and> balanced p (depth v)"
    and elems_n: "scan_elems n s = Done vs r \<Longrightarrow> \<exists>p. s = p @ 93 # r \<and> balanced p (depths vs)"
    and members_n: "scan_members n s = Done kvs r \<Longrightarrow> \<exists>p. s = p @ 125 # r \<and> balanced p (member_depths kvs)"
    for s v vs kvs r
    by blast+
  have v: "\<exists>p. s = p @ r \<and> balanced p (depth v)" if "scan_value (Suc n) s = Done v r" for s v r
    using that by (rule scan_value_balanced_step [OF _ elems_n members_n])
  have e: "\<exists>p. s = p @ 93 # r \<and> balanced p (depths vs)" if "scan_elems (Suc n) s = Done vs r" for s vs r
    using that by (rule scan_elems_balanced_step [OF _ value_n elems_n])
  have m: "\<exists>p. s = p @ 125 # r \<and> balanced p (member_depths kvs)"
    if "scan_members (Suc n) s = Done kvs r" for s kvs r
    using that by (rule scan_members_balanced_step [OF _ value_n members_n])
  from v e m show ?case by blast
qed simp

subsection \<open>The pre-scan decides the depth\<close>

lemma json_loads_balanced:
  assumes "json_loads t = Inr v"
  shows "balanced t (depth v)"
proof -
  from assms obtain r where r: "scan_value (Suc (2 * length t)) (skip_ws t) = Done v r" "skip_ws r = []"
    by (auto simp: json_loads_def split: scan.splits if_splits simp del: scan_value.simps)
  obtain w p w' where w: "t = w @ skip_ws t" "balanced w 0" "skip_ws t = p @ r" "balanced p (depth v)"
      "r = w'" "balanced w' 0"
    using skip_ws_balanced [of t] skip_ws_balanced [of r] scan_balanced [THEN conjunct1, rule_format, OF r(1)] r(2)
    by auto
  then have "t = w @ p @ w'" by metis
  with w show ?thesis by (metis balanced_append0 balanced_append0R)
qed

lemma check_nesting_balanced:
  assumes "balanced t h" "0 \<le> m"
  shows "check_nesting t m = (if int h \<le> m then Inr () else Inl (StrictJsonError NestingLimit))"
  using assms by (simp add: check_nesting_def balanced_def raise_if_def)

section \<open>The tree walk\<close>

lemma check_size_ok: "check_size S why s = Inr x \<longleftrightarrow> string_fits S s"
  by (auto simp: check_size_def string_fits_def split: option.splits)

lemma check_keys_ok: "check_keys S kvs = Inr x \<longleftrightarrow> list_all (\<lambda>(k, v). string_fits S k) kvs"
  by (induction S kvs rule: check_keys.induct) (auto simp: rbind_eq_Inr check_size_ok)

lemma all_strings_members:
  "list_all (\<lambda>(k, v). P k \<and> all_strings P v) kvs \<longleftrightarrow>
   list_all (\<lambda>(k, v). P k) kvs \<and> list_all (all_strings P) (map snd kvs)"
  by (auto simp: list_all_iff)

lemma sum_nodes_values: "sum_list (map (\<lambda>(k, v). nodes v) kvs) = sum_list (map nodes (map snd kvs))"
  by (simp add: comp_def case_prod_unfold)

lemma sum_list_rev_nodes: "sum_list (map nodes (rev xs)) = sum_list (map nodes xs)"
  by (simp add: rev_map [symmetric] sum_list_rev)

lemma tree_loop_ok:
  "tree_loop N S k pending = Inr () \<longleftrightarrow>
   (pending = [] \<or> k + int (sum_list (map nodes pending)) \<le> N) \<and>
   list_all (all_strings (string_fits S)) pending"
proof (induction N S k pending rule: tree_loop.induct)
  case (2 N S k v pending)
  have pos: "1 \<le> nodes w" for w by (cases w) auto
  then have pend: "pending \<noteq> [] \<Longrightarrow> 1 \<le> sum_list (map nodes pending)" for pending
    by (cases pending) (auto intro: trans_le_add1)
  show ?case
  proof (cases "k + 1 > N")
    case True
    then show ?thesis using pos [of v] by simp
  next
    case False
    show ?thesis
    proof (cases v)
      case (JList xs)
      have "pending = [] \<and> xs = [] \<or> xs \<noteq> [] \<or> pending \<noteq> []" by blast
      then show ?thesis
        using False JList "2.IH"(6) [OF False JList] pend [of pending]
        by (auto simp: sum_list_rev_nodes list_all_rev)
    next
      case (JDict kvs)
      then show ?thesis
        using False "2.IH"(7) [OF False JDict] pend [of pending]
        by (auto simp: rbind_eq_Inr check_keys_ok all_strings_members sum_nodes_values
            sum_list_rev_nodes list_all_rev simp del: map_map)
    next
      case (JStr s)
      then show ?thesis
        using False "2.IH"(5) [OF False JStr] by (auto simp: rbind_eq_Inr check_size_ok)
    qed (use False 2 in auto)
  qed
qed simp

lemma check_tree_ok:
  "check_tree v N S = Inr () \<longleftrightarrow> int (nodes v) \<le> N \<and> all_strings (string_fits S) v"
  by (simp add: check_tree_def tree_loop_ok del: tree_loop.simps)

section \<open>The decoder as a whole\<close>

lemma loads_strict_text:
  assumes "0 \<le> D"
  shows "loads_strict (Text t) B D N S = Inr v \<longleftrightarrow>
    (\<exists>n. utf8_len t = Some n \<and> int n \<le> B) \<and> json_loads t = Inr v \<and>
    int (depth v) \<le> D \<and> int (nodes v) \<le> N \<and> all_strings (string_fits S) v"
proof (cases "json_loads t")
  case (Inl e)
  then show ?thesis
    by (auto simp: loads_strict_def rbind_eq_Inr split: option.splits)
next
  case (Inr w)
  then show ?thesis
    using check_nesting_balanced [OF json_loads_balanced [OF Inr] assms]
    by (auto simp: loads_strict_def rbind_eq_Inr utf8_len_def check_tree_ok split: option.splits)
qed

lemma json_loads_unique_keys: "json_loads t = Inr v \<Longrightarrow> unique_keys v"
  by (auto simp: json_loads_def split: if_splits scan.splits simp del: scan_value.simps
      dest: scan_unique_keys [THEN conjunct1, rule_format])

section \<open>Which exceptions leave the decoder\<close>

lemma nest_scan_error: "nest_scan m st cs = Inl e \<Longrightarrow> \<exists>r. e = StrictJsonError r"
proof (induction cs arbitrary: st)
  case (Cons c cs)
  obtain d i x where st: "st = (d, i, x)" by (cases st)
  have "nest_step m st c = Inl e \<Longrightarrow> \<exists>r. e = StrictJsonError r"
    by (auto simp: st split: if_splits)
  with Cons show ?case by (auto simp: rbind_eq_Inl)
qed simp

lemma check_nesting_error: "check_nesting t m = Inl e \<Longrightarrow> \<exists>r. e = StrictJsonError r"
  by (auto simp: check_nesting_def rbind_eq_Inl dest: nest_scan_error)

lemma check_size_error: "check_size S why s = Inl e \<Longrightarrow> (\<exists>r. e = StrictJsonError r) \<or> e = UnicodeEncodeError"
  by (auto simp: check_size_def split: option.splits)

lemma check_keys_error: "check_keys S kvs = Inl e \<Longrightarrow> (\<exists>r. e = StrictJsonError r) \<or> e = UnicodeEncodeError"
  by (induction S kvs rule: check_keys.induct) (auto simp: rbind_eq_Inl dest: check_size_error)

lemma tree_loop_error: "tree_loop N S i vs = Inl e \<Longrightarrow> (\<exists>r. e = StrictJsonError r) \<or> e = UnicodeEncodeError"
proof (induction N S i vs rule: tree_loop.induct)
  case (2 N S i v vs)
  then show ?case
    by (cases v) (auto simp: rbind_eq_Inl dest: check_size_error check_keys_error split: if_splits)
qed simp

lemma loads_strict_error:
  "loads_strict v B D N S = Inl e \<Longrightarrow> (\<exists>r. e = StrictJsonError r) \<or> e = UnicodeEncodeError"
  by (auto simp: loads_strict_def rbind_eq_Inl check_tree_def simp del: tree_loop.simps
      dest: check_nesting_error tree_loop_error split: json_input.splits option.splits sum.splits)

section \<open>Properties\<close>

text \<open>C12: A text is accepted exactly when it is within the byte limit, decodes as JSON (distinct
  keys, no NaN or Infinity literal) to a value within the depth and node limits, and every string
  and key of the value is within the string limit. The pre-scan, the decoder and the tree walk
  together decide this and nothing else.\<close>

theorem loads_strict_exact:
  assumes "0 \<le> D"
  shows "loads_strict (Text t) B D N S = Inr v \<longleftrightarrow>
    (\<exists>n. utf8_len t = Some n \<and> int n \<le> B) \<and> json_loads t = Inr v \<and> unique_keys v \<and>
    int (depth v) \<le> D \<and> int (nodes v) \<le> N \<and> all_strings (string_fits S) v"
  using loads_strict_text [OF assms] json_loads_unique_keys by blast

theorem loads_strict_exact_witness:
  "loads_strict (Text (u ''[1, {}]'')) 16 2 3 16 = Inr (JList [JInt 1, JDict []])"
proof -
  have "json_loads (u ''[1, {}]'') = Inr (JList [JInt 1, JDict []])"
    by (simp add: json_eval u_def)
  moreover have "utf8_len (u ''[1, {}]'') = Some 7"
    by (simp add: utf8_len_ascii u_def)
  ultimately show ?thesis
    using loads_strict_exact [of 2 "u ''[1, {}]''" 16 3 16 "JList [JInt 1, JDict []]"] by simp
qed

text \<open>C13: On a text that decodes, the character pre-scan accepts exactly the values nested at most
  \<open>D\<close> deep: brackets inside strings and escaped quotes never mislead it, so the recursive
  decoder never sees a value deeper than the limit.\<close>

theorem nesting_prescan_exact:
  assumes "json_loads t = Inr v" "0 \<le> D"
  shows "check_nesting t D = Inr () \<longleftrightarrow> int (depth v) \<le> D"
  using check_nesting_balanced [OF json_loads_balanced [OF assms(1)] assms(2)] by auto

theorem nesting_prescan_exact_witness: "check_nesting (u ''[1, {}]'') 1 \<noteq> Inr ()"
proof -
  have "json_loads (u ''[1, {}]'') = Inr (JList [JInt 1, JDict []])"
    by (simp add: json_eval u_def)
  from nesting_prescan_exact [OF this, of 1] show ?thesis by simp
qed

text \<open>A string with an escaped lone surrogate is not refused with \<^verbatim>\<open>StrictJsonError\<close>:
  measuring it raises \<^verbatim>\<open>UnicodeEncodeError\<close>, which the callers do not catch.\<close>

theorem lone_surrogate_escapes:
  "loads_strict (Text (34 # 92 # u ''ud800'' @ [34])) 64 8 8 64 = Inl UnicodeEncodeError"
proof -
  have "json_loads (34 # 92 # u ''ud800'' @ [34]) = Inr (JStr [55296])"
    by (simp add: json_eval u_def is_hex_def hexval_def)
  moreover have "utf8_encode (34 # 92 # u ''ud800'' @ [34]) =
      Some (map word_of_nat (34 # 92 # u ''ud800'' @ [34]))"
    by (simp add: utf8_encode_def utf8_cp_def is_surrogate_def u_def)
  ultimately show ?thesis
    by (simp add: loads_strict_def check_nesting_def check_tree_def check_size_def utf8_len_alt
        is_surrogate_def u_def raise_if_def)
qed

text \<open>The literal \<^verbatim>\<open>1e400\<close> is accepted and decodes to infinity, although non-finite
  numbers are documented as forbidden: only the constants are refused.\<close>

theorem overflowing_literal_accepted:
  "loads_strict (Text (u ''1e400'')) 64 8 8 64 = Inr (JFloat FInf)"
proof -
  have "json_loads (u ''1e400'') = Inr (JFloat FInf)"
    by (simp add: json_eval u_def float_of_real_def)
  moreover have "utf8_len (u ''1e400'') = Some 5"
    by (simp add: utf8_len_ascii u_def)
  ultimately show ?thesis
    by (simp add: loads_strict_text)
qed

end
