(* ===== verification/Protocol.thy ===== *)
theory Protocol
  imports Strict_Json
begin

text \<open>
  \<^verbatim>\<open>app/protocol.py\<close>: the wire protocol's namespaces and message types, the envelope check
  and the validators of the two client endpoints. Validators return \<open>Inr ()\<close> or the
  exception they raise; that includes the \<^verbatim>\<open>TypeError\<close> of a set look-up with an
  unhashable value, which none of the source's handlers expects.
\<close>

section \<open>Definitions\<close>

definition PROTOCOL_VERSIONS :: "(string \<times> string) list" where
  "PROTOCOL_VERSIONS =
     [(''DISCOVERY'', ''particle-discovery/1''),
      (''SESSION'', ''particle-session/1''),
      (''ROUTE'', ''particle-route/1''),
      (''SIGNAL'', ''particle-signal/1''),
      (''SESSION_V2'', ''particle-session/2''),
      (''ROUTE_V2'', ''particle-route/2''),
      (''SIGNAL_V2'', ''particle-signal/2''),
      (''NODE'', ''particle-node/1'')]"

definition protocol_version :: "string \<Rightarrow> pystr" where
  "protocol_version k = (case map_of PROTOCOL_VERSIONS k of None \<Rightarrow> [] | Some v \<Rightarrow> u v)"

definition KNOWN_PROTOCOLS :: "pystr list" where
  "KNOWN_PROTOCOLS = map (u \<circ> snd) PROTOCOL_VERSIONS"

definition MESSAGE_TYPES :: "pystr list" where
  "MESSAGE_TYPES = map u
     [''HELLO'', ''PROVE'', ''ATTACH_ROUTE'', ''DETACH_ROUTE'', ''SUBSCRIBE'', ''UNSUBSCRIBE'',
      ''DISCOVER'', ''PEERS'', ''PUBLISH'', ''FORWARD'', ''SIGNAL'', ''PING'', ''PONG'', ''ERROR'',
      ''CHALLENGE'', ''SESSION_READY'', ''SIGNAL_ACK'',
      ''NODE_HELLO'', ''NODE_STATE'', ''ROUTE_REGISTER'', ''ROUTE_REMOVE'', ''ROUTE_QUERY'',
      ''ROUTE_RESULT'', ''SIGNAL_FORWARD'', ''ACK'']"

definition MAX_ID_BYTES :: nat where "MAX_ID_BYTES = 128"
definition MAX_ROUTE_ID_BYTES :: nat where "MAX_ROUTE_ID_BYTES = 256"

text \<open>
  \<open>jget d k\<close> is \<^verbatim>\<open>d.get(k)\<close>; \<open>keys_are p ks\<close> is \<^verbatim>\<open>set(p) == {...}\<close>;
  \<open>str_in v S\<close> is \<^verbatim>\<open>v in S\<close> for a set \<open>S\<close> of strings, which raises
  \<^verbatim>\<open>TypeError\<close> for a list or a dict.
\<close>

definition jget :: "(pystr \<times> json) list \<Rightarrow> string \<Rightarrow> json" where
  "jget d k = (case dget d (u k) of None \<Rightarrow> JNull | Some v \<Rightarrow> v)"

definition keys_are :: "(pystr \<times> json) list \<Rightarrow> string list \<Rightarrow> bool" where
  "keys_are d ks \<longleftrightarrow> set (dkeys d) = u ` set ks"

definition str_in :: "json \<Rightarrow> pystr list \<Rightarrow> bool result" where
  "str_in v xs =
     (case v of
        JStr s \<Rightarrow> Inr (s \<in> set xs)
      | JList _ \<Rightarrow> Inl TypeError
      | JDict _ \<Rightarrow> Inl TypeError
      | _ \<Rightarrow> Inr False)"

definition jstr :: "json \<Rightarrow> pystr" where
  "jstr v = (case v of JStr s \<Rightarrow> s | _ \<Rightarrow> [])"

text \<open>\<^verbatim>\<open>data.get("payload") or {}\<close> of a message whose envelope was checked\<close>

definition payload_of :: "(pystr \<times> json) list \<Rightarrow> (pystr \<times> json) list" where
  "payload_of d = (case jget d ''payload'' of JDict p \<Rightarrow> p | _ \<Rightarrow> [])"

definition check_message_id :: "json \<Rightarrow> unit result" where
  "check_message_id v =
     (case v of
        JNull \<Rightarrow> Inr ()
      | JStr s \<Rightarrow>
          (case utf8_len s of
             None \<Rightarrow> Inl UnicodeEncodeError
           | Some n \<Rightarrow> raise_if (\<not> (1 \<le> n \<and> n \<le> MAX_ID_BYTES)) (ProtocolError ''bad-id''))
      | _ \<Rightarrow> Inl (ProtocolError ''bad-id''))"

definition validate_envelope :: "json \<Rightarrow> unit result" where
  "validate_envelope data =
     (case data of
        JDict d \<Rightarrow>
          rbind (raise_if (\<not> set (dkeys d) \<subseteq> u ` {''protocol'', ''type'', ''id'', ''payload''})
                  (ProtocolError ''bad-envelope'')) (\<lambda>_.
          rbind (str_in (jget d ''protocol'') KNOWN_PROTOCOLS) (\<lambda>known.
          rbind (raise_if (\<not> known) (ProtocolError ''unknown-protocol'')) (\<lambda>_.
          rbind (str_in (jget d ''type'') MESSAGE_TYPES) (\<lambda>known.
          rbind (raise_if (\<not> known) (ProtocolError ''unknown-type'')) (\<lambda>_.
          rbind (check_message_id (jget d ''id'')) (\<lambda>_.
          case jget d ''payload'' of
            JNull \<Rightarrow> Inr ()
          | JDict _ \<Rightarrow> Inr ()
          | _ \<Rightarrow> Inl (ProtocolError ''bad-payload'')))))))
      | _ \<Rightarrow> Inl (ProtocolError ''bad-envelope''))"

definition bounded_text :: "json \<Rightarrow> nat \<Rightarrow> nat option \<Rightarrow> pystr result" where
  "bounded_text value maximum exact =
     (case value of
        JStr s \<Rightarrow>
          (case utf8_len s of
             None \<Rightarrow> Inl UnicodeEncodeError
           | Some sz \<Rightarrow>
               if sz = 0 \<or> sz > maximum \<or> (exact \<noteq> None \<and> Some sz \<noteq> exact)
               then Inl (ProtocolError ''bad-field'') else Inr s)
      | _ \<Rightarrow> Inl (ProtocolError ''bad-field''))"

definition hex_field :: "json \<Rightarrow> nat \<Rightarrow> bytes result" where
  "hex_field value byte_length =
     rbind (bounded_text value (byte_length * 2) (Some (byte_length * 2))) (\<lambda>text.
     case fromhex text of
       None \<Rightarrow> Inl (ProtocolError ''bad-field'')
     | Some decoded \<Rightarrow>
         if length decoded \<noteq> byte_length then Inl (ProtocolError ''bad-field'') else Inr decoded)"

definition v1_expected_protocol :: "pystr \<Rightarrow> pystr option" where
  "v1_expected_protocol t =
     map_of [(u ''HELLO'', protocol_version ''SESSION''),
             (u ''PROVE'', protocol_version ''SESSION''),
             (u ''PING'', protocol_version ''SESSION''),
             (u ''ATTACH_ROUTE'', protocol_version ''ROUTE''),
             (u ''DETACH_ROUTE'', protocol_version ''ROUTE''),
             (u ''DISCOVER'', protocol_version ''ROUTE''),
             (u ''SIGNAL'', protocol_version ''SIGNAL''),
             (u ''FORWARD'', protocol_version ''SIGNAL''),
             (u ''PUBLISH'', protocol_version ''SIGNAL'')] t"

definition valid_ttl :: "json \<Rightarrow> bool" where
  "valid_ttl ttl = (case ttl of JNull \<Rightarrow> True | JInt i \<Rightarrow> 0 \<le> i \<and> i \<le> 16 | _ \<Rightarrow> False)"

definition v1_payload_check :: "pystr \<Rightarrow> (pystr \<times> json) list \<Rightarrow> unit result" where
  "v1_payload_check t payload =
     (if t = u ''HELLO'' then
        if \<not> keys_are payload [''publicKeyHex''] then Inl (ProtocolError ''bad-payload'')
        else rbind (hex_field (jget payload ''publicKeyHex'') 65) (\<lambda>_. Inr ())
      else if t = u ''PROVE'' then
        if \<not> keys_are payload [''signatureHex''] then Inl (ProtocolError ''bad-payload'')
        else rbind (hex_field (jget payload ''signatureHex'') 64) (\<lambda>_. Inr ())
      else if t = u ''PING'' \<and> payload \<noteq> [] then Inl (ProtocolError ''bad-payload'')
      else if t \<in> u ` {''ATTACH_ROUTE'', ''DETACH_ROUTE'', ''DISCOVER'', ''SIGNAL'', ''FORWARD'', ''PUBLISH''} then
        rbind (bounded_text (jget payload ''routeId'') MAX_ROUTE_ID_BYTES None) (\<lambda>_.
        raise_if (t \<in> u ` {''ATTACH_ROUTE'', ''DETACH_ROUTE'', ''DISCOVER''} \<and>
                  \<not> keys_are payload [''routeId'']) (ProtocolError ''bad-payload''))
      else Inr ())"

definition validate_v1_message :: "json \<Rightarrow> unit result" where
  "validate_v1_message data =
     rbind (validate_envelope data) (\<lambda>_.
     case data of
       JDict d \<Rightarrow>
         (let payload = payload_of d;
              t = jstr (jget d ''type'');
              protocol = jstr (jget d ''protocol'')
          in rbind (raise_if
                 (case v1_expected_protocol t of
                    None \<Rightarrow> True
                  | Some e \<Rightarrow> protocol \<notin> {protocol_version ''DISCOVERY'', e})
                 (ProtocolError ''wrong-namespace'')) (\<lambda>_.
             rbind (v1_payload_check t payload) (\<lambda>_.
             raise_if (t \<in> u ` {''SIGNAL'', ''FORWARD'', ''PUBLISH''} \<and> \<not> valid_ttl (jget payload ''ttl''))
               (ProtocolError ''bad-ttl''))))
     | _ \<Rightarrow> Inl TypeError)"

definition v2_expected_protocol :: "pystr \<Rightarrow> pystr option" where
  "v2_expected_protocol t =
     map_of [(u ''HELLO'', protocol_version ''SESSION_V2''),
             (u ''PROVE'', protocol_version ''SESSION_V2''),
             (u ''PING'', protocol_version ''SESSION_V2''),
             (u ''ATTACH_ROUTE'', protocol_version ''ROUTE_V2''),
             (u ''DETACH_ROUTE'', protocol_version ''ROUTE_V2''),
             (u ''DISCOVER'', protocol_version ''ROUTE_V2''),
             (u ''SIGNAL'', protocol_version ''SIGNAL_V2'')] t"

definition SIGNAL_FIELDS :: "string list" where
  "SIGNAL_FIELDS =
     [''routeTag'', ''fromSessionId'', ''toSessionId'', ''messageId'', ''sequence'', ''expiresAt'',
      ''keyId'', ''senderKeyId'', ''senderIdentityKeyHex'', ''encHex'', ''ciphertextHex'', ''signatureHex'']"

definition is_int :: "json \<Rightarrow> bool" where
  "is_int v = (case v of JInt _ \<Rightarrow> True | _ \<Rightarrow> False)"

definition valid_sequence :: "json \<Rightarrow> bool" where
  "valid_sequence v = (case v of JInt i \<Rightarrow> 0 \<le> i \<and> i \<le> 0xFFFFFFFF | _ \<Rightarrow> False)"

text \<open>
  \<^verbatim>\<open>route_tag != route_tag.lower() or any(ch not in "0123456789abcdef" ...)\<close>: the second
  test alone decides, since lower-case hexadecimal digits are their own lower case.
\<close>

definition route_tag_field :: "json \<Rightarrow> unit result" where
  "route_tag_field value =
     rbind (bounded_text value 64 (Some 64)) (\<lambda>route_tag.
       raise_if (\<not> list_all is_lower_hex route_tag) (ProtocolError ''bad-route-tag''))"

definition v2_signal_check :: "(pystr \<times> json) list \<Rightarrow> unit result" where
  "v2_signal_check payload =
     rbind (raise_if (\<not> keys_are payload SIGNAL_FIELDS) (ProtocolError ''bad-payload'')) (\<lambda>_.
     rbind (bounded_text (jget payload ''toSessionId'') 64 None) (\<lambda>_.
     rbind (bounded_text (jget payload ''fromSessionId'') 64 None) (\<lambda>_.
     rbind (bounded_text (jget payload ''messageId'') 128 None) (\<lambda>_.
     rbind (bounded_text (jget payload ''keyId'') 128 None) (\<lambda>_.
     rbind (bounded_text (jget payload ''senderKeyId'') 64 (Some 64)) (\<lambda>_.
     rbind (hex_field (jget payload ''senderIdentityKeyHex'') 65) (\<lambda>_.
     rbind (hex_field (jget payload ''encHex'') 65) (\<lambda>_.
     rbind (hex_field (jget payload ''signatureHex'') 64) (\<lambda>_.
     rbind (bounded_text (jget payload ''ciphertextHex'') (96 * 1024) None) (\<lambda>ciphertext.
     rbind (raise_if (odd (length ciphertext)) (ProtocolError ''bad-field'')) (\<lambda>_.
     rbind (raise_if (fromhex ciphertext = None) (ProtocolError ''bad-field'')) (\<lambda>_.
     rbind (raise_if (\<not> valid_sequence (jget payload ''sequence'')) (ProtocolError ''bad-sequence'')) (\<lambda>_.
     raise_if (\<not> is_int (jget payload ''expiresAt'')) (ProtocolError ''bad-expiry''))))))))))))))"

definition v2_payload_check :: "pystr \<Rightarrow> (pystr \<times> json) list \<Rightarrow> unit result" where
  "v2_payload_check t payload =
     (if t = u ''HELLO'' then
        if \<not> keys_are payload [''grant'', ''identityKeyHex'', ''encryptionKeyHex'']
        then Inl (ProtocolError ''bad-payload'')
        else (case jget payload ''grant'' of
                JDict _ \<Rightarrow>
                  rbind (hex_field (jget payload ''identityKeyHex'') 65) (\<lambda>_.
                  rbind (hex_field (jget payload ''encryptionKeyHex'') 65) (\<lambda>_. Inr ()))
              | _ \<Rightarrow> Inl (ProtocolError ''bad-grant''))
      else if t = u ''PROVE'' then
        if \<not> keys_are payload [''signatureHex''] then Inl (ProtocolError ''bad-payload'')
        else rbind (hex_field (jget payload ''signatureHex'') 64) (\<lambda>_. Inr ())
      else if t = u ''PING'' \<and> payload \<noteq> [] then Inl (ProtocolError ''bad-payload'')
      else if t \<in> u ` {''ATTACH_ROUTE'', ''DETACH_ROUTE'', ''DISCOVER'', ''SIGNAL''} then
        route_tag_field (jget payload ''routeTag'')
      else Inr ())"

definition validate_v2_message :: "json \<Rightarrow> unit result" where
  "validate_v2_message data =
     rbind (validate_envelope data) (\<lambda>_.
     case data of
       JDict d \<Rightarrow>
         (let protocol = jstr (jget d ''protocol'');
              payload = payload_of d;
              t = jstr (jget d ''type'')
          in rbind (raise_if
                 (protocol \<notin> {protocol_version ''SESSION_V2'', protocol_version ''ROUTE_V2'',
                               protocol_version ''SIGNAL_V2''})
                 (ProtocolError ''wrong-version'')) (\<lambda>_.
             rbind (raise_if (v2_expected_protocol t = None \<or> Some protocol \<noteq> v2_expected_protocol t)
                 (ProtocolError ''wrong-namespace'')) (\<lambda>_.
             rbind (v2_payload_check t payload) (\<lambda>_.
             if t = u ''SIGNAL'' then v2_signal_check payload
             else raise_if (t \<in> u ` {''ATTACH_ROUTE'', ''DETACH_ROUTE'', ''DISCOVER''} \<and>
                            \<not> keys_are payload [''routeTag'']) (ProtocolError ''bad-payload'')))))
     | _ \<Rightarrow> Inl TypeError)"

text \<open>
  An \<^verbatim>\<open>ERROR\<close> frame; its \<^verbatim>\<open>message\<close> member, English text, is not modelled.
\<close>

definition make_error :: "string \<Rightarrow> json \<Rightarrow> json" where
  "make_error code in_reply_to =
     JDict [(u ''protocol'', JStr (protocol_version ''SESSION'')), (u ''type'', JStr (u ''ERROR'')),
            (u ''code'', JStr (u code)), (u ''inReplyTo'', in_reply_to)]"

section \<open>Fields\<close>

lemma bounded_text_Inr:
  "bounded_text v mx ex = Inr s \<longleftrightarrow>
   (\<exists>n. v = JStr s \<and> utf8_len s = Some n \<and> 0 < n \<and> n \<le> mx \<and> (ex = None \<or> ex = Some n))"
  by (cases v; cases ex) (auto simp: bounded_text_def split: option.splits if_splits)

text \<open>
  White space, which \<^verbatim>\<open>bytes.fromhex\<close> skips, cannot slip into a field: the byte count and the
  character count are both fixed.
\<close>

lemma hex_field_Inr:
  assumes "0 < n"
  shows "hex_field v n = Inr bs \<longleftrightarrow>
    (\<exists>s. v = JStr s \<and> length s = 2 * n \<and> list_all is_hex s \<and> fromhex s = Some bs)"
proof
  assume "hex_field v n = Inr bs"
  then obtain s where s: "v = JStr s" "utf8_len s = Some (2 * n)" "fromhex s = Some bs" "length bs = n"
    by (auto simp: hex_field_def rbind_eq_Inr bounded_text_Inr mult.commute split: option.splits if_splits)
  with fromhex_length [OF s(3)] length_le_utf8_len [OF s(2)] have "length s = 2 * n" by simp
  with s fromhex_exact [OF s(3)] show "\<exists>s. v = JStr s \<and> length s = 2 * n \<and> list_all is_hex s \<and> fromhex s = Some bs"
    by blast
next
  assume "\<exists>s. v = JStr s \<and> length s = 2 * n \<and> list_all is_hex s \<and> fromhex s = Some bs"
  then obtain s where s: "v = JStr s" "length s = 2 * n" "list_all is_hex s" "fromhex s = Some bs" by blast
  have "utf8_len s = Some (2 * n)"
    using s(2,3) utf8_len_ascii [of s] is_hex_ascii by (auto simp: list_all_iff)
  moreover have "length bs = n"
    using fromhex_all_hex [OF s(3)] s(2,4) by auto
  ultimately show "hex_field v n = Inr bs"
    using s assms by (simp add: hex_field_def bounded_text_def)
qed

section \<open>Which exceptions leave a validator\<close>

definition clean :: "json \<Rightarrow> bool" where
  "clean v \<longleftrightarrow> all_strings (\<lambda>s. utf8_len s \<noteq> None) v"

definition unhashable :: "json \<Rightarrow> bool" where
  "unhashable v = (case v of JList _ \<Rightarrow> True | JDict _ \<Rightarrow> True | _ \<Rightarrow> False)"

definition only_protocol :: "'a result \<Rightarrow> bool" where
  "only_protocol r \<longleftrightarrow> (\<forall>e. r = Inl e \<longrightarrow> (\<exists>c. e = ProtocolError c))"

named_theorems only_protocol_intros \<open>closure of the protocol-error discipline\<close>

lemma only_protocol_Inr [only_protocol_intros]: "only_protocol (Inr x)"
  and only_protocol_Inl [only_protocol_intros]: "only_protocol (Inl (ProtocolError c))"
  and only_protocol_raise_if [only_protocol_intros]: "only_protocol (raise_if b (ProtocolError c))"
  by (auto simp: only_protocol_def)

lemma only_protocol_rbind [only_protocol_intros]:
  "only_protocol m \<Longrightarrow> (\<And>x. m = Inr x \<Longrightarrow> only_protocol (f x)) \<Longrightarrow> only_protocol (rbind m f)"
  by (auto simp: only_protocol_def rbind_eq_Inl)

lemma only_protocol_if [only_protocol_intros]:
  "(b \<Longrightarrow> only_protocol x) \<Longrightarrow> (\<not> b \<Longrightarrow> only_protocol y) \<Longrightarrow> only_protocol (if b then x else y)"
  by simp

lemma clean_dget: "clean (JDict d) \<Longrightarrow> dget d k = Some v \<Longrightarrow> clean v"
  by (auto simp: clean_def list_all_iff dest!: map_of_SomeD)

lemma clean_jget: "clean (JDict d) \<Longrightarrow> clean (jget d k)"
  using clean_dget [of d "u k"] by (auto simp: jget_def clean_def split: option.splits)

lemma clean_payload: "clean (JDict d) \<Longrightarrow> clean (JDict (payload_of d))"
  using clean_jget [of d "''payload''"]
  by (auto simp: payload_of_def clean_def split: json.splits)

lemma only_protocol_bounded_text [only_protocol_intros]: "clean v \<Longrightarrow> only_protocol (bounded_text v mx ex)"
  by (cases v) (auto simp: only_protocol_def clean_def bounded_text_def split: option.splits)

lemma only_protocol_hex_field [only_protocol_intros]: "clean v \<Longrightarrow> only_protocol (hex_field v n)"
  unfolding hex_field_def
  by (intro only_protocol_intros) (auto simp: only_protocol_def split: option.splits)

lemma only_protocol_message_id [only_protocol_intros]: "clean v \<Longrightarrow> only_protocol (check_message_id v)"
  by (cases v) (auto simp: only_protocol_def clean_def check_message_id_def split: option.splits)

lemma only_protocol_route_tag [only_protocol_intros]: "clean v \<Longrightarrow> only_protocol (route_tag_field v)"
  unfolding route_tag_field_def by (intro only_protocol_intros)

lemma only_protocol_v1_payload: "clean (JDict p) \<Longrightarrow> only_protocol (v1_payload_check t p)"
  unfolding v1_payload_check_def by (intro only_protocol_intros clean_jget)

lemma only_protocol_v2_payload: "clean (JDict p) \<Longrightarrow> only_protocol (v2_payload_check t p)"
  unfolding v2_payload_check_def
  by (intro only_protocol_intros clean_jget)
    (auto split: json.splits intro!: only_protocol_intros clean_jget)

lemma only_protocol_v2_signal: "clean (JDict p) \<Longrightarrow> only_protocol (v2_signal_check p)"
  unfolding v2_signal_check_def by (intro only_protocol_intros clean_jget)

lemma str_in_Inl: "str_in v xs = Inl e \<longleftrightarrow> unhashable v \<and> e = TypeError"
  by (cases v) (auto simp: str_in_def unhashable_def)

lemma str_in_Inr: "str_in v xs = Inr b \<Longrightarrow> \<not> unhashable v \<and> (b \<longrightarrow> (\<exists>s \<in> set xs. v = JStr s))"
  by (cases v) (auto simp: str_in_def unhashable_def)

text \<open>The exact condition for the unexpected \<^verbatim>\<open>TypeError\<close>.\<close>

definition envelope_type_error :: "json \<Rightarrow> bool" where
  "envelope_type_error data =
     (case data of
        JDict d \<Rightarrow>
          set (dkeys d) \<subseteq> u ` {''protocol'', ''type'', ''id'', ''payload''} \<and>
          (unhashable (jget d ''protocol'') \<or>
           str_in (jget d ''protocol'') KNOWN_PROTOCOLS = Inr True \<and> unhashable (jget d ''type''))
      | _ \<Rightarrow> False)"

lemma validate_envelope_Inl:
  assumes "clean data" "validate_envelope data = Inl e"
  shows "if envelope_type_error data then e = TypeError else \<exists>c. e = ProtocolError c"
proof (cases data)
  case (JDict d)
  let ?keys = "set (dkeys d) \<subseteq> u ` {''protocol'', ''type'', ''id'', ''payload''}"
  have id: "only_protocol (check_message_id (jget d ''id''))"
    using assms(1) JDict by (intro only_protocol_message_id clean_jget) simp
  have tail: "only_protocol (case jget d ''payload'' of JNull \<Rightarrow> Inr () | JDict _ \<Rightarrow> Inr ()
      | _ \<Rightarrow> Inl (ProtocolError ''bad-payload''))"
    by (cases "jget d ''payload''") (simp_all add: only_protocol_def)
  have env: "envelope_type_error data \<longleftrightarrow> ?keys \<and> (unhashable (jget d ''protocol'') \<or>
      str_in (jget d ''protocol'') KNOWN_PROTOCOLS = Inr True \<and> unhashable (jget d ''type''))"
    by (simp add: JDict envelope_type_error_def)
  note def = assms(2) [unfolded JDict validate_envelope_def json.case]
  show ?thesis
  proof (cases "str_in (jget d ''protocol'') KNOWN_PROTOCOLS")
    case (Inl e')
    with def show ?thesis by (auto simp: env str_in_Inl raise_if_def split: if_splits)
  next
    case prot: (Inr known)
    then have hash: "\<not> unhashable (jget d ''protocol'')" using str_in_Inr by blast
    show ?thesis
    proof (cases "str_in (jget d ''type'') MESSAGE_TYPES")
      case (Inl e')
      with def prot hash show ?thesis by (auto simp: env str_in_Inl raise_if_def split: if_splits)
    next
      case (Inr known')
      then have "\<not> unhashable (jget d ''type'')" using str_in_Inr by blast
      with hash have "\<not> envelope_type_error data" by (simp add: env)
      moreover have "only_protocol (Inl e :: unit result)"
        unfolding def [symmetric] prot Inr rbind_simps
        by (intro only_protocol_intros id tail)
      ultimately show ?thesis by (simp add: only_protocol_def)
    qed
  qed
qed (use assms in \<open>auto simp: validate_envelope_def envelope_type_error_def\<close>)

lemma validate_envelope_Inr:
  assumes "validate_envelope data = Inr x"
  obtains d p t where "data = JDict d" "jget d ''protocol'' = JStr p" "p \<in> set KNOWN_PROTOCOLS"
    "jget d ''type'' = JStr t" "t \<in> set MESSAGE_TYPES" "\<not> envelope_type_error data"
    "jget d ''payload'' = JNull \<or> (\<exists>q. jget d ''payload'' = JDict q)"
proof (cases data)
  case (JDict d)
  then have "jget d ''payload'' = JNull \<or> (\<exists>q. jget d ''payload'' = JDict q)"
    "str_in (jget d ''protocol'') KNOWN_PROTOCOLS = Inr True"
    "str_in (jget d ''type'') MESSAGE_TYPES = Inr True"
    using assms by (auto simp: validate_envelope_def rbind_eq_Inr split: json.splits)
  with JDict that show ?thesis
    by (auto simp: envelope_type_error_def dest!: str_in_Inr)
qed (use assms in \<open>auto simp: validate_envelope_def\<close>)

lemma validate_v1_Inl:
  assumes "clean data" "validate_v1_message data = Inl e"
  shows "if envelope_type_error data then e = TypeError else \<exists>c. e = ProtocolError c"
proof (cases "validate_envelope data")
  case (Inl e')
  with assms validate_envelope_Inl [OF assms(1) Inl] show ?thesis
    by (simp add: validate_v1_message_def split: if_splits)
next
  case (Inr x)
  then obtain d where d: "data = JDict d" "\<not> envelope_type_error data"
    by (rule validate_envelope_Inr)
  have "only_protocol (validate_v1_message data)"
    unfolding validate_v1_message_def d(1) Inr [unfolded d(1)] rbind_simps json.case Let_def
    using assms(1) d(1) by (intro only_protocol_intros only_protocol_v1_payload clean_payload) simp_all
  with assms(2) d(2) show ?thesis by (simp add: only_protocol_def)
qed

lemma validate_v2_Inl:
  assumes "clean data" "validate_v2_message data = Inl e"
  shows "if envelope_type_error data then e = TypeError else \<exists>c. e = ProtocolError c"
proof (cases "validate_envelope data")
  case (Inl e')
  with assms validate_envelope_Inl [OF assms(1) Inl] show ?thesis
    by (simp add: validate_v2_message_def split: if_splits)
next
  case (Inr x)
  then obtain d where d: "data = JDict d" "\<not> envelope_type_error data"
    by (rule validate_envelope_Inr)
  have "only_protocol (validate_v2_message data)"
    unfolding validate_v2_message_def d(1) Inr [unfolded d(1)] rbind_simps json.case Let_def
    using assms(1) d(1)
    by (intro only_protocol_intros only_protocol_v2_payload only_protocol_v2_signal clean_payload) simp_all
  with assms(2) d(2) show ?thesis by (simp add: only_protocol_def)
qed

lemma all_strings_mono: "(\<And>s. P s \<Longrightarrow> Q s) \<Longrightarrow> all_strings P v \<Longrightarrow> all_strings Q v"
  by (induction P v rule: all_strings.induct) (auto simp: list_all_iff)

lemma string_fits_clean: "all_strings (string_fits S) v \<Longrightarrow> clean v"
  unfolding clean_def by (rule all_strings_mono) (auto simp: string_fits_def split: option.splits)

section \<open>Accepted messages\<close>

lemma protocol_version_simps [simp]:
  "protocol_version ''DISCOVERY'' = u ''particle-discovery/1''"
  "protocol_version ''SESSION'' = u ''particle-session/1''"
  "protocol_version ''ROUTE'' = u ''particle-route/1''"
  "protocol_version ''SIGNAL'' = u ''particle-signal/1''"
  "protocol_version ''SESSION_V2'' = u ''particle-session/2''"
  "protocol_version ''ROUTE_V2'' = u ''particle-route/2''"
  "protocol_version ''SIGNAL_V2'' = u ''particle-signal/2''"
  "protocol_version ''NODE'' = u ''particle-node/1''"
  by (simp_all add: protocol_version_def PROTOCOL_VERSIONS_def)

lemma v1_accepts_protocol:
  assumes "validate_v1_message (JDict d) = Inr x"
  shows "jstr (jget d ''protocol'') \<in> u ` {''particle-discovery/1'', ''particle-session/1'', ''particle-route/1'', ''particle-signal/1''}"
  using assms
  by (auto simp: validate_v1_message_def Let_def rbind_eq_Inr v1_expected_protocol_def
      split: option.splits if_splits)

lemma v2_accepts_protocol:
  assumes "validate_v2_message (JDict d) = Inr x"
  shows "jstr (jget d ''protocol'') \<in> u ` {''particle-session/2'', ''particle-route/2'', ''particle-signal/2''}"
  using assms
  by (auto simp: validate_v2_message_def Let_def rbind_eq_Inr)

lemma validated_JDict:
  "validate_v1_message data = Inr x \<Longrightarrow> \<exists>d. data = JDict d"
  "validate_v2_message data = Inr x \<Longrightarrow> \<exists>d. data = JDict d"
  by (auto simp: validate_v1_message_def validate_v2_message_def rbind_eq_Inr elim: validate_envelope_Inr)

lemma v1_validated:
  assumes "validate_v1_message (JDict d) = Inr x"
  obtains t where "jget d ''type'' = JStr t"
    "t \<in> u ` {''HELLO'', ''PROVE'', ''PING'', ''ATTACH_ROUTE'', ''DETACH_ROUTE'', ''DISCOVER'', ''SIGNAL'', ''FORWARD'', ''PUBLISH''}"
    "v1_payload_check t (payload_of d) = Inr ()"
    "t \<in> u ` {''SIGNAL'', ''FORWARD'', ''PUBLISH''} \<longrightarrow> valid_ttl (jget (payload_of d) ''ttl'')"
proof -
  from assms obtain y where "validate_envelope (JDict d) = Inr y"
    by (auto simp: validate_v1_message_def rbind_eq_Inr)
  then obtain t where t: "jget d ''type'' = JStr t" by (auto elim: validate_envelope_Inr)
  moreover from t assms have "v1_expected_protocol t \<noteq> None"
    by (auto simp: validate_v1_message_def Let_def rbind_eq_Inr jstr_def split: option.splits)
  ultimately show ?thesis
    using that assms
    by (auto simp: validate_v1_message_def Let_def rbind_eq_Inr jstr_def v1_expected_protocol_def
        split: if_splits)
qed

lemma v2_validated:
  assumes "validate_v2_message (JDict d) = Inr x"
  obtains t where "jget d ''type'' = JStr t"
    "t \<in> u ` {''HELLO'', ''PROVE'', ''PING'', ''ATTACH_ROUTE'', ''DETACH_ROUTE'', ''DISCOVER'', ''SIGNAL''}"
    "v2_payload_check t (payload_of d) = Inr ()"
    "t = u ''SIGNAL'' \<longrightarrow> v2_signal_check (payload_of d) = Inr ()"
proof -
  from assms obtain y where "validate_envelope (JDict d) = Inr y"
    by (auto simp: validate_v2_message_def rbind_eq_Inr)
  then obtain t where t: "jget d ''type'' = JStr t" by (auto elim: validate_envelope_Inr)
  moreover from t assms have "v2_expected_protocol t \<noteq> None"
    by (auto simp: validate_v2_message_def Let_def rbind_eq_Inr jstr_def)
  ultimately show ?thesis
    using that assms
    by (auto simp: validate_v2_message_def Let_def rbind_eq_Inr jstr_def v2_expected_protocol_def
        split: if_splits)
qed

lemma v1_routed_payload:
  assumes "v1_payload_check t p = Inr ()"
    "t \<in> u ` {''ATTACH_ROUTE'', ''DETACH_ROUTE'', ''DISCOVER'', ''SIGNAL'', ''FORWARD'', ''PUBLISH''}"
  shows "\<exists>r n. jget p ''routeId'' = JStr r \<and> utf8_len r = Some n \<and> 0 < n \<and> n \<le> 256"
  using assms
  by (auto simp: v1_payload_check_def rbind_eq_Inr bounded_text_Inr MAX_ROUTE_ID_BYTES_def split: if_splits)

lemma v2_routed_payload:
  assumes "v2_payload_check t p = Inr ()" "t \<in> u ` {''ATTACH_ROUTE'', ''DETACH_ROUTE'', ''DISCOVER'', ''SIGNAL''}"
  shows "\<exists>r. jget p ''routeTag'' = JStr r \<and> length r = 64 \<and> list_all is_lower_hex r"
proof -
  from assms obtain r where r: "jget p ''routeTag'' = JStr r" "utf8_len r = Some 64" "list_all is_lower_hex r"
    by (auto simp: v2_payload_check_def route_tag_field_def rbind_eq_Inr bounded_text_Inr split: if_splits)
  have "utf8_len r = Some (length r)"
    using r(3) is_lower_hex_imp_is_hex is_hex_ascii by (intro utf8_len_ascii) (auto simp: list_all_iff)
  with r show ?thesis by simp
qed

lemma disjoint_protocols:
  "u ` {''particle-discovery/1'', ''particle-session/1'', ''particle-route/1'', ''particle-signal/1''} \<inter>
   u ` {''particle-session/2'', ''particle-route/2'', ''particle-signal/2''} = {}"
  by auto

section \<open>Properties\<close>

text \<open>C36: On data whose strings encode (as the decoder guarantees) the validators of both versions
  raise nothing but \<^verbatim>\<open>ProtocolError\<close>, except a \<^verbatim>\<open>TypeError\<close> exactly when the
  envelope's protocol, or a known protocol's type, is a list or an object; what they accept is an
  object.\<close>

theorem validator_exceptions:
  assumes "clean data"
  shows "(case validate_v1_message data of
      Inl e \<Rightarrow> if envelope_type_error data then e = TypeError else (\<exists>code. e = ProtocolError code)
    | Inr _ \<Rightarrow> (\<exists>d. data = JDict d)) \<and>
    (case validate_v2_message data of
      Inl e \<Rightarrow> if envelope_type_error data then e = TypeError else (\<exists>code. e = ProtocolError code)
    | Inr _ \<Rightarrow> (\<exists>d. data = JDict d))"
proof
  show "case validate_v1_message data of
      Inl e \<Rightarrow> if envelope_type_error data then e = TypeError else (\<exists>code. e = ProtocolError code)
    | Inr _ \<Rightarrow> (\<exists>d. data = JDict d)"
    using validate_v1_Inl [OF assms] validated_JDict(1) by (cases "validate_v1_message data") auto
  show "case validate_v2_message data of
      Inl e \<Rightarrow> if envelope_type_error data then e = TypeError else (\<exists>code. e = ProtocolError code)
    | Inr _ \<Rightarrow> (\<exists>d. data = JDict d)"
    using validate_v2_Inl [OF assms] validated_JDict(2) by (cases "validate_v2_message data") auto
qed

theorem validator_exceptions_witness:
  "case validate_v1_message (JList []) of Inl e \<Rightarrow> \<exists>code. e = ProtocolError code | Inr _ \<Rightarrow> False"
  using validator_exceptions [of "JList []"]
  by (simp add: clean_def envelope_type_error_def split: sum.splits)

text \<open>No message is valid in both versions of the protocol, so a frame cannot be replayed from
  one endpoint to the other.\<close>

theorem versions_disjoint: "\<not> (validate_v1_message data = Inr () \<and> validate_v2_message data = Inr ())"
proof (rule notI, elim conjE)
  assume v: "validate_v1_message data = Inr ()" "validate_v2_message data = Inr ()"
  then obtain d where d: "data = JDict d" using validated_JDict(1) by blast
  from IntI [OF v1_accepts_protocol [OF v(1) [unfolded d]] v2_accepts_protocol [OF v(2) [unfolded d]]]
  show False unfolding disjoint_protocols by (rule emptyE)
qed

text \<open>A fixed-length hexadecimal field is accepted exactly when it is a string of \<open>2 * n\<close>
  hexadecimal digits, and gives their \<open>n\<close> bytes: no white space, sign or prefix that
  \<^verbatim>\<open>bytes.fromhex\<close> might tolerate gets through.\<close>

theorem hex_field_exact:
  assumes "0 < n"
  shows "hex_field v n = Inr bs \<longleftrightarrow>
    (\<exists>s. v = JStr s \<and> length s = 2 * n \<and> list_all is_hex s \<and> fromhex s = Some bs)"
  using assms by (rule hex_field_Inr)

theorem hex_field_exact_witness: "hex_field (JStr (u '' 0 0'')) 2 \<noteq> Inr [0, 0]"
  using hex_field_exact [of 2 "JStr (u '' 0 0'')" "[0, 0]"] by (simp add: u_def is_hex_def hexval_def)

text \<open>A message whose protocol is a list makes the validators raise \<^verbatim>\<open>TypeError\<close>: the
  membership test in a set of names needs a hashable value.\<close>

theorem unhashable_protocol_escapes:
  "validate_v1_message (JDict [(u ''protocol'', JList [])]) = Inl TypeError \<and>
   validate_v2_message (JDict [(u ''protocol'', JList [])]) = Inl TypeError"
  by (simp add: validate_v1_message_def validate_v2_message_def validate_envelope_def jget_def str_in_def raise_if_def)

end
