(* ===== verification/Session_Crypto.thy ===== *)
theory Session_Crypto
  imports Prelude
begin

text \<open>
  \<^verbatim>\<open>app/session_crypto.py\<close>: the proof of session-key possession. \<open>ec_verify key r s message\<close>
  stands for the \<^verbatim>\<open>cryptography\<close> package: whether encoding the pair \<open>(r, s)\<close>, loading the
  P-256 point and verifying the SHA-256 signature all return without raising.
\<close>

definition from_bytes_big :: "bytes \<Rightarrow> nat" where
  "from_bytes_big bs = foldl (\<lambda>n b. 256 * n + unat b) 0 bs"

definition verify_signature ::
  "(bytes \<Rightarrow> nat \<Rightarrow> nat \<Rightarrow> bytes \<Rightarrow> bool) \<Rightarrow> bytes \<Rightarrow> bytes \<Rightarrow> bytes \<Rightarrow> bool" where
  "verify_signature ec_verify public_key_raw message signature_raw =
     (if public_key_raw = [] \<or> signature_raw = [] \<or> length signature_raw \<noteq> 64 then False
      else ec_verify public_key_raw (from_bytes_big (take 32 signature_raw))
             (from_bytes_big (drop 32 signature_raw)) message)"

lemma verify_signature_length: "verify_signature ecv pk m sig \<Longrightarrow> length sig = 64 \<and> pk \<noteq> []"
  by (simp add: verify_signature_def split: if_splits)

lemma base256:
  fixes a a' x y :: nat
  assumes "256 * a + x = 256 * a' + y" "x < 256" "y < 256"
  shows "a = a'" "x = y"
proof -
  have "(256 * a + x) div 256 = a" "(256 * a' + y) div 256 = a'" using assms(2,3) by simp_all
  then show "a = a'" using assms(1) by simp
  then show "x = y" using assms(1) by simp
qed

lemma foldl_bytes_inj:
  "length xs = length ys \<Longrightarrow>
     foldl (\<lambda>n b. 256 * n + unat b) a (xs :: bytes) = foldl (\<lambda>n b. 256 * n + unat b) a' ys \<Longrightarrow> a = a' \<and> xs = ys"
proof (induction xs ys arbitrary: a a' rule: list_induct2)
  case (Cons x xs y ys)
  have e: "256 * a + unat x = 256 * a' + unat y" and t: "xs = ys"
    using Cons.IH [of "256 * a + unat x" "256 * a' + unat y"] Cons.prems by simp_all
  have "unat x < 256" "unat y < 256" using unsigned_less [of x] unsigned_less [of y] by simp_all
  note b = base256 [OF e this]
  have "x = y" using b(2) by (rule iffD2 [OF word_unat_eq_iff])
  with b(1) t show ?case by simp
qed simp

text \<open>The two halves determine the signature: no two byte strings share a pair \<open>(r, s)\<close>.\<close>

lemma from_bytes_big_inject: "length xs = length ys \<Longrightarrow> from_bytes_big xs = from_bytes_big ys \<longleftrightarrow> xs = ys"
  using foldl_bytes_inj [of xs ys 0 0] by (auto simp: from_bytes_big_def)

end
