(* ===== verification/V1_Routes.thy ===== *)
theory V1_Routes
  imports Hub_Dedupe Protocol Session_Crypto
begin

text \<open>
  \<^verbatim>\<open>app/routes.py\<close>: the V1 WebSocket endpoint. \<open>v1_open\<close> is the part before the receive
  loop, \<open>v1_frame\<close> one frame from its size check to the end of its handler. A handler returns
  the hub, the frames and closes it puts on sockets, and how the loop goes on; the deliveries of
  a relay (\<^verbatim>\<open>asyncio.gather\<close> over \<^verbatim>\<open>send_session\<close>) run as separate steps, since
  other connections run in between. The clock readings of one frame are one argument \<open>now\<close>;
  the random challenge is an argument.
\<close>

section \<open>Definitions\<close>

text \<open>Code outside the repository: float texts, SHA-256, the ECDSA verifier.\<close>

record prims =
  float_repr :: "real \<Rightarrow> pystr"
  sha256 :: "bytes \<Rightarrow> bytes"
  ec_verify :: "bytes \<Rightarrow> nat \<Rightarrow> nat \<Rightarrow> bytes \<Rightarrow> bool"

datatype loop_next = Continue | Break | RelayTo "pystr list" json | Raise exn

type_synonym outcome = "hub \<times> effect list \<times> loop_next"

abbreviation count :: "string \<Rightarrow> hub \<Rightarrow> hub" where
  "count name \<equiv> with_metrics (increment name)"

definition limit :: "real \<Rightarrow> pystr \<Rightarrow> string \<Rightarrow> hub \<Rightarrow> bool \<times> hub" where
  "limit now sid opn h =
     (case limiter_check now sid opn (rate_limiter h) of (ok, reg) \<Rightarrow> (ok, h\<lparr>rate_limiter := reg\<rparr>))"

text \<open>\<^verbatim>\<open>sub in s\<close> for strings\<close>

fun substring :: "pystr \<Rightarrow> pystr \<Rightarrow> bool" where
  "substring sub [] \<longleftrightarrow> sub = []"
| "substring sub (c # s) \<longleftrightarrow> take (length sub) (c # s) = sub \<or> substring sub s"

text \<open>
  \<open>allowed\<close> is what \<^verbatim>\<open>json.loads(config.allowed_origins_json)\<close> returns, \<open>None\<close> when it
  raises \<^verbatim>\<open>JSONDecodeError\<close>; \<^verbatim>\<open>origin in allowed\<close> is membership, key lookup or
  the substring test, by the type of \<open>allowed\<close>.
\<close>

definition origin_allowed :: "json option \<Rightarrow> pystr option \<Rightarrow> bool result" where
  "origin_allowed allowed origin =
     (case origin of
        None \<Rightarrow> Inr True
      | Some org \<Rightarrow>
          if org = [] then Inr True
          else case allowed of
                 None \<Rightarrow> Inr False
               | Some (JList xs) \<Rightarrow> Inr (JStr org \<in> set xs)
               | Some (JDict kvs) \<Rightarrow> Inr (org \<in> set (dkeys kvs))
               | Some (JStr s) \<Rightarrow> Inr (substring org s)
               | Some _ \<Rightarrow> Inl TypeError)"

datatype open_result = Rejected | Opened pystr real

definition v1_open ::
  "config \<Rightarrow> real \<Rightarrow> json option \<Rightarrow> pystr option \<Rightarrow> nat \<Rightarrow> pystr \<Rightarrow> hub
     \<Rightarrow> (hub \<times> effect list \<times> open_result) result" where
  "v1_open c now allowed origin w sid h =
     rbind (origin_allowed allowed origin) (\<lambda>ok.
       if \<not> ok then
         Inr (count ''origin_rejections'' h, [CloseSocket w 1008 ''origin not allowed''], Rejected)
       else if session_count h \<ge> max_concurrency c then Inr (h, [CloseSocket w 1013 ''''], Rejected)
       else Inr (create_session now w sid h, [], Opened sid (now + proof_deadline_seconds c)))"

definition send_error :: "nat \<Rightarrow> string \<Rightarrow> hub \<Rightarrow> outcome" where
  "send_error w code h = (h, [SendFrame w (make_error code JNull)], Continue)"

definition reply :: "nat \<Rightarrow> string \<Rightarrow> string \<Rightarrow> (pystr \<times> json) list \<Rightarrow> hub \<Rightarrow> outcome" where
  "reply w protocol t payload h =
     (h, [SendFrame w (JDict [(u ''protocol'', JStr (protocol_version protocol)), (u ''type'', JStr (u t)),
                              (u ''payload'', JDict payload)])], Continue)"

subsection \<open>Handlers\<close>

definition handle_hello :: "bytes \<Rightarrow> pystr \<Rightarrow> nat \<Rightarrow> (pystr \<times> json) list \<Rightarrow> session \<Rightarrow> hub \<Rightarrow> outcome" where
  "handle_hello chal sid w d sess h =
     (let public_key_hex = jstr (jget (payload_of d) ''publicKeyHex'');
          key = (if public_key_hex = [] then None else fromhex public_key_hex);
          sess' = sess\<lparr>challenge := Some chal, proven := False, public_key_raw := key\<rparr>
      in reply w ''SESSION'' ''HELLO''
           [(u ''sessionId'', JStr sid), (u ''challengeHex'', JStr (hex chal))] (set_session sid sess' h))"

definition handle_prove :: "prims \<Rightarrow> real \<Rightarrow> pystr \<Rightarrow> nat \<Rightarrow> (pystr \<times> json) list \<Rightarrow> session \<Rightarrow> hub \<Rightarrow> outcome" where
  "handle_prove P now sid w d sess h =
     (case limit now sid ''PROVE'' h of (ok, h1) \<Rightarrow>
        if \<not> ok then
          (count ''proof_rate_rejections'' h1,
           [SendFrame w (make_error ''rate-limited'' JNull), CloseSocket w 1008 ''proof attempt limit exceeded''],
           Continue)
        else
          let signature_hex = jstr (jget (payload_of d) ''signatureHex'')
          in case (challenge sess, public_key_raw sess) of
               (Some (c0 # cs), Some (p0 # ps)) \<Rightarrow>
                 if signature_hex = [] then send_error w ''prove-missing-fields'' h1
                 else (case fromhex signature_hex of
                         None \<Rightarrow> send_error w ''bad-signature-encoding'' h1
                       | Some signature \<Rightarrow>
                           if \<not> verify_signature (ec_verify P) (p0 # ps) (c0 # cs) signature
                           then send_error w ''prove-failed'' h1
                           else
                             let h2 = set_session sid (sess\<lparr>proven := True, challenge := None\<rparr>) h1;
                                 h3 = touch_heartbeat now sid (count ''proof_successes'' h2)
                             in reply w ''SESSION'' ''PROVE'' [(u ''ok'', JBool True)] h3)
             | _ \<Rightarrow> send_error w ''prove-missing-fields'' h1)"

definition handle_ping :: "real \<Rightarrow> pystr \<Rightarrow> nat \<Rightarrow> hub \<Rightarrow> outcome" where
  "handle_ping now sid w h =
     (case limit now sid ''HEARTBEAT'' h of (ok, h1) \<Rightarrow>
        if \<not> ok then send_error w ''rate-limited'' (count ''rate_rejections'' h1)
        else (touch_heartbeat now sid h1,
              [SendFrame w (JDict [(u ''protocol'', JStr (protocol_version ''SESSION'')),
                                   (u ''type'', JStr (u ''PONG''))])], Continue))"

definition handle_attach_route :: "config \<Rightarrow> real \<Rightarrow> pystr \<Rightarrow> nat \<Rightarrow> (pystr \<times> json) list \<Rightarrow> hub \<Rightarrow> outcome" where
  "handle_attach_route c now sid w d h =
     (case limit now sid ''ATTACH_ROUTE'' h of (ok, h1) \<Rightarrow>
        if \<not> ok then send_error w ''rate-limited'' h1
        else
          let route_id = jstr (jget (payload_of d) ''routeId'')
          in if route_id = [] then send_error w ''missing-routeId'' h1
             else (case attach_route c now sid route_id None (Some (max_v1_routes_per_session c)) h1 of
                     Inr h2 \<Rightarrow> reply w ''ROUTE'' ''ATTACH_ROUTE''
                                 [(u ''routeId'', JStr route_id), (u ''ok'', JBool True)] h2
                   | Inl (ValueError _) \<Rightarrow> send_error w ''too-many-routes'' h1
                   | Inl e \<Rightarrow> (h1, [], Raise e)))"

definition handle_detach_route :: "pystr \<Rightarrow> nat \<Rightarrow> (pystr \<times> json) list \<Rightarrow> hub \<Rightarrow> outcome" where
  "handle_detach_route sid w d h =
     (let route_id = jstr (jget (payload_of d) ''routeId'');
          h1 = (if route_id = [] then h else detach_route sid route_id h)
      in reply w ''ROUTE'' ''DETACH_ROUTE''
           [(u ''routeId'', jget (payload_of d) ''routeId''), (u ''ok'', JBool True)] h1)"

definition handle_discover :: "real \<Rightarrow> pystr \<Rightarrow> nat \<Rightarrow> (pystr \<times> json) list \<Rightarrow> hub \<Rightarrow> outcome" where
  "handle_discover now sid w d h =
     (case limit now sid ''DISCOVER'' h of (ok, h1) \<Rightarrow>
        if \<not> ok then send_error w ''rate-limited'' (count ''rate_rejections'' h1)
        else
          let route_id = jstr (jget (payload_of d) ''routeId'')
          in case dget (sessions h1) sid of
               None \<Rightarrow> (h1, [], Raise KeyError)
             | Some sess \<Rightarrow>
                 if route_id \<notin> set (sess_routes sess)
                 then send_error w ''not-attached'' (count ''route_authorization_rejections'' h1)
                 else
                   let peers = (if route_id = [] then [] else route_subscribers now route_id (Some sid) h1)
                   in reply w ''ROUTE'' ''PEERS''
                        [(u ''routeId'', JStr route_id), (u ''peers'', JList (map JStr (take 16 peers)))] h1)"

text \<open>\<^verbatim>\<open>isinstance(ttl, int)\<close>, which holds of booleans too.\<close>

definition int_value :: "json \<Rightarrow> int option" where
  "int_value v = (case v of JInt i \<Rightarrow> Some i | JBool b \<Rightarrow> Some (of_bool b) | _ \<Rightarrow> None)"

definition hop_exhausted :: "json \<Rightarrow> bool" where
  "hop_exhausted ttl = (case int_value ttl of None \<Rightarrow> False | Some i \<Rightarrow> i \<le> 0)"

text \<open>
  The parts of \<^verbatim>\<open>_handle_route_message\<close>: the key under which the message is remembered, its
  hop count, the frame the subscribers get, and the relay of a message that may be sent.
\<close>

definition v1_dedupe_key :: "prims \<Rightarrow> (pystr \<times> json) list \<Rightarrow> pystr \<Rightarrow> pystr \<Rightarrow> pystr result" where
  "v1_dedupe_key P payload route_id msg_type = content_hash_hex (float_repr P) (sha256 P)
     (JDict [(u ''routeId'', JStr route_id), (u ''type'', JStr msg_type), (u ''payload'', JDict payload)])"

definition v1_ttl :: "config \<Rightarrow> (pystr \<times> json) list \<Rightarrow> json" where
  "v1_ttl c payload = (case dget payload (u ''ttl'') of None \<Rightarrow> JInt (max_hops c) | Some v \<Rightarrow> v)"

definition v1_outgoing :: "config \<Rightarrow> (pystr \<times> json) list \<Rightarrow> json" where
  "v1_outgoing c d =
     (let payload = payload_of d; ttl = v1_ttl c payload
      in JDict (dset d (u ''payload'') (JDict (dset payload (u ''ttl'')
           (case int_value ttl of None \<Rightarrow> ttl | Some i \<Rightarrow> JInt (i - 1))))))"

definition v1_relay :: "config \<Rightarrow> real \<Rightarrow> pystr \<Rightarrow> (pystr \<times> json) list \<Rightarrow> pystr \<Rightarrow> pystr \<Rightarrow> hub \<Rightarrow> outcome" where
  "v1_relay c now sid d route_id dedupe_key h =
     (case check_and_mark_seen c now dedupe_key (dedupe_window_seconds c) h of (fresh, h1) \<Rightarrow>
        if \<not> fresh then (h1, [], Continue)
        else if hop_exhausted (v1_ttl c (payload_of d)) then (h1, [], Continue)
        else (h1, [], RelayTo (take (nat (max_fanout c)) (route_subscribers now route_id (Some sid) h1))
                        (v1_outgoing c d)))"

definition handle_route_message ::
  "prims \<Rightarrow> config \<Rightarrow> real \<Rightarrow> pystr \<Rightarrow> nat \<Rightarrow> (pystr \<times> json) list \<Rightarrow> pystr \<Rightarrow> hub \<Rightarrow> outcome" where
  "handle_route_message P c now sid w d msg_type h =
     (let opn = (if msg_type = u ''FORWARD'' then ''FORWARD'' else ''SIGNAL'')
      in case limit now sid opn h of (ok, h1) \<Rightarrow>
        if \<not> ok then send_error w ''rate-limited'' h1
        else
          let payload = payload_of d; route_id = jstr (jget payload ''routeId'')
          in if route_id = [] then send_error w ''missing-routeId'' h1
             else (case dget (sessions h1) sid of
                None \<Rightarrow> (h1, [], Raise KeyError)
              | Some sess \<Rightarrow>
                  if route_id \<notin> set (sess_routes sess)
                  then send_error w ''not-attached'' (count ''route_authorization_rejections'' h1)
                  else (case v1_dedupe_key P payload route_id msg_type of
                     Inl e \<Rightarrow> (h1, [], Raise e)
                   | Inr dedupe_key \<Rightarrow> v1_relay c now sid d route_id dedupe_key h1)))"

subsection \<open>One frame\<close>

definition v1_dispatch ::
  "prims \<Rightarrow> config \<Rightarrow> real \<Rightarrow> bytes \<Rightarrow> pystr \<Rightarrow> nat \<Rightarrow> (pystr \<times> json) list \<Rightarrow> session \<Rightarrow> hub \<Rightarrow> outcome" where
  "v1_dispatch P c now chal sid w d sess h =
     (let msg_type = jstr (jget d ''type'')
      in if \<not> proven sess \<and> msg_type \<notin> u ` {''HELLO'', ''PROVE'', ''PING''} then send_error w ''not-proven'' h
         else if msg_type = u ''HELLO'' then
           if challenge sess \<noteq> None \<or> proven sess then send_error w ''invalid-state'' h
           else handle_hello chal sid w d sess h
         else if msg_type = u ''PROVE'' then
           if proven sess \<or> challenge sess = None then send_error w ''invalid-state'' h
           else handle_prove P now sid w d sess h
         else if msg_type = u ''PING'' then handle_ping now sid w h
         else if msg_type = u ''ATTACH_ROUTE'' then handle_attach_route c now sid w d h
         else if msg_type = u ''DETACH_ROUTE'' then handle_detach_route sid w d h
         else if msg_type = u ''DISCOVER'' then handle_discover now sid w d h
         else if msg_type \<in> u ` {''SIGNAL'', ''FORWARD'', ''PUBLISH''}
         then handle_route_message P c now sid w d msg_type h
         else send_error w ''unsupported-type'' h)"

definition decode_v1 :: "config \<Rightarrow> pystr \<Rightarrow> json result" where
  "decode_v1 c raw =
     rbind (loads_strict (Text raw) (max_frame_bytes c) (max_json_depth c) (max_json_nodes c) (max_frame_bytes c))
       (\<lambda>data. rbind (validate_v1_message data) (\<lambda>_. Inr data))"

definition v1_message ::
  "prims \<Rightarrow> config \<Rightarrow> real \<Rightarrow> bytes \<Rightarrow> pystr \<Rightarrow> nat \<Rightarrow> pystr \<Rightarrow> hub \<Rightarrow> outcome" where
  "v1_message P c now chal sid w raw h =
     (case decode_v1 c raw of
        Inl (StrictJsonError _) \<Rightarrow> send_error w ''bad-json'' h
      | Inl (ProtocolError code) \<Rightarrow> send_error w code h
      | Inl e \<Rightarrow> (h, [], Raise e)
      | Inr data \<Rightarrow>
          (case dget (sessions h) sid of
             None \<Rightarrow> (h, [], Break)
           | Some sess \<Rightarrow>
               (case data of
                  JDict d \<Rightarrow> v1_dispatch P c now chal sid w d sess h
                | _ \<Rightarrow> (h, [], Raise TypeError))))"

definition v1_frame ::
  "prims \<Rightarrow> config \<Rightarrow> real \<Rightarrow> bytes \<Rightarrow> pystr \<Rightarrow> nat \<Rightarrow> pystr \<Rightarrow> hub \<Rightarrow> outcome" where
  "v1_frame P c now chal sid w raw h =
     (case utf8_len raw of
        None \<Rightarrow> (h, [], Raise UnicodeEncodeError)
      | Some n \<Rightarrow>
        if int n > max_frame_bytes c then send_error w ''frame-too-large'' h
        else (case limit now sid ''MESSAGE'' h of (ok, h1) \<Rightarrow>
          if \<not> ok then
            (count ''rate_rejections'' h1,
             [SendFrame w (make_error ''rate-limited'' JNull), CloseSocket w 1008 ''message rate exceeded''], Break)
          else (case try_consume now 1 (global_message_limiter h1) of (ok, bucket) \<Rightarrow>
            let h2 = h1\<lparr>global_message_limiter := bucket\<rparr>
            in if \<not> ok then
                 (count ''message_global_rate_rejections'' h2,
                  [SendFrame w (make_error ''capacity'' JNull), CloseSocket w 1013 ''global message capacity''], Break)
               else v1_message P c now chal sid w raw h2)))"

section \<open>What a handler can touch\<close>

lemma send_error_simps [simp]:
  "fst (send_error w code h) = h" "snd (snd (send_error w code h)) = Continue"
  by (simp_all add: send_error_def)

lemma reply_simps [simp]: "fst (reply w p t d h) = h" "snd (snd (reply w p t d h)) = Continue"
  by (simp_all add: reply_def)

lemma limit_simps [simp]:
  "sessions (snd (limit now sid opn h)) = sessions h" "routes (snd (limit now sid opn h)) = routes h"
  "seen (snd (limit now sid opn h)) = seen h"
  "outbound_queued_bytes (snd (limit now sid opn h)) = outbound_queued_bytes h"
  "global_message_limiter (snd (limit now sid opn h)) = global_message_limiter h"
  by (simp_all add: limit_def split: prod.splits)

lemma hub_inv_limit: "hub_inv c h \<Longrightarrow> hub_inv c (snd (limit now sid opn h))"
  using hub_inv_limiter [of c h now sid opn] by (simp add: limit_def case_prod_unfold)

lemma limit_subscribers [simp]:
  "route_subscribers t r ex (snd (limit now sid opn h)) = route_subscribers t r ex h"
  by (simp add: route_subscribers_def)

lemma touch_simps [simp]:
  "routes (touch_heartbeat now sid h) = routes h" "seen (touch_heartbeat now sid h) = seen h"
  by (simp_all add: touch_heartbeat_def split: option.split)

lemma touch_sessions:
  "dget (sessions (touch_heartbeat now sid h)) x =
     (if x = sid then map_option (\<lambda>s. s\<lparr>last_heartbeat := now\<rparr>) (dget (sessions h) sid) else dget (sessions h) x)"
  by (simp add: touch_heartbeat_def dget_dset split: option.split)

subsection \<open>The hub invariant\<close>

lemma hello_inv:
  assumes "hub_inv c h" "dget (sessions h) sid = Some s"
  shows "hub_inv c (fst (handle_hello chal sid w d s h))"
  using assms by (simp add: handle_hello_def Let_def hub_inv_set_session same_queue_def)

lemma prove_inv:
  assumes "hub_inv c h" "dget (sessions h) sid = Some s"
  shows "hub_inv c (fst (handle_prove P now sid w d s h))"
proof -
  let ?h1 = "snd (limit now sid ''PROVE'' h)"
  have 1: "hub_inv c ?h1" using assms(1) by (rule hub_inv_limit)
  then have "hub_inv c (set_session sid (s\<lparr>proven := True, challenge := None\<rparr>) ?h1)"
    using assms(2) by (intro hub_inv_set_session [of c ?h1 sid s]) (simp_all add: same_queue_def)
  then have "hub_inv c (touch_heartbeat now sid (count m (set_session sid (s\<lparr>proven := True, challenge := None\<rparr>) ?h1)))" for m
    by (intro hub_inv_touch) simp
  with 1 show ?thesis
    by (auto simp: handle_prove_def Let_def case_prod_unfold split: option.splits list.splits)
qed

lemma ping_inv: "hub_inv c h \<Longrightarrow> hub_inv c (fst (handle_ping now sid w h))"
  by (simp add: handle_ping_def case_prod_unfold hub_inv_limit hub_inv_touch)

lemma attach_inv:
  assumes "hub_inv c h"
  shows "hub_inv c (fst (handle_attach_route c now sid w d h))"
proof -
  have 1: "hub_inv c (snd (limit now sid ''ATTACH_ROUTE'' h))" using assms by (rule hub_inv_limit)
  then show ?thesis
    using hub_inv_attach [OF 1]
    by (auto simp: handle_attach_route_def Let_def case_prod_unfold split: sum.splits exn.splits)
qed

lemma detach_inv: "hub_inv c h \<Longrightarrow> hub_inv c (fst (handle_detach_route sid w d h))"
  by (simp add: handle_detach_route_def Let_def hub_inv_detach)

lemma discover_inv: "hub_inv c h \<Longrightarrow> hub_inv c (fst (handle_discover now sid w d h))"
  using hub_inv_limit [of c h now sid]
  by (auto simp: handle_discover_def Let_def case_prod_unfold split: option.splits)

lemma relay_inv: "hub_inv c h \<Longrightarrow> hub_inv c (fst (v1_relay c now sid d r k h))"
  using hub_inv_mark by (simp add: v1_relay_def case_prod_unfold)

lemma relay_sessions: "sessions (fst (v1_relay c now sid d r k h)) = sessions h"
  by (simp add: v1_relay_def case_prod_unfold)

lemma route_message_inv: "hub_inv c h \<Longrightarrow> hub_inv c (fst (handle_route_message P c now sid w d t h))"
  using hub_inv_limit [of c h now sid] relay_inv
  by (simp add: handle_route_message_def Let_def case_prod_unfold split: option.split sum.split)

lemma dispatch_inv:
  assumes "hub_inv c h" "dget (sessions h) sid = Some s"
  shows "hub_inv c (fst (v1_dispatch P c now chal sid w d s h))"
  using assms
  by (simp add: v1_dispatch_def Let_def hello_inv prove_inv ping_inv attach_inv detach_inv discover_inv route_message_inv)

lemma v1_message_inv: "hub_inv c h \<Longrightarrow> hub_inv c (fst (v1_message P c now chal sid w raw h))"
  using dispatch_inv
  by (simp add: v1_message_def split: option.split sum.split exn.split json.split)

text \<open>The hub after the two rate limiters have been asked.\<close>

definition charged :: "real \<Rightarrow> pystr \<Rightarrow> hub \<Rightarrow> hub" where
  "charged now sid h = (snd (limit now sid ''MESSAGE'' h))
      \<lparr>global_message_limiter := snd (try_consume now 1 (global_message_limiter h))\<rparr>"

lemma charged_simps [simp]:
  "sessions (charged now sid h) = sessions h" "routes (charged now sid h) = routes h"
  "seen (charged now sid h) = seen h" "outbound_queued_bytes (charged now sid h) = outbound_queued_bytes h"
  by (simp_all add: charged_def)

lemma charged_inv: "hub_inv c h \<Longrightarrow> hub_inv c (charged now sid h)"
  using hub_inv_global [OF hub_inv_limit [of c h now sid "''MESSAGE''"], of now] by (simp add: charged_def)

lemma v1_frame_eq:
  "v1_frame P c now chal sid w raw h =
     (case utf8_len raw of
        None \<Rightarrow> (h, [], Raise UnicodeEncodeError)
      | Some n \<Rightarrow>
        if int n > max_frame_bytes c then send_error w ''frame-too-large'' h
        else if \<not> fst (limit now sid ''MESSAGE'' h) then
          (count ''rate_rejections'' (snd (limit now sid ''MESSAGE'' h)),
           [SendFrame w (make_error ''rate-limited'' JNull), CloseSocket w 1008 ''message rate exceeded''], Break)
        else if \<not> fst (try_consume now 1 (global_message_limiter h)) then
          (count ''message_global_rate_rejections'' (charged now sid h),
           [SendFrame w (make_error ''capacity'' JNull), CloseSocket w 1013 ''global message capacity''], Break)
        else v1_message P c now chal sid w raw (charged now sid h))"
  unfolding v1_frame_def charged_def Let_def case_prod_unfold limit_simps by (rule refl)

lemma v1_frame_inv: "hub_inv c h \<Longrightarrow> hub_inv c (fst (v1_frame P c now chal sid w raw h))"
  using charged_inv v1_message_inv hub_inv_limit
  by (simp add: v1_frame_eq del: try_consume_simps split: option.split)

subsection \<open>What a frame does to its session\<close>

datatype session_move =
    Stays
  | Hello bytes "bytes option"
  | Proves bytes bytes bytes real
  | Beats real
  | Attaches pystr
  | Detaches pystr

fun apply_move :: "session_move \<Rightarrow> session \<Rightarrow> session" where
  "apply_move Stays s = s"
| "apply_move (Hello chal key) s = s\<lparr>challenge := Some chal, proven := False, public_key_raw := key\<rparr>"
| "apply_move (Proves key chal sig now) s = s\<lparr>proven := True, challenge := None, last_heartbeat := now\<rparr>"
| "apply_move (Beats now) s = s\<lparr>last_heartbeat := now\<rparr>"
| "apply_move (Attaches rid) s = s\<lparr>sess_routes := List.insert rid (sess_routes s)\<rparr>"
| "apply_move (Detaches rid) s = s\<lparr>sess_routes := removeAll rid (sess_routes s)\<rparr>"

text \<open>When a move is allowed: the guards of the state machine of a session.\<close>

fun move_ok :: "prims \<Rightarrow> config \<Rightarrow> session \<Rightarrow> session_move \<Rightarrow> bool" where
  "move_ok P c s Stays \<longleftrightarrow> True"
| "move_ok P c s (Hello chal key) \<longleftrightarrow> \<not> proven s \<and> challenge s = None"
| "move_ok P c s (Proves key chal sig now) \<longleftrightarrow> \<not> proven s \<and> challenge s = Some chal \<and>
     public_key_raw s = Some key \<and> verify_signature (ec_verify P) key chal sig"
| "move_ok P c s (Beats now) \<longleftrightarrow> True"
| "move_ok P c s (Attaches rid) \<longleftrightarrow> proven s \<and>
     (rid \<in> set (sess_routes s) \<or> int (length (sess_routes s)) < max_v1_routes_per_session c)"
| "move_ok P c s (Detaches rid) \<longleftrightarrow> proven s"

definition moved :: "prims \<Rightarrow> config \<Rightarrow> pystr \<Rightarrow> session \<Rightarrow> hub \<Rightarrow> hub \<Rightarrow> bool" where
  "moved P c sid s h h' \<longleftrightarrow>
     (\<exists>m. move_ok P c s m \<and> dget (sessions h') sid = Some (apply_move m s)) \<and>
     (\<forall>x. x \<noteq> sid \<longrightarrow> dget (sessions h') x = dget (sessions h) x)"

lemma movedI:
  "move_ok P c s m \<Longrightarrow> dget (sessions h') sid = Some (apply_move m s) \<Longrightarrow>
   (\<And>x. x \<noteq> sid \<Longrightarrow> dget (sessions h') x = dget (sessions h) x) \<Longrightarrow> moved P c sid s h h'"
  unfolding moved_def by blast

lemma moved_stays: "dget (sessions h) sid = Some s \<Longrightarrow> sessions h' = sessions h \<Longrightarrow> moved P c sid s h h'"
  by (rule movedI [of _ _ _ Stays]) simp_all

lemma hello_moved:
  assumes "\<not> proven s" "challenge s = None"
  shows "moved P c sid s h (fst (handle_hello chal sid w d s h))"
  unfolding handle_hello_def Let_def
  by (rule movedI, rule iffD2 [OF move_ok.simps(2)], use assms in simp)
    (simp_all add: dget_dset)

lemma prove_cases:
  assumes "dget (sessions h) sid = Some s"
  shows "sessions (fst (handle_prove P now sid w d s h)) = sessions h \<or>
    (\<exists>key chal sig. challenge s = Some chal \<and> public_key_raw s = Some key \<and>
       fromhex (jstr (jget (payload_of d) ''signatureHex'')) = Some sig \<and>
       verify_signature (ec_verify P) key chal sig \<and>
       (\<forall>x. dget (sessions (fst (handle_prove P now sid w d s h))) x =
          (if x = sid then Some (s\<lparr>proven := True, challenge := None, last_heartbeat := now\<rparr>)
           else dget (sessions h) x)))"
  using assms
  by (auto simp: handle_prove_def Let_def case_prod_unfold touch_sessions dget_dset
      split: option.splits list.splits if_splits)

lemma prove_moved:
  assumes "dget (sessions h) sid = Some s" "\<not> proven s"
  shows "moved P c sid s h (fst (handle_prove P now sid w d s h))"
  using prove_cases [OF assms(1), of P now w d]
proof (elim disjE exE conjE)
  fix key chal sig
  assume *: "challenge s = Some chal" "public_key_raw s = Some key" "verify_signature (ec_verify P) key chal sig"
    "\<forall>x. dget (sessions (fst (handle_prove P now sid w d s h))) x =
       (if x = sid then Some (s\<lparr>proven := True, challenge := None, last_heartbeat := now\<rparr>) else dget (sessions h) x)"
  show ?thesis
    by (rule movedI [of _ _ _ "Proves key chal sig now"]) (use * assms(2) in simp_all)
qed (rule moved_stays [OF assms(1)])

lemma ping_moved:
  assumes "dget (sessions h) sid = Some s"
  shows "moved P c sid s h (fst (handle_ping now sid w h))"
proof (cases "fst (limit now sid ''HEARTBEAT'' h)")
  case True
  show ?thesis
    by (rule movedI [of _ _ _ "Beats now"])
      (use True assms in \<open>simp_all add: handle_ping_def case_prod_unfold touch_sessions\<close>)
next
  case False
  then show ?thesis
    by (intro moved_stays [OF assms]) (simp add: handle_ping_def case_prod_unfold)
qed

lemma attach_moved:
  assumes "dget (sessions h) sid = Some s" "proven s"
  shows "moved P c sid s h (fst (handle_attach_route c now sid w d h))"
proof -
  let ?h1 = "snd (limit now sid ''ATTACH_ROUTE'' h)" and ?r = "jstr (jget (payload_of d) ''routeId'')"
  let ?a = "attach_route c now sid ?r None (Some (max_v1_routes_per_session c)) ?h1"
  have "sessions (fst (handle_attach_route c now sid w d h)) = sessions h \<or>
      (\<exists>h2. ?a = Inr h2 \<and> fst (handle_attach_route c now sid w d h) = h2)"
    by (cases ?a) (simp_all add: handle_attach_route_def Let_def case_prod_unfold split: exn.split)
  then consider "sessions (fst (handle_attach_route c now sid w d h)) = sessions h"
    | h2 where "?a = Inr h2" "fst (handle_attach_route c now sid w d h) = h2" by blast
  then show ?thesis
  proof cases
    case 1
    then show ?thesis by (rule moved_stays [OF assms(1)])
  next
    case (2 h2)
    show ?thesis
      using 2(1)
      by (rule attach_route_cases, intro movedI [of _ _ _ "Attaches ?r"])
        (use 2(2) assms in \<open>auto simp: dget_dset\<close>)
  qed
qed

lemma detach_moved:
  assumes "dget (sessions h) sid = Some s" "proven s"
  shows "moved P c sid s h (fst (handle_detach_route sid w d h))"
proof (cases "jstr (jget (payload_of d) ''routeId'') = []")
  case True
  then show ?thesis by (intro moved_stays [OF assms(1)]) (simp add: handle_detach_route_def Let_def)
next
  case False
  then show ?thesis
    using assms by (intro movedI [of _ _ _ "Detaches (jstr (jget (payload_of d) ''routeId''))"])
      (simp_all add: handle_detach_route_def Let_def sessions_detach)
qed

lemma discover_sessions: "sessions (fst (handle_discover now sid w d h)) = sessions h"
  by (simp add: handle_discover_def Let_def case_prod_unfold split: option.split)

lemma route_message_sessions: "sessions (fst (handle_route_message P c now sid w d t h)) = sessions h"
  by (simp add: handle_route_message_def Let_def case_prod_unfold relay_sessions split: option.split sum.split)

lemma dispatch_moved:
  assumes "dget (sessions h) sid = Some s"
  shows "moved P c sid s h (fst (v1_dispatch P c now chal sid w d s h))"
  using assms moved_stays [OF assms]
  by (auto simp: v1_dispatch_def Let_def hello_moved prove_moved ping_moved attach_moved detach_moved
      discover_sessions route_message_sessions)

lemma moved_cong: "sessions h1 = sessions h \<Longrightarrow> moved P c sid s h1 h' = moved P c sid s h h'"
  by (simp add: moved_def)

definition quiet :: "hub \<Rightarrow> outcome \<Rightarrow> bool" where
  "quiet h r \<longleftrightarrow> sessions (fst r) = sessions h \<and> routes (fst r) = routes h \<and> seen (fst r) = seen h \<and>
     (\<forall>xs out. snd (snd r) \<noteq> RelayTo xs out)"

lemma quiet_send_error [simp]: "quiet h (send_error w code h') = quiet h (h', [], Continue)"
  by (simp add: quiet_def)

text \<open>A frame is rejected before its handler, leaving all tables alone, or dispatched.\<close>

lemma v1_message_quiet:
  "quiet h (v1_message P c now chal sid w raw h) \<or>
    (\<exists>s d. dget (sessions h) sid = Some s \<and> decode_v1 c raw = Inr (JDict d) \<and>
       v1_message P c now chal sid w raw h = v1_dispatch P c now chal sid w d s h)"
proof (cases "decode_v1 c raw")
  case (Inl e)
  then show ?thesis by (cases e) (simp_all add: v1_message_def quiet_def)
next
  case (Inr data)
  then show ?thesis
    by (cases "dget (sessions h) sid"; cases data) (simp_all add: v1_message_def quiet_def)
qed

lemma v1_frame_cases:
  obtains "quiet h (v1_frame P c now chal sid w raw h)"
    | s d where "dget (sessions h) sid = Some s" "decode_v1 c raw = Inr (JDict d)"
      "v1_frame P c now chal sid w raw h = v1_dispatch P c now chal sid w d s (charged now sid h)"
proof (cases "v1_frame P c now chal sid w raw h = v1_message P c now chal sid w raw (charged now sid h)")
  case True
  then show ?thesis
    using v1_message_quiet [of "charged now sid h" P c now chal sid w raw] that by (auto simp: quiet_def)
next
  case False
  then have "quiet h (v1_frame P c now chal sid w raw h)"
    by (simp add: v1_frame_eq quiet_def del: try_consume_simps split: option.splits if_splits)
  then show ?thesis by (rule that(1))
qed

lemma v1_frame_moved:
  assumes "dget (sessions h) sid = Some s"
  shows "moved P c sid s h (fst (v1_frame P c now chal sid w raw h))"
proof (rule v1_frame_cases [of h P c now chal sid w raw])
  fix t d
  assume "dget (sessions h) sid = Some t"
    "v1_frame P c now chal sid w raw h = v1_dispatch P c now chal sid w d t (charged now sid h)"
  then show ?thesis
    using dispatch_moved [of "charged now sid h" sid s P c now chal w d] moved_cong [of "charged now sid h" h] assms
    by simp
qed (rule moved_stays [OF assms], simp add: quiet_def)

lemma v1_frame_gone:
  assumes "dget (sessions h) sid = None"
  shows "sessions (fst (v1_frame P c now chal sid w raw h)) = sessions h"
  by (rule v1_frame_cases [of h P c now chal sid w raw]) (use assms in \<open>simp_all add: quiet_def\<close>)

end
