(* ===== verification/V1_Relay.thy ===== *)
theory V1_Relay
  imports V1_Routes
begin

text \<open>
  What the V1 endpoint relays, to whom, and which exceptions can end a connection: the facts about
  a single frame that the properties of whole runs rest on.
\<close>

section \<open>Relaying\<close>

abbreviation msg_type :: "(pystr \<times> json) list \<Rightarrow> pystr" where
  "msg_type d \<equiv> jstr (jget d ''type'')"

abbreviation route_of :: "(pystr \<times> json) list \<Rightarrow> pystr" where
  "route_of d \<equiv> jstr (jget (payload_of d) ''routeId'')"

lemma mark_seen_cong:
  assumes "seen h1 = seen h"
  shows "fst (check_and_mark_seen c now k ttl h1) = fst (check_and_mark_seen c now k ttl h)"
    "seen (snd (check_and_mark_seen c now k ttl h1)) = seen (snd (check_and_mark_seen c now k ttl h))"
  using assms by (auto simp: check_and_mark_seen_def prune_dedupe_def Let_def)

text \<open>What has been checked when a frame \<open>d\<close> of session \<open>sid\<close> is relayed to \<open>subs\<close>.\<close>

definition relayed ::
  "prims \<Rightarrow> config \<Rightarrow> real \<Rightarrow> pystr \<Rightarrow> hub \<Rightarrow> session \<Rightarrow> (pystr \<times> json) list \<Rightarrow> pystr \<Rightarrow> pystr list \<Rightarrow> bool" where
  "relayed P c now sid h s d key subs \<longleftrightarrow>
     dget (sessions h) sid = Some s \<and> proven s \<and>
     msg_type d \<in> u ` {''SIGNAL'', ''FORWARD'', ''PUBLISH''} \<and> route_of d \<in> set (sess_routes s) \<and>
     v1_dedupe_key P (payload_of d) (route_of d) (msg_type d) = Inr key \<and>
     fst (check_and_mark_seen c now key (dedupe_window_seconds c) h) \<and>
     \<not> hop_exhausted (v1_ttl c (payload_of d)) \<and>
     subs = take (nat (max_fanout c)) (route_subscribers now (route_of d) (Some sid) h)"

lemma subscribers_cong: "routes h1 = routes h \<Longrightarrow> route_subscribers t r ex h1 = route_subscribers t r ex h"
  by (simp add: route_subscribers_def)

lemma relay_RelayTo:
  assumes "v1_relay c now sid d r key h = (h', effs, RelayTo subs out)"
  shows "fst (check_and_mark_seen c now key (dedupe_window_seconds c) h)"
    "h' = snd (check_and_mark_seen c now key (dedupe_window_seconds c) h)"
    "\<not> hop_exhausted (v1_ttl c (payload_of d))"
    "subs = take (nat (max_fanout c)) (route_subscribers now r (Some sid) h)" "out = v1_outgoing c d"
  using assms subscribers_cong [of "snd (check_and_mark_seen c now key (dedupe_window_seconds c) h)" h]
  by (auto simp: v1_relay_def case_prod_unfold split: if_splits)

lemma route_message_relay:
  assumes "handle_route_message P c now sid w d (msg_type d) h = (h', effs, RelayTo subs out)"
    and s: "dget (sessions h) sid = Some s" "proven s" "msg_type d \<in> u ` {''SIGNAL'', ''FORWARD'', ''PUBLISH''}"
  obtains key where "relayed P c now sid h s d key subs" "out = v1_outgoing c d"
    "seen h' = seen (snd (check_and_mark_seen c now key (dedupe_window_seconds c) h))"
proof -
  let ?h1 = "snd (limit now sid (if msg_type d = u ''FORWARD'' then ''FORWARD'' else ''SIGNAL'') h)"
  have "\<exists>key. v1_dedupe_key P (payload_of d) (route_of d) (msg_type d) = Inr key \<and> route_of d \<in> set (sess_routes s) \<and>
      v1_relay c now sid d (route_of d) key ?h1 = (h', effs, RelayTo subs out)"
    using assms(1) s(1)
    by (simp add: handle_route_message_def Let_def case_prod_unfold send_error_def split: if_splits sum.splits)
  then obtain key where key: "v1_dedupe_key P (payload_of d) (route_of d) (msg_type d) = Inr key"
      "route_of d \<in> set (sess_routes s)" and
    r: "v1_relay c now sid d (route_of d) key ?h1 = (h', effs, RelayTo subs out)" by blast
  have "seen ?h1 = seen h" by simp
  note m = mark_seen_cong [OF this, of c now key "dedupe_window_seconds c"]
  show ?thesis
    using relay_RelayTo [OF r] key s m by (intro that [of key]) (simp_all add: relayed_def)
qed

lemma dispatch_relay:
  assumes "v1_dispatch P c now chal sid w d s h = (h', effs, RelayTo subs out)" "dget (sessions h) sid = Some s"
  obtains key where "relayed P c now sid h s d key subs" "out = v1_outgoing c d"
    "seen h' = seen (snd (check_and_mark_seen c now key (dedupe_window_seconds c) h))"
proof -
  have no: "snd (snd (handle_hello chal sid w d s h)) \<noteq> RelayTo subs out"
    "snd (snd (handle_prove P now sid w d s h)) \<noteq> RelayTo subs out"
    "snd (snd (handle_ping now sid w h)) \<noteq> RelayTo subs out"
    "snd (snd (handle_attach_route c now sid w d h)) \<noteq> RelayTo subs out"
    "snd (snd (handle_detach_route sid w d h)) \<noteq> RelayTo subs out"
    "snd (snd (handle_discover now sid w d h)) \<noteq> RelayTo subs out"
    "snd (snd (send_error w e h)) \<noteq> RelayTo subs out" for e
    by (simp_all add: handle_hello_def handle_prove_def handle_ping_def handle_attach_route_def
        handle_detach_route_def handle_discover_def Let_def case_prod_unfold
        split: option.split list.split sum.split exn.split)
  then have "proven s \<and> msg_type d \<in> u ` {''SIGNAL'', ''FORWARD'', ''PUBLISH''} \<and>
      handle_route_message P c now sid w d (msg_type d) h = (h', effs, RelayTo subs out)"
    using assms(1) unfolding v1_dispatch_def Let_def by (auto simp: send_error_def split: if_splits)
  then show ?thesis using route_message_relay that assms(2) by blast
qed

lemma v1_frame_relay:
  assumes "v1_frame P c now chal sid w raw h = (h', effs, RelayTo subs out)"
  obtains s d key where "decode_v1 c raw = Inr (JDict d)" "relayed P c now sid h s d key subs"
    "out = v1_outgoing c d" "seen h' = seen (snd (check_and_mark_seen c now key (dedupe_window_seconds c) h))"
proof (rule v1_frame_cases [of h P c now chal sid w raw])
  fix s d
  assume *: "dget (sessions h) sid = Some s" "decode_v1 c raw = Inr (JDict d)"
    "v1_frame P c now chal sid w raw h = v1_dispatch P c now chal sid w d s (charged now sid h)"
  let ?h = "charged now sid h"
  obtain key where k: "relayed P c now sid ?h s d key subs" "out = v1_outgoing c d"
    "seen h' = seen (snd (check_and_mark_seen c now key (dedupe_window_seconds c) ?h))"
    using *(1,3) assms by (metis dispatch_relay charged_simps(1))
  have "seen ?h = seen h" "routes ?h = routes h" by simp_all
  note m = mark_seen_cong [OF this(1)] subscribers_cong [OF this(2)]
  show ?thesis using that [OF *(2), of s key] k m by (simp add: relayed_def)
qed (use assms in \<open>simp add: quiet_def\<close>)

section \<open>The replay cache\<close>

lemma relay_seen:
  assumes "hub_inv c h" "dget (seen h) k = Some e" "now < e"
  shows "dget (seen (fst (v1_relay c now sid d r key h))) k = Some e"
  using dedupe.mark_keeps [OF hub_invD(3) [OF assms(1)] assms(2,3)]
  by (simp add: v1_relay_def case_prod_unfold)

lemma attach_seen: "seen (fst (handle_attach_route c now sid w d h)) = seen h"
proof -
  let ?h1 = "snd (limit now sid ''ATTACH_ROUTE'' h)"
  have "attach_route c now sid r ttl mx ?h1 = Inr h' \<Longrightarrow> seen h' = seen h" for r ttl mx h'
    by (erule attach_route_cases) simp
  then show ?thesis
    by (simp add: handle_attach_route_def Let_def case_prod_unfold split: sum.split exn.split)
qed

lemma handlers_seen:
  "seen (fst (handle_hello chal sid w d s h)) = seen h"
  "seen (fst (handle_prove P now sid w d s h)) = seen h"
  "seen (fst (handle_ping now sid w h)) = seen h"
  "seen (fst (handle_detach_route sid w d h)) = seen h"
  "seen (fst (handle_discover now sid w d h)) = seen h"
  by (simp_all add: handle_hello_def handle_prove_def handle_ping_def handle_detach_route_def
      handle_discover_def Let_def case_prod_unfold split: option.split list.split)

lemma route_message_seen:
  assumes "hub_inv c h" "dget (seen h) k = Some e" "now < e"
  shows "dget (seen (fst (handle_route_message P c now sid w d t h))) k = Some e"
proof -
  have "dget (seen (fst (v1_relay c now sid d r key (snd (limit now sid opn h))))) k = Some e" for r key opn
    using assms by (intro relay_seen) (simp_all add: hub_inv_limit)
  then show ?thesis
    using assms(2) by (simp add: handle_route_message_def Let_def case_prod_unfold split: option.split sum.split)
qed

lemma dispatch_seen:
  assumes "hub_inv c h" "dget (seen h) k = Some e" "now < e"
  shows "dget (seen (fst (v1_dispatch P c now chal sid w d s h))) k = Some e"
  using assms(2) route_message_seen [OF assms]
  unfolding v1_dispatch_def Let_def by (simp add: attach_seen handlers_seen)

lemma v1_frame_seen:
  assumes "hub_inv c h" "dget (seen h) k = Some e" "now < e"
  shows "dget (seen (fst (v1_frame P c now chal sid w raw h))) k = Some e"
proof (rule v1_frame_cases [of h P c now chal sid w raw])
  fix s d
  assume "v1_frame P c now chal sid w raw h = v1_dispatch P c now chal sid w d s (charged now sid h)"
  moreover have "dget (seen (charged now sid h)) k = Some e" using assms(2) by simp
  ultimately show ?thesis
    using dispatch_seen [OF charged_inv [OF assms(1)] _ assms(3)] by simp
qed (use assms in \<open>simp add: quiet_def\<close>)

end
