(* ===== verification/V1_System.thy ===== *)
theory V1_System
  imports V1_Relay
begin

text \<open>
  The V1 endpoint as a whole: any number of connections, each at a point of its receive loop, share
  one hub with the writers of the outbound queues and with the cleanup loop. A step is one
  uninterrupted piece of a coroutine. The invariant of the hub, the session limit and the rule
  that only proven sessions hold routes are shown to survive every step; \<open>Server\<close> composes these
  steps with those of the V2 endpoint and the node mesh.
\<close>

section \<open>Connections\<close>

text \<open>
  \<open>LoopTop\<close> is the start of a turn of the loop, \<open>Receiving timed\<close> waits for a frame (with the
  proof deadline as a time-out when \<open>timed\<close>), \<open>Relaying\<close> waits for the deliveries of a relay,
  \<open>Leaving\<close> is about to run the \<^verbatim>\<open>finally\<close> clause.
\<close>

datatype phase = LoopTop | Receiving bool | Relaying "pystr list" json nat | Leaving

record conn =
  conn_sid :: pystr
  conn_deadline :: real
  conn_phase :: phase

record v1_state =
  v1_hub :: hub
  conns :: "(nat, conn) dict"
  clock :: real

definition proof_timeout :: "nat \<Rightarrow> hub \<Rightarrow> hub \<times> effect list" where
  "proof_timeout w h =
     (count ''proof_timeouts'' h,
      [SendFrame w (make_error ''proof-timeout'' JNull), CloseSocket w 1008 ''proof timeout''])"

definition loop_top :: "real \<Rightarrow> nat \<Rightarrow> conn \<Rightarrow> hub \<Rightarrow> hub \<times> effect list \<times> phase" where
  "loop_top now w k h =
     (case dget (sessions h) (conn_sid k) of
        None \<Rightarrow> (h, [], Leaving)
      | Some sess \<Rightarrow>
          if proven sess then (h, [], Receiving False)
          else if conn_deadline k - now \<le> 0 then
            (case proof_timeout w h of (h', effs) \<Rightarrow> (h', effs, Leaving))
          else (h, [], Receiving True))"

definition next_phase :: "loop_next \<Rightarrow> phase" where
  "next_phase nx =
     (case nx of Continue \<Rightarrow> LoopTop | RelayTo subs out \<Rightarrow> Relaying subs out 0 | _ \<Rightarrow> Leaving)"

text \<open>One delivery of a relay, and its end.\<close>

definition deliver_next ::
  "prims \<Rightarrow> config \<Rightarrow> pystr list \<Rightarrow> json \<Rightarrow> nat \<Rightarrow> hub \<Rightarrow> (hub \<times> effect list \<times> phase) result" where
  "deliver_next P c subs out delivered h =
     (case subs of
        [] \<Rightarrow> Inr (with_metrics (increment_by ''v1_signal_deliveries'' (int delivered)) h, [], LoopTop)
      | sid # rest \<Rightarrow>
          rbind (send_session (float_repr P) c sid out h) (\<lambda>(ok, h', effs).
            Inr (h', effs, Relaying rest out (if ok then Suc delivered else delivered))))"

definition set_conn :: "nat \<Rightarrow> conn \<Rightarrow> phase \<Rightarrow> v1_state \<Rightarrow> v1_state" where
  "set_conn w k ph st = st\<lparr>conns := dset (conns st) w (k\<lparr>conn_phase := ph\<rparr>)\<rparr>"

section \<open>Steps\<close>

text \<open>
  Every step reads the clock, which does not run backwards. \<^verbatim>\<open>uuid4\<close> gives a session id that
  is not in use. A peer can disconnect at any wait outside a relay; an exception that a delivery
  raises ends the relay and the connection.
\<close>

inductive v1_step :: "prims \<Rightarrow> config \<Rightarrow> v1_state \<Rightarrow> effect list \<Rightarrow> v1_state \<Rightarrow> bool" for P c where
  open_refused: "clock st \<le> now \<Longrightarrow> v1_open c now allowed origin w sid (v1_hub st) = Inr (h', effs, Rejected) \<Longrightarrow>
    v1_step P c st effs (st\<lparr>v1_hub := h', clock := now\<rparr>)"
| opened: "clock st \<le> now \<Longrightarrow> dget (conns st) w = None \<Longrightarrow> dget (sessions (v1_hub st)) sid = None \<Longrightarrow>
    v1_open c now allowed origin w sid (v1_hub st) = Inr (h', effs, Opened sid dl) \<Longrightarrow>
    v1_step P c st effs (st\<lparr>v1_hub := h', clock := now,
      conns := dset (conns st) w \<lparr>conn_sid = sid, conn_deadline = dl, conn_phase = LoopTop\<rparr>\<rparr>)"
| turn: "clock st \<le> now \<Longrightarrow> dget (conns st) w = Some k \<Longrightarrow> conn_phase k = LoopTop \<Longrightarrow>
    loop_top now w k (v1_hub st) = (h', effs, ph) \<Longrightarrow>
    v1_step P c st effs (set_conn w k ph (st\<lparr>v1_hub := h', clock := now\<rparr>))"
| frame: "clock st \<le> now \<Longrightarrow> dget (conns st) w = Some k \<Longrightarrow> conn_phase k = Receiving timed \<Longrightarrow>
    v1_frame P c now chal (conn_sid k) w raw (v1_hub st) = (h', effs, nx) \<Longrightarrow>
    v1_step P c st effs (set_conn w k (next_phase nx) (st\<lparr>v1_hub := h', clock := now\<rparr>))"
| timed_out: "clock st \<le> now \<Longrightarrow> dget (conns st) w = Some k \<Longrightarrow> conn_phase k = Receiving True \<Longrightarrow>
    conn_deadline k \<le> now \<Longrightarrow> proof_timeout w (v1_hub st) = (h', effs) \<Longrightarrow>
    v1_step P c st effs (set_conn w k Leaving (st\<lparr>v1_hub := h', clock := now\<rparr>))"
| disconnected: "clock st \<le> now \<Longrightarrow> dget (conns st) w = Some k \<Longrightarrow> conn_phase k \<in> {LoopTop, Receiving timed} \<Longrightarrow>
    v1_step P c st [] (set_conn w k Leaving (st\<lparr>clock := now\<rparr>))"
| delivered: "clock st \<le> now \<Longrightarrow> dget (conns st) w = Some k \<Longrightarrow> conn_phase k = Relaying subs out n \<Longrightarrow>
    deliver_next P c subs out n (v1_hub st) = Inr (h', effs, ph) \<Longrightarrow>
    v1_step P c st effs (set_conn w k ph (st\<lparr>v1_hub := h', clock := now\<rparr>))"
| delivery_raised: "clock st \<le> now \<Longrightarrow> dget (conns st) w = Some k \<Longrightarrow> conn_phase k = Relaying subs out n \<Longrightarrow>
    deliver_next P c subs out n (v1_hub st) = Inl e \<Longrightarrow>
    v1_step P c st [] (set_conn w k Leaving (st\<lparr>clock := now\<rparr>))"
| left: "clock st \<le> now \<Longrightarrow> dget (conns st) w = Some k \<Longrightarrow> conn_phase k = Leaving \<Longrightarrow>
    v1_step P c st [] (st\<lparr>v1_hub := remove_session (conn_sid k) (v1_hub st), clock := now,
      conns := dpop (conns st) w\<rparr>)"
| writes: "clock st \<le> now \<Longrightarrow> writer_get sid (v1_hub st) = (h', effs) \<Longrightarrow>
    v1_step P c st effs (st\<lparr>v1_hub := h', clock := now\<rparr>)"
| wrote: "clock st \<le> now \<Longrightarrow> v1_step P c st [] (st\<lparr>v1_hub := writer_finish sent sid (v1_hub st), clock := now\<rparr>)"
| cleans: "clock st \<le> now \<Longrightarrow> cleanup_step c now (v1_hub st) = (h', effs) \<Longrightarrow>
    v1_step P c st effs (st\<lparr>v1_hub := h', clock := now\<rparr>)"

lemma set_conn_simps [simp]:
  "v1_hub (set_conn w k ph st) = v1_hub st" "clock (set_conn w k ph st) = clock st"
  by (simp_all add: set_conn_def)

lemma step_clock: "v1_step P c st effs st' \<Longrightarrow> clock st \<le> clock st'"
  by (induction rule: v1_step.induct) simp_all

section \<open>What a step does to the hub\<close>

text \<open>
  The hub-level effect of a step, without the connections: the interface through which the
  invariants below see the endpoint.
\<close>

inductive hub_step :: "prims \<Rightarrow> config \<Rightarrow> real \<Rightarrow> hub \<Rightarrow> hub \<Rightarrow> bool" for P c now where
  h_metrics: "hub_step P c now h (with_metrics f h)"
| h_create: "dget (sessions h) sid = None \<Longrightarrow> session_count h < max_concurrency c \<Longrightarrow>
    hub_step P c now h (create_session now w sid h)"
| h_frame: "hub_step P c now h (fst (v1_frame P c now chal sid w raw h))"
| h_send: "send_session (float_repr P) c sid out h = Inr (ok, h', effs) \<Longrightarrow> hub_step P c now h h'"
| h_remove: "hub_step P c now h (remove_session sid h)"
| h_get: "hub_step P c now h (fst (writer_get sid h))"
| h_finish: "hub_step P c now h (writer_finish sent sid h)"
| h_cleanup: "hub_step P c now h (fst (cleanup_step c now h))"

lemma h_same: "hub_step P c now h h"
  using h_metrics [of P c now h id] by (simp add: with_metrics_def)

lemma open_hub_step:
  assumes "v1_open c now allowed origin w sid h = Inr (h', effs, r)" "r = Rejected \<or> dget (sessions h) sid = None"
  shows "hub_step P c now h h'"
  using assms h_metrics [of P c now h] h_same [of P c now h] h_create [of h sid c P now w]
  by (auto simp: v1_open_def rbind_eq_Inr split: if_splits)

lemma deliver_hub_step:
  assumes "deliver_next P c subs out n h = Inr (h', effs, ph)"
  shows "hub_step P c now h h'"
  using assms h_metrics h_send by (auto simp: deliver_next_def rbind_eq_Inr split: list.splits)

lemma step_hub:
  "v1_step P c st effs st' \<Longrightarrow> hub_step P c (clock st') (v1_hub st) (v1_hub st')"
proof (induction rule: v1_step.induct)
  case (turn st now w k h' effs ph)
  then show ?case
    using h_same h_metrics
    by (auto simp: loop_top_def proof_timeout_def split: option.splits if_splits)
next
  case (frame st now w k timed chal raw h' effs nx)
  then show ?case using h_frame [of P c now "v1_hub st" chal "conn_sid k" w raw] by simp
next
  case (writes st now sid h' effs)
  then show ?case using h_get [of P c now "v1_hub st" sid] by simp
next
  case (cleans st now h' effs)
  then show ?case using h_cleanup [of P c now "v1_hub st"] by simp
qed (auto simp: proof_timeout_def intro: h_same h_metrics h_remove h_finish open_hub_step deliver_hub_step)

section \<open>The hub invariant\<close>

lemma hub_step_inv:
  assumes "post_init c = Inr ()" "hub_step P c now h h'" "hub_inv c h"
  shows "hub_inv c h'"
  using assms(2,1,3)
  by (cases rule: hub_step.cases)
    (auto intro: hub_inv_create v1_frame_inv hub_inv_send hub_inv_remove hub_inv_writer_get
      hub_inv_writer_finish hub_inv_cleanup)

section \<open>What a step does to a session\<close>

text \<open>The part of a session that authorises its operations: all but its queue and its heartbeat.\<close>

definition auth_view where
  "auth_view s = (proven s, challenge s, public_key_raw s, sess_routes s, session_protocol s, last_signal_sequence s,
     (identity_key_hex s, identity_key_id s, encryption_key_hex s, encryption_key_id s))"

definition evolved :: "prims \<Rightarrow> config \<Rightarrow> session \<Rightarrow> session \<Rightarrow> bool" where
  "evolved P c s s' \<longleftrightarrow> (\<exists>m Q. move_ok P c s m \<and> auth_view s' = auth_view (keep_routes Q (apply_move m s)))"

lemma evolved_move: "move_ok P c s m \<Longrightarrow> auth_view s' = auth_view (apply_move m s) \<Longrightarrow> evolved P c s s'"
  unfolding evolved_def by (rule exI [of _ m], rule exI [of _ "\<lambda>_. True"]) simp

lemma evolved_same: "auth_view s' = auth_view s \<Longrightarrow> evolved P c s s'"
  by (rule evolved_move [of _ _ _ Stays]) simp_all

lemma evolved_keep: "evolved P c s (keep_routes Q s)"
  unfolding evolved_def by (rule exI [of _ Stays], rule exI [of _ Q]) simp

lemma writer_get_view:
  "dget (sessions (fst (writer_get sid h))) x = Some s' \<Longrightarrow>
     \<exists>s. dget (sessions h) x = Some s \<and> auth_view s' = auth_view s"
  by (auto simp: writer_get_def auth_view_def dget_dset split: option.splits writer.splits list.splits if_splits)

lemma writer_finish_view:
  "dget (sessions (writer_finish sent sid h)) x = Some s' \<Longrightarrow>
     \<exists>s. dget (sessions h) x = Some s \<and> auth_view s' = auth_view s"
  by (auto simp: writer_finish_def auth_view_def dget_dset Let_def split: option.splits writer.splits prod.splits if_splits)

lemma send_view:
  assumes "send_session frepr c sid data h = Inr (ok, h', effs)" "dget (sessions h') x = Some s'"
  shows "\<exists>s. dget (sessions h) x = Some s \<and> auth_view s' = auth_view s"
  using send_session_cases [OF assms(1)] assms(2)
  by (elim disjE) (auto simp: dget_dset auth_view_def split: if_splits)

lemma dget_remove_all:
  "dget (sessions (fold remove_session sids h)) x = (if x \<in> set sids then None else dget (sessions h) x)"
  by (induction sids arbitrary: h) (auto simp: dget_remove_session)

lemma cleanup_sessions:
  assumes "tables_ok h"
  shows "dget (sessions (fst (cleanup_step c now h))) x = None \<or>
    dget (sessions (fst (cleanup_step c now h))) x =
      map_option (keep_routes (\<lambda>r. \<not> expired_lease now h r x)) (dget (sessions h) x)"
  by (simp add: cleanup_step_def prune_stale_sessions_def Let_def dget_remove_all prune_routes_sessions [OF assms])

lemma frame_view:
  assumes "dget (sessions (fst (v1_frame P c now chal sid w raw h))) x = Some s'"
  shows "\<exists>s. dget (sessions h) x = Some s \<and> evolved P c s s'"
proof (cases "dget (sessions h) sid")
  case None
  then show ?thesis using assms v1_frame_gone [OF None] evolved_same by auto
next
  case (Some s)
  have "moved P c sid s h (fst (v1_frame P c now chal sid w raw h))" by (rule v1_frame_moved [OF Some])
  with assms Some show ?thesis
    by (cases "x = sid") (auto simp: moved_def intro: evolved_move evolved_same)
qed

lemma hub_step_session:
  assumes "hub_step P c now h h'" "hub_inv c h" "dget (sessions h') x = Some s'"
  shows "(\<exists>w. dget (sessions h) x = None \<and> s' = new_session w now) \<or>
    (\<exists>s. dget (sessions h) x = Some s \<and> evolved P c s s')"
  using assms
proof (cases rule: hub_step.cases)
  case h_cleanup
  then show ?thesis
    using assms(3) cleanup_sessions [OF hub_invD(6) [OF assms(2)], of c now x] evolved_keep
    by (cases "dget (sessions h) x") auto
next
  case (h_frame chal sid w raw)
  then show ?thesis using assms(3) frame_view by blast
next
  case (h_send sid out ok effs)
  then show ?thesis using assms(3) send_view evolved_same by blast
next
  case (h_get sid)
  then show ?thesis using assms(3) writer_get_view evolved_same by blast
next
  case (h_finish sent sid)
  then show ?thesis using assms(3) writer_finish_view evolved_same by blast
next
  case (h_create sid w)
  then show ?thesis using assms(3) evolved_same by (auto simp: create_session_def dget_dset split: if_splits)
next
  case (h_remove sid)
  then show ?thesis using assms(3) evolved_same by (auto simp: dget_remove_session split: if_splits)
next
  case (h_metrics f)
  then show ?thesis using assms(3) evolved_same by auto
qed

section \<open>Proof of possession\<close>

text \<open>\<open>n\<close> is the most routes a session may hold.\<close>

definition session_ok :: "int \<Rightarrow> session \<Rightarrow> bool" where
  "session_ok n s \<longleftrightarrow> (sess_routes s \<noteq> [] \<longrightarrow> proven s) \<and>
     (proven s \<longrightarrow> challenge s = None \<and> (\<exists>key. public_key_raw s = Some key \<and> key \<noteq> [])) \<and>
     int (length (sess_routes s)) \<le> n"

definition sessions_ok :: "int \<Rightarrow> hub \<Rightarrow> bool" where
  "sessions_ok n h \<longleftrightarrow> (\<forall>sid s. dget (sessions h) sid = Some s \<longrightarrow> session_ok n s)"

lemma session_ok_view: "auth_view s' = auth_view s \<Longrightarrow> session_ok n s' = session_ok n s"
  by (simp add: auth_view_def session_ok_def)

lemma session_ok_keep: "session_ok n s \<Longrightarrow> session_ok n (keep_routes Q s)"
proof -
  assume ok: "session_ok n s"
  have "length (filter Q (sess_routes s)) \<le> length (sess_routes s)" by (rule length_filter_le)
  then have "int (length (filter Q (sess_routes s))) \<le> n"
    using ok by (simp add: session_ok_def del: length_filter_le)
  then show ?thesis
    using ok by (auto simp: session_ok_def keep_routes_def)
qed

lemma session_ok_move:
  "session_ok n s \<Longrightarrow> move_ok P c s m \<Longrightarrow> max_v1_routes_per_session c \<le> n \<Longrightarrow> session_ok n (apply_move m s)"
proof (cases m)
  case (Detaches rid)
  assume ok: "session_ok n s" "move_ok P c s m"
  then have "int (length (sess_routes s)) \<le> n" by (simp add: session_ok_def)
  then have "int (length (removeAll rid (sess_routes s))) \<le> n"
    by (rule order_trans [rotated]) (simp add: removeAll_filter_neq)
  then show ?thesis using ok Detaches by (auto simp: session_ok_def)
qed (auto simp: session_ok_def verify_signature_def List.insert_def split: if_splits)

lemma session_ok_evolved:
  "session_ok n s \<Longrightarrow> evolved P c s s' \<Longrightarrow> max_v1_routes_per_session c \<le> n \<Longrightarrow> session_ok n s'"
  using session_ok_keep session_ok_move session_ok_view unfolding evolved_def by blast

lemma session_ok_new: "0 \<le> n \<Longrightarrow> session_ok n (new_session w now)"
  by (simp add: session_ok_def new_session_def)

lemma hub_step_sessions_ok:
  assumes "hub_step P c now h h'" "hub_inv c h" "sessions_ok n h" "post_init c = Inr ()"
    "max_v1_routes_per_session c \<le> n"
  shows "sessions_ok n h'"
proof -
  have "0 \<le> max_v1_routes_per_session c"
    using server_config.limits_positive(2) [of c] assms(4) by (simp add: server_config_def)
  with assms(5) have n: "0 \<le> n" by simp
  have "session_ok n s'" if s': "dget (sessions h') x = Some s'" for x s'
    using hub_step_session [OF assms(1,2) s']
  proof (elim disjE exE conjE)
    fix s assume "dget (sessions h) x = Some s" "evolved P c s s'"
    then show ?thesis using assms(3,5) session_ok_evolved unfolding sessions_ok_def by blast
  qed (simp add: session_ok_new n)
  then show ?thesis by (simp add: sessions_ok_def)
qed

section \<open>The session limit\<close>

lemma wf_length_card: "wf_dict d \<Longrightarrow> length d = card (dom (dget d))"
  by (metis distinct_card dom_map_of_conv_image_fst length_map set_map)

lemma wf_length_mono:
  assumes "wf_dict d" "wf_dict d'" "dom (dget d') \<subseteq> dom (dget d)"
  shows "length d' \<le> length d"
  using assms by (simp add: wf_length_card card_mono finite_dom_map_of)

lemma hub_step_count:
  assumes "hub_step P c now h h'" "hub_inv c h" "hub_inv c h'" "session_count h \<le> max_concurrency c"
  shows "session_count h' \<le> max_concurrency c"
proof (cases "dom (dget (sessions h')) \<subseteq> dom (dget (sessions h))")
  case True
  then have "length (sessions h') \<le> length (sessions h)"
    using assms(2,3) by (intro wf_length_mono) (auto dest: hub_invD(7))
  then show ?thesis using assms(4) by (simp add: session_count_def)
next
  case False
  then obtain x s' where x: "dget (sessions h') x = Some s'" "dget (sessions h) x = None" by auto
  from assms(1) show ?thesis
  proof (cases rule: hub_step.cases)
    case (h_create sid w)
    then show ?thesis
      by (simp add: session_count_def create_session_def length_dset)
  next
    case h_cleanup
    then show ?thesis
      using x cleanup_sessions [OF hub_invD(6) [OF assms(2)], of c now x] by auto
  next
    case (h_frame chal sid w raw)
    then show ?thesis using x frame_view by fastforce
  next
    case (h_send sid out ok effs)
    then show ?thesis using x send_view by fastforce
  next
    case (h_get sid)
    then show ?thesis using x writer_get_view by fastforce
  next
    case (h_finish sent sid)
    then show ?thesis using x writer_finish_view by fastforce
  qed (use x in \<open>auto simp: dget_remove_session split: if_splits\<close>)
qed

section \<open>Replays\<close>

lemma cleanup_seen:
  assumes "hub_inv c h" "dget (seen h) k = Some e" "now < e"
  shows "dget (seen (fst (cleanup_step c now h))) k = Some e"
proof -
  have r: "seen (remove_session sid g) = seen g" for sid g
    by (cases "dget (sessions g) sid") (simp_all add: remove_session_None remove_session_frame)
  then have f: "seen (fold remove_session sids g) = seen g" for sids g
    by (induction sids arbitrary: g) simp_all
  have "seen_inv c h" using assms(1) by (rule hub_invD)
  then have "seen_inv c (fold remove_session sids (fst (prune_routes now h)))" for sids by (simp add: seen_inv_def f)
  then have "dget (seen (fst (prune_dedupe now (fold remove_session sids (fst (prune_routes now h)))))) k = Some e" for sids
    using dedupe.prune_keeps [of c "fold remove_session sids (fst (prune_routes now h))" k e now] assms(2,3) by (simp add: f)
  then show ?thesis by (simp add: cleanup_step_def prune_stale_sessions_def Let_def)
qed

lemma hub_step_seen:
  assumes "hub_step P c now h h'" "hub_inv c h" "dget (seen h) k = Some e" "now < e"
  shows "dget (seen h') k = Some e"
  using assms
proof (cases rule: hub_step.cases)
  case (h_send sid out ok effs)
  then have "seen h' = seen h" using send_session_cases [OF h_send] by (elim disjE) auto
  with assms(3) show ?thesis by simp
next
  case (h_remove sid)
  then show ?thesis using assms(3)
    by (cases "dget (sessions h) sid") (simp_all add: remove_session_None remove_session_frame)
next
  case (h_get sid)
  then show ?thesis using assms(3)
    by (auto simp: writer_get_def split: option.splits writer.splits list.splits)
next
  case (h_finish sent sid)
  then show ?thesis using assms(3)
    by (auto simp: writer_finish_def Let_def split: option.splits writer.splits prod.splits)
qed (use assms in \<open>auto simp: create_session_def v1_frame_seen cleanup_seen\<close>)

end
