(* ===== verification/Trust.thy ===== *)
theory Trust
  imports Config Canonical Session_Crypto Protocol
begin

text \<open>
  \<^verbatim>\<open>app/trust.py\<close>: signed objects, node manifests and admission grants. Loading or creating the
  private key is the \<^verbatim>\<open>cryptography\<close> package's work: a node has its public key and a
  function that gives the pair \<open>(r, s)\<close> for a message. \<open>ecdsa_ok\<close> states what the package
  documents about the pair; grants and manifests are then shown to pass their own verifiers, and
  an accepted grant to bind one key.
\<close>

section \<open>Definitions\<close>

text \<open>\<^verbatim>\<open>n.to_bytes(len, "big")\<close> for a number that fits\<close>

primrec to_bytes_big :: "nat \<Rightarrow> nat \<Rightarrow> bytes" where
  "to_bytes_big 0 n = []"
| "to_bytes_big (Suc k) n = to_bytes_big k (n div 256) @ [word_of_nat (n mod 256)]"

record node_trust =
  trust_config :: config
  trust_public_key :: bytes
  trust_key_id :: pystr
  cached_manifest :: "json option"

text \<open>Code outside the repository: float texts, SHA-256, ECDSA verification and signing.\<close>

record trust_prims =
  tp_float :: "real \<Rightarrow> pystr"
  tp_sha256 :: "bytes \<Rightarrow> bytes"
  tp_verify :: "bytes \<Rightarrow> nat \<Rightarrow> nat \<Rightarrow> bytes \<Rightarrow> bool"
  tp_sign :: "bytes \<Rightarrow> nat \<times> nat"

definition node_trust_init :: "trust_prims \<Rightarrow> config \<Rightarrow> bytes \<Rightarrow> int \<Rightarrow> node_trust result" where
  "node_trust_init P c public_key started_at =
     rbind (raise_if (\<not> (signing_key_activates_at c \<le> started_at \<and> started_at \<le> signing_key_expires_at c))
       (RuntimeError ''configured node signing key is outside its activation window'')) (\<lambda>_.
     Inr \<lparr>trust_config = c, trust_public_key = public_key, trust_key_id = hex (tp_sha256 P public_key),
          cached_manifest = None\<rparr>)"

definition raw_signature :: "trust_prims \<Rightarrow> bytes \<Rightarrow> bytes" where
  "raw_signature P payload = (case tp_sign P payload of (r, s) \<Rightarrow> to_bytes_big 32 r @ to_bytes_big 32 s)"

definition sign_object :: "trust_prims \<Rightarrow> node_trust \<Rightarrow> json \<Rightarrow> json result" where
  "sign_object P tr payload =
     rbind (canonical_json_bytes (tp_float P) payload) (\<lambda>b.
       Inr (JDict [(u ''payload'', payload), (u ''keyId'', JStr (trust_key_id tr)),
                   (u ''signatureHex'', JStr (hex (raw_signature P b)))]))"

text \<open>\<^verbatim>\<open>bytes.fromhex(x)\<close> guarded against \<^verbatim>\<open>TypeError\<close> and \<^verbatim>\<open>ValueError\<close>\<close>

definition try_fromhex :: "json \<Rightarrow> bytes option" where
  "try_fromhex v = (case v of JStr s \<Rightarrow> fromhex s | _ \<Rightarrow> None)"

definition verify_signed_object :: "trust_prims \<Rightarrow> node_trust \<Rightarrow> json \<Rightarrow> bytes option \<Rightarrow> bool result" where
  "verify_signed_object P tr envelope expected_key_raw =
     (let key = (case expected_key_raw of None \<Rightarrow> trust_public_key tr | Some k \<Rightarrow> if k = [] then trust_public_key tr else k)
      in case envelope of
           JDict d \<Rightarrow>
             (case jget d ''payload'' of
                JDict p \<Rightarrow>
                  if \<not> keys_are d [''payload'', ''keyId'', ''signatureHex''] \<or>
                     jget d ''keyId'' \<noteq> JStr (hex (tp_sha256 P key)) then Inr False
                  else (case try_fromhex (jget d ''signatureHex'') of
                          None \<Rightarrow> Inr False
                        | Some signature \<Rightarrow>
                            if length signature \<noteq> 64 then Inr False
                            else rbind (canonical_json_bytes (tp_float P) (JDict p)) (\<lambda>b.
                                   Inr (verify_signature (tp_verify P) key b signature)))
              | _ \<Rightarrow> Inr False)
         | _ \<Rightarrow> Inr False)"

subsection \<open>Manifests\<close>

definition rstrip_slash :: "pystr \<Rightarrow> pystr" where
  "rstrip_slash s = rev (dropWhile (\<lambda>ch. ch = 47) (rev s))"

definition manifest_payload :: "node_trust \<Rightarrow> int \<Rightarrow> json" where
  "manifest_payload tr issued_at =
     (let c = trust_config tr;
          protocols = [u ''particle-discovery/1''] @
            (if advertise_v2 c then [u ''particle-session/2'', u ''particle-route/2'', u ''particle-signal/2''] else []) @
            (if node_mesh_enabled c then [u ''particle-node/1''] else []);
          endpoints = [(u ''http'', JStr (rstrip_slash (public_base_url c))), (u ''websocketV1'', JStr (public_v1_ws_url c))] @
            (if advertise_v2 c then [(u ''websocketV2'', JStr (public_ws_url c))] else []) @
            (if node_mesh_enabled c then [(u ''nodeMesh'', JStr (public_node_ws_url c))] else [])
      in JDict
          [(u ''format'', JStr (u ''particle-node-manifest/2'')),
           (u ''nodeId'', JStr (node_id c)),
           (u ''networkRootId'', JStr (network_root_id c)),
           (u ''networkRootVersion'', JInt (network_root_version c)),
           (u ''networkRootRollbackVersion'', JInt (network_root_rollback_version c)),
           (u ''protocols'', JList (map JStr protocols)),
           (u ''endpoints'', JDict endpoints),
           (u ''signingPublicKeyHex'', JStr (hex (trust_public_key tr))),
           (u ''signingKeyId'', JStr (trust_key_id tr)),
           (u ''signingKeyValidity'', JDict [(u ''activatesAt'', JInt (signing_key_activates_at c)),
              (u ''expiresAt'', JInt (signing_key_expires_at c))]),
           (u ''issuedAt'', JInt issued_at),
           (u ''expiresAt'', JInt (issued_at + manifest_ttl_seconds c))])"

definition int_of :: "json \<Rightarrow> int" where
  "int_of v = (case v of JInt i \<Rightarrow> i | _ \<Rightarrow> 0)"

definition dict_of :: "json \<Rightarrow> (pystr \<times> json) list" where
  "dict_of v = (case v of JDict d \<Rightarrow> d | _ \<Rightarrow> [])"

definition expires_of :: "json \<Rightarrow> int" where
  "expires_of envelope = int_of (jget (dict_of (jget (dict_of envelope) ''payload'')) ''expiresAt'')"

text \<open>\<open>clock\<close> is \<^verbatim>\<open>time.time()\<close>; only calls without an explicit time use the cache.\<close>

definition node_manifest :: "trust_prims \<Rightarrow> int option \<Rightarrow> int \<Rightarrow> node_trust \<Rightarrow> (json \<times> node_trust) result" where
  "node_manifest P now clock tr =
     (let issued_at = (case now of None \<Rightarrow> clock | Some n \<Rightarrow> n);
          fresh = rbind (sign_object P tr (manifest_payload tr issued_at)) (\<lambda>envelope.
            Inr (envelope, if now = None then tr\<lparr>cached_manifest := Some envelope\<rparr> else tr))
      in case (now, cached_manifest tr) of
           (None, Some m) \<Rightarrow> if issued_at < expires_of m - 60 then Inr (m, tr) else fresh
         | _ \<Rightarrow> fresh)"

definition manifest_hash :: "trust_prims \<Rightarrow> json \<Rightarrow> pystr result" where
  "manifest_hash P manifest = content_hash_hex (tp_float P) (tp_sha256 P) manifest"

subsection \<open>Admission grants\<close>

definition issue_admission :: "trust_prims \<Rightarrow> node_trust \<Rightarrow> pystr \<Rightarrow> pystr \<Rightarrow> int \<Rightarrow> json result" where
  "issue_admission P tr public_key_hex nonce issued_at =
     (case fromhex public_key_hex of
        None \<Rightarrow> Inl (ValueError ''fromhex'')
      | Some key \<Rightarrow>
          (case utf8_encode nonce of
             None \<Rightarrow> Inl UnicodeEncodeError
           | Some nb \<Rightarrow>
               sign_object P tr (JDict
                 [(u ''format'', JStr (u ''particle-admission/2'')),
                  (u ''issuer'', JStr (node_id (trust_config tr))),
                  (u ''keyHash'', JStr (hex (tp_sha256 P key))),
                  (u ''nonceHash'', JStr (hex (tp_sha256 P nb))),
                  (u ''protocol'', JStr (u ''particle-session/2'')),
                  (u ''issuedAt'', JInt issued_at),
                  (u ''expiresAt'', JInt (issued_at + admission_ttl_seconds (trust_config tr)))])))"

text \<open>
  \<^verbatim>\<open>hmac.compare_digest(str(v), key_hash)\<close>: it refuses non-ASCII strings; the text of a value
  that is neither a string nor an integer is not made of hexadecimal digits.
\<close>

definition compare_digest :: "json \<Rightarrow> pystr \<Rightarrow> bool result" where
  "compare_digest v key_hash =
     (case v of
        JStr s \<Rightarrow> if list_all (\<lambda>ch. ch < 128) s then Inr (s = key_hash) else Inl TypeError
      | JInt i \<Rightarrow> Inr (dump_int i = key_hash)
      | _ \<Rightarrow> Inr False)"

definition text_of_length :: "nat \<Rightarrow> json \<Rightarrow> bool" where
  "text_of_length n v = (case v of JStr s \<Rightarrow> length s = n | _ \<Rightarrow> False)"

definition verify_admission :: "trust_prims \<Rightarrow> node_trust \<Rightarrow> json \<Rightarrow> pystr \<Rightarrow> int \<Rightarrow> bool result" where
  "verify_admission P tr grant public_key_hex current =
     rbind (verify_signed_object P tr grant None) (\<lambda>ok.
       if \<not> ok then Inr False
       else
         let claims = dict_of (jget (dict_of grant) ''payload'')
         in if \<not> keys_are claims [''format'', ''issuer'', ''keyHash'', ''nonceHash'', ''protocol'', ''issuedAt'', ''expiresAt'']
            then Inr False
            else (case fromhex public_key_hex of
                    None \<Rightarrow> Inr False
                  | Some key \<Rightarrow>
                      if jget claims ''format'' \<noteq> JStr (u ''particle-admission/2'') \<or>
                         jget claims ''issuer'' \<noteq> JStr (node_id (trust_config tr)) \<or>
                         jget claims ''protocol'' \<noteq> JStr (u ''particle-session/2'') then Inr False
                      else rbind (compare_digest (jget claims ''keyHash'') (hex (tp_sha256 P key))) (\<lambda>same.
                             Inr (same \<and> text_of_length 64 (jget claims ''nonceHash'') \<and>
                                  is_int (jget claims ''issuedAt'') \<and> is_int (jget claims ''expiresAt'') \<and>
                                  int_of (jget claims ''issuedAt'') \<le> current \<and>
                                  current \<le> int_of (jget claims ''expiresAt'')))))"

subsection \<open>Foreign manifests\<close>

definition lower_ascii :: "pystr \<Rightarrow> pystr" where
  "lower_ascii s = map (\<lambda>ch. if 65 \<le> ch \<and> ch \<le> 90 then ch + 32 else ch) s"

definition MANIFEST_FIELDS :: "string list" where
  "MANIFEST_FIELDS =
     [''format'', ''nodeId'', ''networkRootId'', ''networkRootVersion'', ''networkRootRollbackVersion'',
      ''protocols'', ''endpoints'', ''signingPublicKeyHex'', ''signingKeyId'', ''signingKeyValidity'',
      ''issuedAt'', ''expiresAt'']"

text \<open>
  The pin of the configuration is ASCII. A value that is not a dict, or that lacks a member, makes
  the guarded part raise and is refused.
\<close>

definition parse_signed_manifest :: "trust_prims \<Rightarrow> json \<Rightarrow> pystr \<Rightarrow> int \<Rightarrow> json option result" where
  "parse_signed_manifest P value expected_pin now =
     (case value of
        JDict d \<Rightarrow>
          (case jget d ''payload'' of
             JDict payload \<Rightarrow>
               if \<not> keys_are d [''payload'', ''keyId'', ''signatureHex''] \<or> \<not> keys_are payload MANIFEST_FIELDS then Inr None
               else (case (try_fromhex (jget payload ''signingPublicKeyHex''), try_fromhex (jget d ''signatureHex''),
                           jget payload ''signingKeyValidity'') of
                   (Some raw_key, Some signature, JDict kv) \<Rightarrow>
                     if u ''activatesAt'' \<notin> set (dkeys kv) \<or> u ''expiresAt'' \<notin> set (dkeys kv) then Inr None
                     else
                       let pin = hex (tp_sha256 P raw_key);
                           activates_at = jget kv ''activatesAt''; expires_at = jget kv ''expiresAt''
                       in if pin = lower_ascii expected_pin \<and> jget d ''keyId'' = JStr pin \<and>
                             jget payload ''signingKeyId'' = JStr pin \<and>
                             jget payload ''format'' = JStr (u ''particle-node-manifest/2'') \<and>
                             is_int activates_at \<and> is_int expires_at \<and>
                             int_of activates_at \<le> now \<and> now \<le> int_of expires_at
                          then rbind (canonical_json_bytes (tp_float P) (JDict payload)) (\<lambda>b.
                                 Inr (if verify_signature (tp_verify P) raw_key b signature
                                      then Some (JDict payload) else None))
                          else Inr None
                 | _ \<Rightarrow> Inr None)
           | _ \<Rightarrow> Inr None)
      | _ \<Rightarrow> Inr None)"

section \<open>Signatures\<close>

lemma length_to_bytes_big [simp]: "length (to_bytes_big k n) = k"
  by (induction k arbitrary: n) simp_all

lemma from_to_bytes_big: "n < 256 ^ k \<Longrightarrow> from_bytes_big (to_bytes_big k n) = n"
proof (induction k arbitrary: n)
  case (Suc k)
  have "n div 256 < 256 ^ k" using Suc.prems by (simp add: less_mult_imp_div_less mult.commute)
  then have "from_bytes_big (to_bytes_big k (n div 256)) = n div 256" by (rule Suc.IH)
  moreover have "unat (word_of_nat (n mod 256) :: 8 word) = n mod 256"
    by (simp add: unat_of_nat)
  ultimately show ?case by (simp add: from_bytes_big_def)
qed (simp add: from_bytes_big_def)

text \<open>
  What the ECDSA package documents: the two numbers of a signature are below the group order, and
  the signature verifies under the signer's key.
\<close>

definition ecdsa_ok :: "trust_prims \<Rightarrow> bytes \<Rightarrow> bool" where
  "ecdsa_ok P key \<longleftrightarrow> (\<forall>m. case tp_sign P m of (r, s) \<Rightarrow> r < 256 ^ 32 \<and> s < 256 ^ 32 \<and> tp_verify P key r s m)"

text \<open>A node set up by \<^verbatim>\<open>NodeTrust.__init__\<close>.\<close>

definition trust_ok :: "trust_prims \<Rightarrow> node_trust \<Rightarrow> bool" where
  "trust_ok P tr \<longleftrightarrow> trust_public_key tr \<noteq> [] \<and> trust_key_id tr = hex (tp_sha256 P (trust_public_key tr))"

lemma trust_ok_init: "node_trust_init P c key t = Inr tr \<Longrightarrow> key \<noteq> [] \<Longrightarrow> trust_ok P tr"
  by (auto simp: node_trust_init_def rbind_eq_Inr trust_ok_def)

lemma raw_signature_verifies:
  assumes "ecdsa_ok P key" "key \<noteq> []"
  shows "length (raw_signature P m) = 64 \<and> verify_signature (tp_verify P) key m (raw_signature P m)"
proof -
  obtain r s where rs: "tp_sign P m = (r, s)" by (cases "tp_sign P m")
  have "case tp_sign P m of (r, s) \<Rightarrow> r < 256 ^ 32 \<and> s < 256 ^ 32 \<and> tp_verify P key r s m"
    using assms(1) unfolding ecdsa_ok_def by (rule spec)
  then have "r < 256 ^ 32" "s < 256 ^ 32" "tp_verify P key r s m" using rs by simp_all
  moreover have "to_bytes_big 32 r \<noteq> []"
    by (metis length_to_bytes_big list.size(3) zero_neq_numeral)
  ultimately show ?thesis
    using assms(2) by (simp add: raw_signature_def rs verify_signature_def from_to_bytes_big)
qed

lemma sign_object_Inr:
  "sign_object P tr payload = Inr envelope \<longleftrightarrow>
    (\<exists>b. canonical_json_bytes (tp_float P) payload = Inr b \<and>
       envelope = JDict [(u ''payload'', payload), (u ''keyId'', JStr (trust_key_id tr)),
                       (u ''signatureHex'', JStr (hex (raw_signature P b)))])"
  by (auto simp: sign_object_def rbind_eq_Inr)

lemma signed_verifies:
  assumes "ecdsa_ok P (trust_public_key tr)" "trust_ok P tr" "sign_object P tr (JDict p) = Inr envelope"
  shows "verify_signed_object P tr envelope None = Inr True"
proof -
  obtain b where b: "canonical_json_bytes (tp_float P) (JDict p) = Inr b"
    "envelope = JDict [(u ''payload'', JDict p), (u ''keyId'', JStr (trust_key_id tr)),
                     (u ''signatureHex'', JStr (hex (raw_signature P b)))]"
    using assms(3) by (auto simp: sign_object_Inr)
  have "try_fromhex (JStr (hex (raw_signature P b))) = Some (raw_signature P b)"
    by (simp add: try_fromhex_def fromhex_hex)
  with b raw_signature_verifies [OF assms(1), of b] assms(2) show ?thesis
    by (simp add: verify_signed_object_def jget_def keys_are_def trust_ok_def insert_commute)
qed


lemma hex_ascii: "list_all (\<lambda>ch. ch < 128) (hex b)"
proof -
  have "unat y div 16 < 16" for y :: "8 word"
  proof -
    have "unat y < 256" using unsigned_less [of y, where 'a = nat] by simp
    then show ?thesis by (simp add: less_mult_imp_div_less)
  qed
  moreover have "n < 16 \<Longrightarrow> hex_digit n < 128" for n
    by (simp add: hex_digit_def)
  ultimately have "hex_digit (unat y div 16) < 128" "hex_digit (unat y mod 16) < 128" for y :: "8 word"
    by simp_all
  then show ?thesis by (auto simp: list_all_iff hex_def)
qed

lemma lower_hex: "lower_ascii (hex b) = hex b"
proof -
  have "(if 65 \<le> hex_digit n \<and> hex_digit n \<le> 90 then hex_digit n + 32 else hex_digit n) = hex_digit n" for n
    by (simp add: hex_digit_def)
  then show ?thesis by (induction b) (simp_all add: lower_ascii_def hex_def)
qed

lemma encodable_hex [simp]: "encodable (hex b)"
  by (rule ascii_encodable [OF hex_ascii])

lemma sign_object_ok:
  assumes "\<forall>x. encodable (tp_float P x)" "all_strings encodable v"
  shows "\<exists>envelope. sign_object P tr v = Inr envelope"
proof -
  obtain key where "content_hash_hex (tp_float P) (tp_sha256 P) v = Inr key"
    using assms content_hash_ok [of "tp_float P" v "tp_sha256 P"] by blast
  then show ?thesis by (auto simp: content_hash_hex_def rbind_eq_Inr sign_object_Inr)
qed

lemma hex_length: "length (hex b) = 2 * length b"
  by (induction b) (simp_all add: hex_def)



lemma manifest_fields:
  "dict_of (manifest_payload tr t) = (case manifest_payload tr t of JDict d \<Rightarrow> d | _ \<Rightarrow> [])"
  "manifest_payload tr t = JDict (dict_of (manifest_payload tr t))"
  "int_of (jget (dict_of (manifest_payload tr t)) ''expiresAt'') = t + manifest_ttl_seconds (trust_config tr)"
  by (simp_all add: manifest_payload_def Let_def dict_of_def jget_def int_of_def)

lemma expires_of_signed:
  assumes "sign_object P tr (manifest_payload tr t) = Inr m"
  shows "expires_of m = t + manifest_ttl_seconds (trust_config tr)"
  using assms manifest_fields(3) [of tr t]
  by (auto simp: sign_object_Inr expires_of_def dict_of_def [of "JDict _"] jget_def)

section \<open>An example\<close>

definition ex_tp :: trust_prims where
  "ex_tp = \<lparr>tp_float = (\<lambda>_. u ''0''), tp_sha256 = (\<lambda>b. replicate 32 0),
     tp_verify = (\<lambda>_ r s _. r = 7 \<and> s = 9), tp_sign = (\<lambda>_. (7, 9))\<rparr>"

definition ex_trust :: node_trust where
  "ex_trust = \<lparr>trust_config = default_config, trust_public_key = [4], trust_key_id = hex (replicate 32 0),
     cached_manifest = None\<rparr>"

lemma ex_trust_ok: "ecdsa_ok ex_tp (trust_public_key ex_trust)" "trust_ok ex_tp ex_trust"
  "\<forall>b. length (tp_sha256 ex_tp b) = 32" "\<forall>x. encodable (tp_float ex_tp x)"
  by (simp_all add: ecdsa_ok_def trust_ok_def ex_tp_def ex_trust_def)

lemma encodable_rstrip: "encodable s \<Longrightarrow> encodable (rstrip_slash s)"
  by (auto simp: encodable_def rstrip_slash_def dest: set_dropWhileD)

lemma ex_manifest_encodable: "all_strings encodable (manifest_payload ex_trust 100)"
  unfolding manifest_payload_def Let_def ex_trust_def default_config_def
  by (simp add: encodable_rstrip hex_digit_def is_surrogate_def)

lemma verify_issued:
  assumes "ecdsa_ok P (trust_public_key tr)" "trust_ok P tr" "\<forall>b. length (tp_sha256 P b) = 32"
    and "issue_admission P tr pk nonce t = Inr grant"
    and "t \<le> now" "now \<le> t + admission_ttl_seconds (trust_config tr)"
  shows "verify_admission P tr grant pk now = Inr True"
proof -
  obtain key nb where k: "fromhex pk = Some key" "utf8_encode nonce = Some nb"
    using assms(4) by (auto simp: issue_admission_def split: option.splits)
  let ?claims = "[(u ''format'', JStr (u ''particle-admission/2'')), (u ''issuer'', JStr (node_id (trust_config tr))),
      (u ''keyHash'', JStr (hex (tp_sha256 P key))), (u ''nonceHash'', JStr (hex (tp_sha256 P nb))),
      (u ''protocol'', JStr (u ''particle-session/2'')), (u ''issuedAt'', JInt t),
      (u ''expiresAt'', JInt (t + admission_ttl_seconds (trust_config tr)))]"
  have s: "sign_object P tr (JDict ?claims) = Inr grant"
    using assms(4) k by (simp add: issue_admission_def)
  then have v: "verify_signed_object P tr grant None = Inr True"
    by (rule signed_verifies [OF assms(1,2)])
  have "dict_of (jget (dict_of grant) ''payload'') = ?claims"
    using s by (auto simp: sign_object_Inr dict_of_def jget_def)
  then show ?thesis
    unfolding verify_admission_def v
    using assms(3,5,6) k hex_ascii
    by (simp add: Let_def keys_are_def jget_def compare_digest_def text_of_length_def is_int_def int_of_def
        hex_length insert_commute)
qed

section \<open>Properties\<close>

text \<open>A grant the node issued is accepted by its own verifier for the same key from its issue to
  its expiry.\<close>

theorem admission_roundtrip:
  assumes "ecdsa_ok P (trust_public_key tr)" "trust_ok P tr" "\<forall>b. length (tp_sha256 P b) = 32"
    and "issue_admission P tr pk nonce t = Inr grant"
    and "t \<le> now" "now \<le> t + admission_ttl_seconds (trust_config tr)"
  shows "verify_admission P tr grant pk now = Inr True"
  using assms by (rule verify_issued)

theorem admission_roundtrip_witness:
  "\<exists>grant. issue_admission ex_tp ex_trust (u ''04'') (u ''n'') 100 = Inr grant \<and>
     verify_admission ex_tp ex_trust grant (u ''04'') 105 = Inr True"
proof -
  have f: "fromhex (u ''04'') = Some [4]" by (simp add: u_def hexval_def is_py_space_def)
  obtain nb where n: "utf8_encode (u ''n'') = Some nb" by (simp add: utf8_encode_def u_def is_surrogate_def)
  obtain grant where g: "issue_admission ex_tp ex_trust (u ''04'') (u ''n'') 100 = Inr grant"
    using f n sign_object_ok [OF ex_trust_ok(4)] by (fastforce simp: issue_admission_def ex_trust_def default_config_def)
  show ?thesis
    using admission_roundtrip [OF ex_trust_ok(1,2,3) g, of 105] g by (simp add: ex_trust_def default_config_def)
qed



text \<open>A node's own manifest, fresh from \<^verbatim>\<open>sign_object\<close>, is accepted by another node that pins
  its key, as long as the signing key is within its validity period.\<close>

theorem manifest_roundtrip:
  assumes "ecdsa_ok P (trust_public_key tr)" "trust_ok P tr"
    and "sign_object P tr (manifest_payload tr t) = Inr m"
    and "signing_key_activates_at (trust_config tr) \<le> now" "now \<le> signing_key_expires_at (trust_config tr)"
  shows "parse_signed_manifest P m (trust_key_id tr) now = Inr (Some (manifest_payload tr t))"
proof -
  obtain b where b: "canonical_json_bytes (tp_float P) (manifest_payload tr t) = Inr b"
    "m = JDict [(u ''payload'', manifest_payload tr t), (u ''keyId'', JStr (trust_key_id tr)),
                (u ''signatureHex'', JStr (hex (raw_signature P b)))]"
    using assms(3) by (auto simp: sign_object_Inr)
  define p where "p = dict_of (manifest_payload tr t)"
  have p: "manifest_payload tr t = JDict p" using manifest_fields(2) by (simp add: p_def)
  have f: "keys_are p MANIFEST_FIELDS"
    "jget p ''signingPublicKeyHex'' = JStr (hex (trust_public_key tr))"
    "jget p ''signingKeyId'' = JStr (trust_key_id tr)" "jget p ''format'' = JStr (u ''particle-node-manifest/2'')"
    "jget p ''signingKeyValidity'' = JDict [(u ''activatesAt'', JInt (signing_key_activates_at (trust_config tr))),
        (u ''expiresAt'', JInt (signing_key_expires_at (trust_config tr)))]"
    by (simp_all add: p_def manifest_payload_def Let_def dict_of_def jget_def keys_are_def MANIFEST_FIELDS_def
        insert_commute)
  have low: "lower_ascii (hex bs) = hex bs" for bs
    by (rule lower_hex)
  have d: "jget [(u ''payload'', JDict p), (u ''keyId'', JStr k), (u ''signatureHex'', JStr sg)] ''payload'' = JDict p"
    "jget [(u ''payload'', JDict p), (u ''keyId'', JStr k), (u ''signatureHex'', JStr sg)] ''keyId'' = JStr k"
    "jget [(u ''payload'', JDict p), (u ''keyId'', JStr k), (u ''signatureHex'', JStr sg)] ''signatureHex'' = JStr sg"
    "keys_are [(u ''payload'', JDict p), (u ''keyId'', JStr k), (u ''signatureHex'', JStr sg)]
       [''payload'', ''keyId'', ''signatureHex'']" for k sg
    by (simp_all add: jget_def keys_are_def)
  show ?thesis
    using raw_signature_verifies [OF assms(1), of b] assms(2,4,5) b(1) [unfolded p]
    unfolding b(2) p parse_signed_manifest_def
    by (simp add: d f try_fromhex_def Let_def trust_ok_def low is_int_def) (simp add: jget_def int_of_def is_int_def)
qed

theorem manifest_roundtrip_witness:
  "\<exists>m. sign_object ex_tp ex_trust (manifest_payload ex_trust 100) = Inr m \<and>
     parse_signed_manifest ex_tp m (hex (replicate 32 0)) 100 = Inr (Some (manifest_payload ex_trust 100))"
proof -
  obtain m where m: "sign_object ex_tp ex_trust (manifest_payload ex_trust 100) = Inr m"
    using sign_object_ok [OF ex_trust_ok(4) ex_manifest_encodable] by blast
  then show ?thesis
    using manifest_roundtrip [OF ex_trust_ok(1,2) m, of 100] by (simp add: ex_trust_def default_config_def)
qed

text \<open>The manifest the node serves, cached or newly signed, is always valid for at least another
  60 seconds.\<close>

theorem served_manifest_fresh:
  assumes "node_manifest P None clock tr = Inr (m, tr')" "60 \<le> manifest_ttl_seconds (trust_config tr)"
  shows "clock + 60 \<le> expires_of m"
  using assms expires_of_signed
  by (force simp: node_manifest_def Let_def rbind_eq_Inr split: option.splits if_splits)

theorem served_manifest_fresh_witness:
  "\<exists>m tr'. node_manifest ex_tp None 100 ex_trust = Inr (m, tr') \<and> 160 \<le> expires_of m"
proof -
  obtain s where "sign_object ex_tp ex_trust (manifest_payload ex_trust 100) = Inr s"
    using sign_object_ok [OF ex_trust_ok(4) ex_manifest_encodable] by blast
  then obtain m tr' where m: "node_manifest ex_tp None 100 ex_trust = Inr (m, tr')"
    by (simp add: node_manifest_def ex_trust_def)
  have "60 \<le> manifest_ttl_seconds (trust_config ex_trust)" by (simp add: ex_trust_def default_config_def)
  from served_manifest_fresh [OF m this] m show ?thesis by auto
qed

end
