(* ===== verification/Turn.thy ===== *)
theory Turn
  imports Config Canonical Protocol
begin

text \<open>
  \<^verbatim>\<open>app/turn.py\<close>: short-lived TURN credentials. The decoded configuration texts are arguments
  (\<open>None\<close> where \<^verbatim>\<open>json.loads\<close> raises \<^verbatim>\<open>JSONDecodeError\<close>), as are the HMAC, the
  random suffix of the user name and the Unicode property behind \<^verbatim>\<open>str.isalnum\<close>.
\<close>

section \<open>Definitions\<close>

text \<open>\<^verbatim>\<open>base64.b64encode\<close>\<close>

definition b64_char :: "nat \<Rightarrow> nat" where
  "b64_char n =
     (if n < 26 then 65 + n else if n < 52 then 71 + n else if n < 62 then n - 4 else if n = 62 then 43 else 47)"

fun b64encode :: "bytes \<Rightarrow> pystr" where
  "b64encode [] = []"
| "b64encode [a] = (let n = unat a in [b64_char (n div 4), b64_char (n mod 4 * 16), 61, 61])"
| "b64encode [a, b] =
     (let n = 256 * unat a + unat b
      in [b64_char (n div 1024), b64_char (n div 16 mod 64), b64_char (n mod 16 * 4), 61])"
| "b64encode (a # b # c # bs) =
     (let n = 65536 * unat a + 256 * unat b + unat c
      in b64_char (n div 262144) # b64_char (n div 4096 mod 64) # b64_char (n div 64 mod 64) # b64_char (n mod 64) #
         b64encode bs)"

definition safe_char :: "(nat \<Rightarrow> bool) \<Rightarrow> nat \<Rightarrow> bool" where
  "safe_char isalnum ch \<longleftrightarrow> isalnum ch \<or> ch = 45 \<or> ch = 95"

type_synonym turn_entry = "int \<times> pystr \<times> pystr"

text \<open>Tuple comparison, as \<^verbatim>\<open>max(active)\<close> uses it.\<close>

definition entry_less :: "turn_entry \<Rightarrow> turn_entry \<Rightarrow> bool" where
  "entry_less x y =
     (case (x, y) of ((a, i, s), (b, j, t)) \<Rightarrow> a < b \<or> a = b \<and> (i < j \<or> i = j \<and> s < t))"

fun max_entry :: "turn_entry \<Rightarrow> turn_entry list \<Rightarrow> turn_entry" where
  "max_entry m [] = m"
| "max_entry m (x # xs) = max_entry (if entry_less m x then x else m) xs"

definition read_entry :: "(nat \<Rightarrow> bool) \<Rightarrow> json \<Rightarrow> (turn_entry \<times> int) result" where
  "read_entry isalnum entry =
     (case entry of
        JDict d \<Rightarrow>
          if \<not> keys_are d [''id'', ''secret'', ''activatesAt'', ''expiresAt''] then Inl (ValueError ''fields'')
          else (case (jget d ''id'', jget d ''secret'', jget d ''activatesAt'', jget d ''expiresAt'') of
              (JStr key_id, JStr secret, JInt activates_at, JInt expires_at) \<Rightarrow>
                if \<not> (1 \<le> length key_id \<and> length key_id \<le> 16) \<or> \<not> list_all (safe_char isalnum) key_id \<or>
                   length secret < 16 then Inl (ValueError ''entry'')
                else Inr ((activates_at, key_id, secret), expires_at)
            | _ \<Rightarrow> Inl (ValueError ''entry''))
      | _ \<Rightarrow> Inl (ValueError ''fields''))"

fun active_entries :: "(nat \<Rightarrow> bool) \<Rightarrow> int \<Rightarrow> json list \<Rightarrow> turn_entry list result" where
  "active_entries isalnum now [] = Inr []"
| "active_entries isalnum now (e # es) =
     rbind (read_entry isalnum e) (\<lambda>(x, expires_at).
     rbind (active_entries isalnum now es) (\<lambda>xs.
       Inr (if fst x \<le> now \<and> now \<le> expires_at then x # xs else xs)))"

definition active_shared_secret ::
  "(nat \<Rightarrow> bool) \<Rightarrow> json option \<Rightarrow> config \<Rightarrow> int \<Rightarrow> (pystr \<times> pystr) result" where
  "active_shared_secret isalnum entries c now =
     (case entries of
        Some (JList es) \<Rightarrow>
          if length es > 8 then Inl (ValueError ''too many'')
          else rbind (active_entries isalnum now es) (\<lambda>active.
                 case active of
                   x # xs \<Rightarrow> Inr (snd (max_entry x xs))
                 | [] \<Rightarrow> if turn_shared_secret c \<noteq> [] then Inr (u ''legacy'', turn_shared_secret c) else Inr ([], []))
      | _ \<Rightarrow> Inl (ValueError ''shared secrets''))"

definition turn_url :: "json \<Rightarrow> bool" where
  "turn_url v =
     (case v of
        JStr s \<Rightarrow> take 5 s = u ''turn:'' \<or> take 6 s = u ''turns:''
      | _ \<Rightarrow> False)"

definition turn_urls :: "json option \<Rightarrow> json list result" where
  "turn_urls urls =
     (case urls of
        Some (JList us) \<Rightarrow>
          if \<not> (1 \<le> length us \<and> length us \<le> 16) then Inl (ValueError ''urls'')
          else if \<not> list_all turn_url us then Inl (ValueError ''scheme'')
          else Inr us
      | _ \<Rightarrow> Inl (ValueError ''urls''))"

definition safe_prefix :: "(nat \<Rightarrow> bool) \<Rightarrow> pystr \<Rightarrow> pystr result" where
  "safe_prefix isalnum value =
     (if value = [] \<or> length value > 32 \<or> \<not> list_all (safe_char isalnum) value
      then Inl (ValueError ''prefix'') else Inr value)"

definition valid_ice_server :: "json \<Rightarrow> bool" where
  "valid_ice_server server =
     (case server of
        JDict d \<Rightarrow>
          keys_are d [''urls'', ''username'', ''credential''] \<and>
          (let entries = (case jget d ''urls'' of JList us \<Rightarrow> us | v \<Rightarrow> [v])
           in entries \<noteq> [] \<and> list_all turn_url entries) \<and>
          (case jget d ''username'' of JStr _ \<Rightarrow> True | _ \<Rightarrow> False) \<and>
          (case jget d ''credential'' of JStr _ \<Rightarrow> True | _ \<Rightarrow> False)
      | _ \<Rightarrow> False)"

definition valid_ice_servers :: "json \<Rightarrow> bool" where
  "valid_ice_servers value =
     (case value of
        JList servers \<Rightarrow> 1 \<le> length servers \<and> length servers \<le> 16 \<and> list_all valid_ice_server servers
      | _ \<Rightarrow> False)"

text \<open>The decoded texts of the configuration.\<close>

record turn_texts =
  shared_secrets :: "json option"
  urls_text :: "json option"
  servers_text :: "json option"

definition turn_username :: "int \<Rightarrow> pystr \<Rightarrow> pystr \<Rightarrow> pystr \<Rightarrow> pystr" where
  "turn_username expires_at prefix secret_id token =
     dump_int expires_at @ [58] @ prefix @ [45] @ secret_id @ [45] @ token"

definition turn_issue ::
  "(nat \<Rightarrow> bool) \<Rightarrow> (bytes \<Rightarrow> bytes \<Rightarrow> bytes) \<Rightarrow> turn_texts \<Rightarrow> config \<Rightarrow> pystr \<Rightarrow> int \<Rightarrow> json result" where
  "turn_issue isalnum hmac_sha1 txt c token current =
     (let expires_at = current + turn_ttl_seconds c;
          answer = (\<lambda>servers. JDict [(u ''iceServers'', servers), (u ''expiresAt'', JInt expires_at)])
      in rbind (active_shared_secret isalnum (shared_secrets txt) c current) (\<lambda>(secret_id, shared_secret).
         if shared_secret \<noteq> [] then
           rbind (turn_urls (urls_text txt)) (\<lambda>urls.
           rbind (safe_prefix isalnum (turn_username_prefix c)) (\<lambda>prefix.
             let username = turn_username expires_at prefix secret_id token
             in case (utf8_encode shared_secret, utf8_encode username) of
                  (Some kb, Some ub) \<Rightarrow>
                    Inr (answer (JList [JDict [(u ''urls'', JList urls), (u ''username'', JStr username),
                           (u ''credential'', JStr (b64encode (hmac_sha1 kb ub)))]]))
                | _ \<Rightarrow> Inl UnicodeEncodeError))
         else (case servers_text txt of
                 None \<Rightarrow> Inl (ValueError ''invalid JSON'')
               | Some servers \<Rightarrow>
                   if valid_ice_servers servers then Inr (answer servers) else Inl (ValueError ''TURN is unavailable''))))"

section \<open>Choosing the secret\<close>

lemma entry_less_trans: "entry_less x y \<Longrightarrow> entry_less y z \<Longrightarrow> entry_less x z"
  by (auto simp: entry_less_def split: prod.splits)

lemma entry_less_irrefl: "\<not> entry_less x x"
  by (auto simp: entry_less_def)

lemma entry_less_total: "entry_less x y \<or> x = y \<or> entry_less y x"
  by (auto simp: entry_less_def split: prod.splits)

lemma max_entry_max: "max_entry m xs \<in> set (m # xs) \<and> (\<forall>y \<in> set (m # xs). \<not> entry_less (max_entry m xs) y)"
proof (induction xs arbitrary: m)
  case Nil
  then show ?case by (simp add: entry_less_irrefl)
next
  case (Cons x xs)
  let ?m' = "if entry_less m x then x else m"
  have IH: "max_entry ?m' xs \<in> set (?m' # xs)" "\<forall>y \<in> set (?m' # xs). \<not> entry_less (max_entry ?m' xs) y"
    using Cons.IH [of ?m'] by auto
  have "\<not> entry_less (max_entry ?m' xs) y" if "y \<in> {m, x}" for y
  proof
    assume less: "entry_less (max_entry ?m' xs) y"
    have "\<not> entry_less (max_entry ?m' xs) ?m'" using IH(2) by simp
    moreover have "y = ?m' \<or> entry_less y ?m' \<or> \<not> entry_less m x \<and> y = x"
      using that by auto
    ultimately show False
      using less that entry_less_trans entry_less_total by (metis (full_types))
  qed
  with IH show ?case by auto
qed

lemma active_entries_Inr:
  "active_entries isalnum now es = Inr xs \<Longrightarrow>
     set xs = {x. \<exists>e \<in> set es. \<exists>t. read_entry isalnum e = Inr (x, t) \<and> fst x \<le> now \<and> now \<le> t}"
proof (induction es arbitrary: xs)
  case (Cons e es)
  then obtain x t ys where *: "read_entry isalnum e = Inr (x, t)" "active_entries isalnum now es = Inr ys"
    "xs = (if fst x \<le> now \<and> now \<le> t then x # ys else ys)"
    by (auto simp: rbind_eq_Inr)
  show ?case using Cons.IH [OF *(2)] * by auto
qed simp

section \<open>Servers handed out\<close>

lemma turn_urls_valid: "turn_urls t = Inr urls \<Longrightarrow> urls \<noteq> [] \<and> list_all turn_url urls"
  by (auto simp: turn_urls_def split: option.splits json.splits if_splits)

lemma issued_server_valid:
  "urls \<noteq> [] \<and> list_all turn_url urls \<Longrightarrow>
     valid_ice_servers (JList [JDict [(u ''urls'', JList urls), (u ''username'', JStr x), (u ''credential'', JStr y)]])"
  by (simp add: valid_ice_servers_def valid_ice_server_def keys_are_def jget_def)

section \<open>Properties\<close>

text \<open>C38: The shared secret in use is one whose validity period contains the current time, and no
  other such secret was activated later: a rotated key takes over as soon as it activates and an
  expired one is never used.\<close>

theorem turn_secret_current:
  assumes "active_shared_secret isalnum (Some (JList es)) c now = Inr (key_id, secret)"
    and "e \<in> set es" "read_entry isalnum e = Inr (x, t)" "fst x \<le> now" "now \<le> t"
  shows "\<exists>e' \<in> set es. \<exists>a t'. read_entry isalnum e' = Inr ((a, key_id, secret), t') \<and>
    a \<le> now \<and> now \<le> t' \<and> fst x \<le> a"
proof -
  obtain active where act: "active_entries isalnum now es = Inr active"
    using assms(1) by (auto simp: active_shared_secret_def rbind_eq_Inr split: if_splits)
  have "x \<in> set active" using active_entries_Inr [OF act] assms(2-5) by blast
  then obtain y ys where y: "active = y # ys" by (cases active) auto
  have m: "snd (max_entry y ys) = (key_id, secret)"
    using assms(1) act y by (simp add: active_shared_secret_def rbind_eq_Inr split: if_splits)
  obtain a where a: "max_entry y ys = (a, key_id, secret)" using m by (cases "max_entry y ys") auto
  have "(a, key_id, secret) \<in> set active" "\<not> entry_less (a, key_id, secret) x"
    using max_entry_max [of y ys] a \<open>x \<in> set active\<close> y by auto
  then show ?thesis
    using active_entries_Inr [OF act] by (cases x) (fastforce simp: entry_less_def)
qed

theorem turn_secret_current_witness:
  "\<exists>key_id secret. active_shared_secret (\<lambda>ch. True) (Some (JList
     [JDict [(u ''id'', JStr (u ''a'')), (u ''secret'', JStr (u ''0123456789abcdef'')), (u ''activatesAt'', JInt 1),
        (u ''expiresAt'', JInt 9)]])) default_config 5 = Inr (key_id, secret) \<and> key_id = u ''a''"
proof -
  let ?e = "JDict [(u ''id'', JStr (u ''a'')), (u ''secret'', JStr (u ''0123456789abcdef'')), (u ''activatesAt'', JInt 1),
        (u ''expiresAt'', JInt 9)]"
  have r: "read_entry (\<lambda>ch. True) ?e = Inr ((1, u ''a'', u ''0123456789abcdef''), 9)"
    by (simp add: read_entry_def keys_are_def jget_def safe_char_def list_all_iff insert_commute)
  then have "active_shared_secret (\<lambda>ch. True) (Some (JList [?e])) default_config 5 = Inr (u ''a'', u ''0123456789abcdef'')"
    by (simp add: active_shared_secret_def)
  from turn_secret_current [OF this, of ?e "(1, u ''a'', u ''0123456789abcdef'')" 9] this r
  show ?thesis by auto
qed

text \<open>Whatever the issuer hands out is a well-formed \<^verbatim>\<open>iceServers\<close> list, with an expiry
  exactly \<^verbatim>\<open>turn_ttl_seconds\<close> ahead.\<close>

theorem turn_issue_valid:
  assumes "turn_issue isalnum hmac_sha1 txt c token now = Inr v"
  shows "\<exists>servers. v = JDict [(u ''iceServers'', servers), (u ''expiresAt'', JInt (now + turn_ttl_seconds c))] \<and>
    valid_ice_servers servers"
proof -
  obtain sid sec where s: "active_shared_secret isalnum (shared_secrets txt) c now = Inr (sid, sec)"
    using assms by (auto simp: turn_issue_def Let_def rbind_eq_Inr)
  show ?thesis
  proof (cases "sec = []")
    case True
    with assms s show ?thesis by (auto simp: turn_issue_def Let_def split: option.splits if_splits)
  next
    case False
    let ?user = "\<lambda>prefix. turn_username (now + turn_ttl_seconds c) prefix sid token"
    obtain urls prefix kb ub where *: "turn_urls (urls_text txt) = Inr urls" "utf8_encode sec = Some kb"
      "utf8_encode (?user prefix) = Some ub"
      "v = JDict [(u ''iceServers'', JList [JDict [(u ''urls'', JList urls), (u ''username'', JStr (?user prefix)),
         (u ''credential'', JStr (b64encode (hmac_sha1 kb ub)))]]), (u ''expiresAt'', JInt (now + turn_ttl_seconds c))]"
      using assms s False by (auto simp: turn_issue_def Let_def rbind_eq_Inr split: option.splits)
    show ?thesis using *(4) turn_urls_valid [OF *(1)] by (simp add: issued_server_valid)
  qed
qed

theorem turn_issue_valid_witness:
  "\<exists>v. turn_issue (\<lambda>ch. True) (\<lambda>k m. []) \<lparr>shared_secrets = Some (JList []), urls_text = None,
     servers_text = Some (JList [JDict [(u ''urls'', JStr (u ''turn:x'')), (u ''username'', JStr []),
        (u ''credential'', JStr [])]])\<rparr> default_config [] 0 = Inr v"
proof -
  let ?t = "\<lparr>shared_secrets = Some (JList []), urls_text = None,
     servers_text = Some (JList [JDict [(u ''urls'', JStr (u ''turn:x'')), (u ''username'', JStr []),
        (u ''credential'', JStr [])]])\<rparr>"
  obtain v where v: "turn_issue (\<lambda>ch. True) (\<lambda>k m. []) ?t default_config [] 0 = Inr v"
    by (simp add: turn_issue_def active_shared_secret_def default_config_def valid_ice_servers_def
        valid_ice_server_def keys_are_def jget_def turn_url_def insert_commute u_def)
  from turn_issue_valid [OF v] v show ?thesis by blast
qed

end
