(* ===== verification/Health.thy ===== *)
theory Health
  imports Hub
begin

text \<open>
  \<^verbatim>\<open>app/health.py\<close>: the readiness probe. The wall clock and the quorum of the node mesh are
  arguments (\<open>None\<close> where the probe is built without a trust or mesh object).
\<close>

text \<open>\<^verbatim>\<open>str.strip()\<close>: the code points Unicode has as white space or separators of a paragraph.\<close>

definition is_unicode_space :: "nat \<Rightarrow> bool" where
  "is_unicode_space ch \<longleftrightarrow> 9 \<le> ch \<and> ch \<le> 13 \<or> 28 \<le> ch \<and> ch \<le> 32 \<or> 8192 \<le> ch \<and> ch \<le> 8202 \<or>
     ch \<in> {133, 160, 5760, 8232, 8233, 8239, 8287, 12288}"

definition strip :: "pystr \<Rightarrow> pystr" where
  "strip s = rev (dropWhile is_unicode_space (rev (dropWhile is_unicode_space s)))"

definition turn_configured :: "config \<Rightarrow> bool" where
  "turn_configured c \<longleftrightarrow> turn_shared_secret c \<noteq> [] \<or>
     strip (turn_shared_secrets_json c) \<notin> u ` {'''', ''[]''} \<or> strip (turn_servers_json c) \<notin> u ` {'''', ''[]''}"

definition readiness_reasons :: "hub \<Rightarrow> config \<Rightarrow> metrics \<Rightarrow> int option \<Rightarrow> bool option \<Rightarrow> string list" where
  "readiness_reasons h c m trust_time quorum =
     (if session_count h \<ge> max_concurrency c then [''session-capacity''] else []) @
     (if (case trust_time of None \<Rightarrow> False | Some t \<Rightarrow> t > signing_key_expires_at c) then [''signing-key-expired''] else []) @
     (if quantile ''event_loop_lag_seconds'' (99 / 100) m > readiness_event_loop_p99_seconds c then [''event-loop-lag''] else []) @
     (if gauge_value ''process_rss_bytes'' m > real_of_int (readiness_rss_bytes c) then [''memory-pressure''] else []) @
     (if readiness_require_turn c \<and> \<not> turn_configured c then [''turn-unavailable''] else []) @
     (if node_mesh_enabled c \<and> (case quorum of None \<Rightarrow> False | Some q \<Rightarrow> \<not> q) then [''node-quorum''] else []) @
     (if node_mesh_enabled c \<and> gauge_value ''node_mesh_clock_skew_seconds'' m > node_mesh_max_clock_skew_seconds c
      then [''node-clock-skew''] else [])"

definition readyz :: "hub \<Rightarrow> config \<Rightarrow> metrics \<Rightarrow> int option \<Rightarrow> bool option \<Rightarrow> nat" where
  "readyz h c m trust_time quorum = (if readiness_reasons h c m trust_time quorum \<noteq> [] then 503 else 204)"

lemma ready_below_capacity: "readyz h c m t q = 204 \<Longrightarrow> session_count h < max_concurrency c"
  by (auto simp: readyz_def readiness_reasons_def split: if_splits)

end
