(* ===== verification/V2_Routes.thy ===== *)
theory V2_Routes
  imports V1_System Trust Turn Health
begin

text \<open>
  \<^verbatim>\<open>app/v2.py\<close>: the V2 endpoints. The WebSocket handlers work on the hub, the trust object (whose
  manifest cache they refresh) and the global signal limiter. Where a handler awaits the node
  mesh, it ends with the request it makes of the mesh (\<open>Register\<close>, \<open>Unregister\<close>, \<open>Discover\<close>,
  \<open>Forward\<close>), and a second function continues with the answer. \<open>remote\<close> is what
  \<^verbatim>\<open>node_mesh.remote_descriptor\<close> returns for the recipient; \<open>wall\<close> is
  \<^verbatim>\<open>int(time.time())\<close>, \<open>now\<close> the monotonic clock.
\<close>

section \<open>The admission limiter\<close>

record admission_limiter =
  al_buckets :: "(pystr, token_bucket \<times> real) dict"
  per_client_burst :: real
  per_client_refill :: real
  global_bucket :: token_bucket

definition new_admission_limiter :: "real \<Rightarrow> real \<Rightarrow> real \<Rightarrow> real \<Rightarrow> real \<Rightarrow> admission_limiter" where
  "new_admission_limiter client_burst client_refill global_burst global_refill now =
     \<lparr>al_buckets = [], per_client_burst = client_burst, per_client_refill = client_refill,
      global_bucket = new_bucket global_burst global_refill now\<rparr>"

text \<open>
  \<^verbatim>\<open>pop\<close> and re-insertion move a client to the end of the dict, so the eviction loop drops the
  clients that were seen longest ago.
\<close>

definition admission_allow :: "real \<Rightarrow> pystr \<Rightarrow> admission_limiter \<Rightarrow> bool \<times> admission_limiter" where
  "admission_allow now client_key l =
     (let bucket = (case dget (al_buckets l) client_key of
                      Some (b, t) \<Rightarrow> b
                    | None \<Rightarrow> new_bucket (per_client_burst l) (per_client_refill l) now);
          bs = dpop (al_buckets l) client_key @ [(client_key, (bucket, now))];
          bs1 = drop (length bs - 4096) bs
      in case try_consume now 1 bucket of (ok, bucket') \<Rightarrow>
           let l1 = l\<lparr>al_buckets := dset bs1 client_key (bucket', now)\<rparr>
           in if \<not> ok then (False, l1)
              else (case try_consume now 1 (global_bucket l1) of (ok', g) \<Rightarrow> (ok', l1\<lparr>global_bucket := g\<rparr>)))"

section \<open>Requests\<close>

text \<open>An HTTP answer, an \<^verbatim>\<open>HTTPException\<close>, or another exception.\<close>

datatype http = Answer json | Status nat | Fault exn

fun read_body :: "int \<Rightarrow> bytes \<Rightarrow> bytes list \<Rightarrow> bytes option" where
  "read_body maximum body [] = Some body"
| "read_body maximum body (chunk # chunks) =
     (if int (length body + length chunk) > maximum then None else read_body maximum (body @ chunk) chunks)"

definition bounded_json_request :: "bytes list \<Rightarrow> int \<Rightarrow> (nat + (pystr \<times> json) list) result" where
  "bounded_json_request chunks maximum =
     (case read_body maximum [] chunks of
        None \<Rightarrow> Inr (Inl 413)
      | Some body \<Rightarrow>
          (case loads_strict (Raw body) maximum 16 512 maximum of
             Inl (StrictJsonError _) \<Rightarrow> Inr (Inl 400)
           | Inl e \<Rightarrow> Inl e
           | Inr (JDict d) \<Rightarrow> Inr (Inr d)
           | Inr _ \<Rightarrow> Inr (Inl 400)))"

definition is_hex_bytes :: "json \<Rightarrow> nat \<Rightarrow> bool" where
  "is_hex_bytes value n =
     (case value of
        JStr s \<Rightarrow> length s = 2 * n \<and> (case fromhex s of None \<Rightarrow> False | Some b \<Rightarrow> length b = n)
      | _ \<Rightarrow> False)"

text \<open>\<open>on_curve\<close> stands for \<^verbatim>\<open>EllipticCurvePublicKey.from_encoded_point\<close>.\<close>

definition is_p256_point :: "(bytes \<Rightarrow> bool) \<Rightarrow> json \<Rightarrow> bool" where
  "is_p256_point on_curve value \<longleftrightarrow>
     is_hex_bytes value 65 \<and> (case fromhex (jstr value) of None \<Rightarrow> False | Some b \<Rightarrow> on_curve b)"

record v2_state =
  v2_hub :: hub
  v2_trust :: node_trust
  signal_limiter :: token_bucket
  admission_lim :: admission_limiter
  turn_lim :: admission_limiter

abbreviation v2_count :: "string \<Rightarrow> v2_state \<Rightarrow> v2_state" where
  "v2_count name st \<equiv> st\<lparr>v2_hub := count name (v2_hub st)\<rparr>"

text \<open>
  Sequencing: a computation that raises ends the request with the state it has reached. \<open>with_manifest\<close>
  is \<^verbatim>\<open>trust.manifest()\<close>, which may refresh the cached manifest.
\<close>

definition http_try :: "'a result \<Rightarrow> v2_state \<Rightarrow> ('a \<Rightarrow> http \<times> v2_state) \<Rightarrow> http \<times> v2_state" where
  "http_try r st k = (case r of Inl e \<Rightarrow> (Fault e, st) | Inr x \<Rightarrow> k x)"

definition with_manifest :: "trust_prims \<Rightarrow> int \<Rightarrow> v2_state \<Rightarrow> (json \<times> v2_state) result" where
  "with_manifest P wall st = rbind (node_manifest P None wall (v2_trust st)) (\<lambda>(m, tr). Inr (m, st\<lparr>v2_trust := tr\<rparr>))"

definition nonce_ok :: "json \<Rightarrow> bool result" where
  "nonce_ok nonce =
     (case nonce of
        JStr s \<Rightarrow> (case utf8_len s of None \<Rightarrow> Inl UnicodeEncodeError | Some n \<Rightarrow> Inr (16 \<le> n \<and> n \<le> 128))
      | _ \<Rightarrow> Inr False)"

text \<open>The part of the admission handler that holds a slot of the semaphore.\<close>

definition admission_grant ::
  "trust_prims \<Rightarrow> (bytes \<Rightarrow> bool) \<Rightarrow> config \<Rightarrow> int \<Rightarrow> json \<Rightarrow> json \<Rightarrow> v2_state \<Rightarrow> http \<times> v2_state" where
  "admission_grant P on_curve c wall key nonce st =
     (if \<not> is_p256_point on_curve key then (Status 400, v2_count ''admission_rejections'' st)
      else http_try (with_manifest P wall st) st (\<lambda>(m, st1).
           http_try (issue_admission P (v2_trust st1) (jstr key) (jstr nonce) wall) st1 (\<lambda>grant.
             let st2 = v2_count ''admissions_issued'' st1
             in http_try (manifest_hash P m) st2 (\<lambda>mh.
                  (Answer (JDict [(u ''grant'', grant), (u ''expiresAt'', JInt (expires_of grant)),
                                  (u ''nodeId'', JStr (node_id c)), (u ''manifestHash'', JStr mh)]), st2)))))"

text \<open>
  \<^verbatim>\<open>POST /v2/admission\<close>; \<open>slot\<close> tells whether the semaphore was acquired in time (it is released
  on every path).
\<close>

definition admission_request ::
  "trust_prims \<Rightarrow> (bytes \<Rightarrow> bool) \<Rightarrow> config \<Rightarrow> real \<Rightarrow> int \<Rightarrow> bool \<Rightarrow> pystr \<Rightarrow> bytes list \<Rightarrow> v2_state \<Rightarrow> http \<times> v2_state" where
  "admission_request P on_curve c now wall slot client_key chunks st =
     (case admission_allow now client_key (admission_lim st) of (ok, l) \<Rightarrow>
        let st1 = st\<lparr>admission_lim := l\<rparr>
        in if \<not> ok then (Status 429, v2_count ''admission_rate_rejections'' st1)
           else http_try (bounded_json_request chunks (max_frame_bytes c)) st1 (\<lambda>req.
             case req of
               Inl code \<Rightarrow> (Status code, st1)
             | Inr body \<Rightarrow>
                 let key = jget body ''publicKeyHex''; nonce = jget body ''nonce''
                 in if \<not> keys_are body [''publicKeyHex'', ''nonce'', ''protocol''] then (Status 400, st1)
                    else if \<not> is_hex_bytes key 65 then (Status 400, v2_count ''admission_rejections'' st1)
                    else http_try (nonce_ok nonce) st1 (\<lambda>ok.
                      if \<not> ok then (Status 400, v2_count ''admission_rejections'' st1)
                      else if jget body ''protocol'' \<noteq> JStr (protocol_version ''SESSION_V2'') then (Status 400, st1)
                      else if \<not> slot then (Status 503, v2_count ''admission_load_rejections'' st1)
                      else admission_grant P on_curve c wall key nonce st1)))"

text \<open>\<^verbatim>\<open>POST /v2/turn\<close>; a \<^verbatim>\<open>UnicodeEncodeError\<close> is a \<^verbatim>\<open>ValueError\<close>.\<close>

definition turn_request ::
  "trust_prims \<Rightarrow> (nat \<Rightarrow> bool) \<Rightarrow> (bytes \<Rightarrow> bytes \<Rightarrow> bytes) \<Rightarrow> turn_texts \<Rightarrow> config \<Rightarrow> real \<Rightarrow> int \<Rightarrow> pystr \<Rightarrow> pystr
     \<Rightarrow> bytes list \<Rightarrow> v2_state \<Rightarrow> http \<times> v2_state" where
  "turn_request P isalnum hmac_sha1 txt c now wall token client_key chunks st =
     (case admission_allow now client_key (turn_lim st) of (ok, l) \<Rightarrow>
        let st1 = st\<lparr>turn_lim := l\<rparr>
        in if \<not> ok then (Status 429, v2_count ''turn_rate_rejections'' st1)
           else http_try (bounded_json_request chunks (max_frame_bytes c)) st1 (\<lambda>req.
             case req of
               Inl code \<Rightarrow> (Status code, st1)
             | Inr body \<Rightarrow>
                 if \<not> keys_are body [''grant'', ''publicKeyHex''] then (Status 400, st1)
                 else (case (jget body ''grant'', jget body ''publicKeyHex'') of
                     (JDict g, JStr pk) \<Rightarrow>
                       http_try (verify_admission P (v2_trust st1) (JDict g) pk wall) st1 (\<lambda>ok.
                         if \<not> ok then (Status 401, st1)
                         else (case turn_issue isalnum hmac_sha1 txt c token wall of
                                 Inr v \<Rightarrow> (Answer v, v2_count ''turn_credentials_issued'' st1)
                               | Inl _ \<Rightarrow> (Status 503, st1)))
                   | _ \<Rightarrow> (Status 401, st1))))"

definition metrics_access :: "config \<Rightarrow> pystr \<Rightarrow> pystr \<Rightarrow> bool \<Rightarrow> bool result" where
  "metrics_access c client_host authorization forwarded =
     (let loopback = client_host \<in> u ` {''127.0.0.1'', ''::1'', ''localhost''} \<and> \<not> forwarded
      in if metrics_token c = [] then Inr loopback
         else if list_all (\<lambda>ch. ch < 128) authorization \<and> list_all (\<lambda>ch. ch < 128) (metrics_token c)
         then Inr (loopback \<or> authorization = u ''Bearer '' @ metrics_token c)
         else Inl TypeError)"

definition node_gate :: "config \<Rightarrow> pystr \<Rightarrow> pystr \<Rightarrow> hub \<Rightarrow> bool \<times> hub" where
  "node_gate c verified proxy_token h =
     (if \<not> node_mesh_enabled c then (False, h)
      else if node_mesh_require_mtls c \<and>
           (verified \<noteq> node_mesh_client_verify_value c \<or> node_mesh_proxy_token c = [] \<or>
            proxy_token \<noteq> node_mesh_proxy_token c)
      then (False, count ''node_mesh_mtls_rejections'' h)
      else (True, h))"

section \<open>WebSocket messages\<close>

datatype v2_next =
    VContinue
  | VBreak
  | VRaise exn
  | Register pystr json
  | Unregister pystr json
  | Discover pystr "(pystr \<times> json) list list" json
  | Forward pystr pystr json "(pystr \<times> json) list"

type_synonym v2_outcome = "v2_state \<times> effect list \<times> v2_next"

definition v2_error_frame :: "string \<Rightarrow> json \<Rightarrow> json" where
  "v2_error_frame code in_reply_to =
     JDict (dset (dict_of (make_error code in_reply_to)) (u ''protocol'') (JStr (protocol_version ''SESSION_V2'')))"

definition v2_error :: "nat \<Rightarrow> string \<Rightarrow> json \<Rightarrow> v2_state \<Rightarrow> v2_outcome" where
  "v2_error w code in_reply_to st = (st, [SendFrame w (v2_error_frame code in_reply_to)], VContinue)"

definition v2_frame_of :: "string \<Rightarrow> string \<Rightarrow> json \<Rightarrow> (pystr \<times> json) list \<Rightarrow> json" where
  "v2_frame_of protocol t in_reply_to payload =
     JDict [(u ''protocol'', JStr (protocol_version protocol)), (u ''type'', JStr (u t)),
            (u ''inReplyTo'', in_reply_to), (u ''payload'', JDict payload)]"

definition v2_limit :: "real \<Rightarrow> pystr \<Rightarrow> string \<Rightarrow> v2_state \<Rightarrow> bool \<times> v2_state" where
  "v2_limit now sid opn st = (case limit now sid opn (v2_hub st) of (ok, h) \<Rightarrow> (ok, st\<lparr>v2_hub := h\<rparr>))"

definition on_hub :: "(hub \<Rightarrow> hub) \<Rightarrow> v2_state \<Rightarrow> v2_state" where
  "on_hub f st = st\<lparr>v2_hub := f (v2_hub st)\<rparr>"

text \<open>An exception inside a handler ends the connection with the state as it is.\<close>

definition v2_try :: "'a result \<Rightarrow> v2_state \<Rightarrow> ('a \<Rightarrow> v2_outcome) \<Rightarrow> v2_outcome" where
  "v2_try r st k = (case r of Inl e \<Rightarrow> (st, [], VRaise e) | Inr x \<Rightarrow> k x)"

definition v2_hello ::
  "trust_prims \<Rightarrow> (bytes \<Rightarrow> bool) \<Rightarrow> config \<Rightarrow> int \<Rightarrow> bytes \<Rightarrow> pystr \<Rightarrow> nat \<Rightarrow> (pystr \<times> json) list \<Rightarrow> session
     \<Rightarrow> v2_state \<Rightarrow> v2_outcome" where
  "v2_hello P on_curve c wall chal sid w d sess st =
     (let payload = payload_of d; mid = jget d ''id''; ik = jget payload ''identityKeyHex''; ek = jget payload ''encryptionKeyHex''
      in if challenge sess \<noteq> None \<or> proven sess then v2_error w ''invalid-state'' mid st
         else if \<not> is_p256_point on_curve ik \<or> \<not> is_p256_point on_curve ek then v2_error w ''bad-key'' mid st
         else v2_try (verify_admission P (v2_trust st) (jget payload ''grant'') (jstr ik) wall) st (\<lambda>ok.
           if \<not> ok then v2_error w ''bad-grant'' mid (v2_count ''admission_rejections'' st)
           else
             let sess' = sess\<lparr>challenge := Some chal, public_key_raw := fromhex (jstr ik), proven := False\<rparr>;
                 st1 = on_hub (set_session sid sess') st
             in v2_try (set_v2_identity (tp_sha256 P) sid (jstr ik) (jstr ek) (v2_hub st1)) st1 (\<lambda>h2.
                let st2 = st1\<lparr>v2_hub := h2\<rparr>
                in v2_try (with_manifest P wall st2) st2 (\<lambda>(m, st3).
                   v2_try (manifest_hash P m) st3 (\<lambda>mh.
                     (st3, [SendFrame w (v2_frame_of ''SESSION_V2'' ''CHALLENGE'' mid
                              [(u ''sessionId'', JStr sid), (u ''challengeHex'', JStr (hex chal)),
                               (u ''nodeId'', JStr (node_id c)), (u ''manifestHash'', JStr mh)])], VContinue))))))"

definition v2_prove ::
  "trust_prims \<Rightarrow> config \<Rightarrow> real \<Rightarrow> pystr \<Rightarrow> nat \<Rightarrow> (pystr \<times> json) list \<Rightarrow> session \<Rightarrow> v2_state \<Rightarrow> v2_outcome" where
  "v2_prove P c now sid w d sess st =
     (let payload = payload_of d; mid = jget d ''id''
      in if proven sess \<or> challenge sess = None then v2_error w ''invalid-state'' mid st
         else (case v2_limit now sid ''PROVE'' st of (ok, st1) \<Rightarrow>
           if \<not> ok then
             (v2_count ''proof_rate_rejections'' st1,
              [SendFrame w (v2_error_frame ''rate-limited'' mid), CloseSocket w 1008 ''proof attempt limit exceeded''], VContinue)
           else (case fromhex (jstr (jget payload ''signatureHex'')) of
                   None \<Rightarrow> (st1, [], VRaise (ValueError ''fromhex''))
                 | Some signature \<Rightarrow>
                     if (case (challenge sess, public_key_raw sess) of
                           (Some (c0 # cs), Some key) \<Rightarrow> \<not> verify_signature (tp_verify P) key (c0 # cs) signature
                         | _ \<Rightarrow> True)
                     then v2_error w ''prove-failed'' mid (v2_count ''proof_failures'' st1)
                     else
                       let st2 = on_hub (\<lambda>h. count ''proof_successes'' (touch_heartbeat now sid
                                   (set_session sid (sess\<lparr>proven := True, challenge := None\<rparr>) h))) st1
                       in (st2, [SendFrame w (v2_frame_of ''SESSION_V2'' ''SESSION_READY'' mid
                                  [(u ''sessionId'', JStr sid),
                                   (u ''routeLeaseSeconds'', JFloat (FFin (route_lease_seconds c)))])], VContinue))))"

definition v2_ping :: "real \<Rightarrow> pystr \<Rightarrow> nat \<Rightarrow> (pystr \<times> json) list \<Rightarrow> v2_state \<Rightarrow> v2_outcome" where
  "v2_ping now sid w d st =
     (case v2_limit now sid ''HEARTBEAT'' st of (ok, st1) \<Rightarrow>
        if \<not> ok then v2_error w ''rate-limited'' (jget d ''id'') (v2_count ''rate_rejections'' st1)
        else (on_hub (touch_heartbeat now sid) st1,
              [SendFrame w (JDict [(u ''protocol'', JStr (protocol_version ''SESSION_V2'')), (u ''type'', JStr (u ''PONG'')),
                                   (u ''inReplyTo'', jget d ''id'')])], VContinue))"

definition v2_attach :: "config \<Rightarrow> real \<Rightarrow> pystr \<Rightarrow> nat \<Rightarrow> (pystr \<times> json) list \<Rightarrow> v2_state \<Rightarrow> v2_outcome" where
  "v2_attach c now sid w d st =
     (case v2_limit now sid ''ATTACH_ROUTE'' st of (ok, st1) \<Rightarrow>
        if \<not> ok then v2_error w ''rate-limited'' (jget d ''id'') (v2_count ''rate_rejections'' st1)
        else
          let route_tag = jstr (jget (payload_of d) ''routeTag'')
          in case attach_route c now sid route_tag None None (v2_hub st1) of
               Inr h \<Rightarrow>
                 (st1\<lparr>v2_hub := h\<rparr>, [], Register route_tag (v2_frame_of ''ROUTE_V2'' ''ATTACH_ROUTE'' (jget d ''id'')
                    [(u ''routeTag'', JStr route_tag), (u ''ok'', JBool True),
                     (u ''leaseSeconds'', JFloat (FFin (route_lease_seconds c)))]))
             | Inl (ValueError _) \<Rightarrow> v2_error w ''too-many-routes'' (jget d ''id'') st1
             | Inl e \<Rightarrow> (st1, [], VRaise e))"

definition v2_detach :: "pystr \<Rightarrow> (pystr \<times> json) list \<Rightarrow> v2_state \<Rightarrow> v2_outcome" where
  "v2_detach sid d st =
     (let route_tag = jstr (jget (payload_of d) ''routeTag'')
      in (on_hub (detach_route sid route_tag) st, [], Unregister route_tag (v2_frame_of ''ROUTE_V2'' ''DETACH_ROUTE''
            (jget d ''id'') [(u ''routeTag'', JStr route_tag), (u ''ok'', JBool True)])))"

definition v2_discover :: "real \<Rightarrow> pystr \<Rightarrow> nat \<Rightarrow> (pystr \<times> json) list \<Rightarrow> session \<Rightarrow> v2_state \<Rightarrow> v2_outcome" where
  "v2_discover now sid w d sess st =
     (case v2_limit now sid ''DISCOVER'' st of (ok, st1) \<Rightarrow>
        if \<not> ok then v2_error w ''rate-limited'' (jget d ''id'') (v2_count ''rate_rejections'' st1)
        else
          let route_tag = jstr (jget (payload_of d) ''routeTag'')
          in if route_tag \<notin> set (sess_routes sess)
             then v2_error w ''not-attached'' (jget d ''id'') (v2_count ''route_authorization_rejections'' st1)
             else (st1, [], Discover route_tag (route_peer_descriptors now route_tag (Some sid) (v2_hub st1)) (jget d ''id'')))"

text \<open>
  The answer to a discovery, once the mesh has given its descriptors: one per session id, a later
  one replacing an earlier one in place.
\<close>

definition merge_peers :: "pystr \<Rightarrow> (pystr \<times> json) list list \<Rightarrow> (pystr \<times> json) list list" where
  "merge_peers sid items =
     dvalues (fold (\<lambda>item acc. dset acc (jget item ''sessionId'') item)
       (filter (\<lambda>item. jget item ''sessionId'' \<noteq> JStr sid) items) [])"

definition v2_peers ::
  "config \<Rightarrow> pystr \<Rightarrow> pystr \<Rightarrow> (pystr \<times> json) list list \<Rightarrow> (pystr \<times> json) list list \<Rightarrow> json \<Rightarrow> json" where
  "v2_peers c sid route_tag local remote mid =
     v2_frame_of ''ROUTE_V2'' ''PEERS'' mid
       [(u ''routeTag'', JStr route_tag),
        (u ''peers'', JList (map JDict (take (nat (max_fanout c)) (merge_peers sid (local @ remote)))))]"

subsection \<open>Signals\<close>

definition replay_key :: "pystr \<Rightarrow> (pystr \<times> json) list \<Rightarrow> pystr" where
  "replay_key sid payload =
     u ''v2:'' @ sid @ [58] @ jstr (jget payload ''messageId'') @ [58] @ dump_int (int_of (jget payload ''sequence''))"

definition sender_bound :: "pystr \<Rightarrow> (pystr \<times> json) list \<Rightarrow> session \<Rightarrow> bool" where
  "sender_bound sid payload sender \<longleftrightarrow>
     jget payload ''fromSessionId'' = JStr sid \<and>
     jget payload ''senderKeyId'' = json_opt (identity_key_id sender) \<and>
     jget payload ''senderIdentityKeyHex'' = json_opt (identity_key_hex sender)"

definition signed_fields :: "(pystr \<times> json) list \<Rightarrow> (pystr \<times> json) list" where
  "signed_fields payload = filter (\<lambda>(k, v). k \<noteq> u ''signatureHex'') payload"

definition signal_ack :: "json \<Rightarrow> (pystr \<times> json) list \<Rightarrow> bool \<Rightarrow> json" where
  "signal_ack mid payload delivered =
     v2_frame_of ''SIGNAL_V2'' ''SIGNAL_ACK'' mid
       [(u ''messageId'', jget payload ''messageId''), (u ''accepted'', JBool True), (u ''delivered'', JBool delivered)]"

definition finish_signal ::
  "real \<Rightarrow> nat \<Rightarrow> json \<Rightarrow> (pystr \<times> json) list \<Rightarrow> bool \<Rightarrow> v2_state \<Rightarrow> v2_outcome" where
  "finish_signal elapsed w mid payload delivered st =
     (on_hub (\<lambda>h. with_metrics (increment_by ''v2_signal_deliveries'' (of_bool delivered))
                (with_metrics (observe ''signal_relay_seconds'' (FFin elapsed)) h)) st,
      [SendFrame w (signal_ack mid payload delivered)], VContinue)"

text \<open>From the replay check on: the message has been authenticated.\<close>

definition v2_relay ::
  "trust_prims \<Rightarrow> config \<Rightarrow> real \<Rightarrow> real \<Rightarrow> (pystr \<times> json) list option \<Rightarrow> pystr \<Rightarrow> nat \<Rightarrow> json \<Rightarrow> (pystr \<times> json) list
     \<Rightarrow> session \<Rightarrow> v2_state \<Rightarrow> v2_outcome" where
  "v2_relay P c now elapsed remote sid w mid payload sender st =
     (let sequence = int_of (jget payload ''sequence'');
          replay = v2_error w ''replay'' mid \<circ> v2_count ''replay_rejections''
      in if sequence \<le> last_signal_sequence sender then replay st
         else (case check_and_mark_seen c now (replay_key sid payload) (dedupe_window_seconds c) (v2_hub st) of (fresh, h) \<Rightarrow>
           if \<not> fresh then replay (st\<lparr>v2_hub := h\<rparr>)
           else
             let st1 = st\<lparr>v2_hub := set_session sid (sender\<lparr>last_signal_sequence := sequence\<rparr>) h\<rparr>;
                 target = jstr (jget payload ''toSessionId'');
                 route_tag = jstr (jget payload ''routeTag'');
                 descriptor = (case peer_descriptor target (v2_hub st1) of Some x \<Rightarrow> Some x | None \<Rightarrow> remote);
                 outgoing = JDict [(u ''protocol'', JStr (protocol_version ''SIGNAL_V2'')), (u ''type'', JStr (u ''SIGNAL'')),
                                   (u ''id'', mid), (u ''payload'', JDict payload)]
             in if (case descriptor of None \<Rightarrow> True | Some x \<Rightarrow> jget x ''keyId'' \<noteq> jget payload ''keyId'')
                then v2_error w ''unknown-recipient'' mid st1
                else if target \<in> set (route_subscribers now route_tag (Some sid) (v2_hub st1)) then
                  (case send_session (tp_float P) c target outgoing (v2_hub st1) of
                     Inl e \<Rightarrow> (st1, [], VRaise e)
                   | Inr (delivered, h2, effs) \<Rightarrow>
                       (case finish_signal elapsed w mid payload delivered (st1\<lparr>v2_hub := h2\<rparr>) of
                          (st2, effs2, nx) \<Rightarrow> (st2, effs @ effs2, nx)))
                else (st1, [], Forward route_tag target outgoing payload)))"

definition v2_signal ::
  "trust_prims \<Rightarrow> config \<Rightarrow> real \<Rightarrow> int \<Rightarrow> real \<Rightarrow> (pystr \<times> json) list option \<Rightarrow> pystr \<Rightarrow> nat \<Rightarrow> (pystr \<times> json) list
     \<Rightarrow> session \<Rightarrow> v2_state \<Rightarrow> v2_outcome" where
  "v2_signal P c now wall elapsed remote sid w d sender st =
     (let payload = payload_of d; mid = jget d ''id''
      in if jstr (jget payload ''routeTag'') \<notin> set (sess_routes sender) then v2_error w ''not-attached'' mid st
         else if \<not> sender_bound sid payload sender then v2_error w ''sender-mismatch'' mid st
         else if \<not> (wall - 5 \<le> int_of (jget payload ''expiresAt'') \<and> int_of (jget payload ''expiresAt'') \<le> wall + 300)
         then v2_error w ''expired-signal'' mid st
         else (case v2_limit now sid ''SIGNAL_V2'' st of (ok, st1) \<Rightarrow>
           if \<not> ok then v2_error w ''rate-limited'' mid (v2_count ''rate_rejections'' st1)
           else (case try_consume now 1 (signal_limiter st1) of (ok, b) \<Rightarrow>
             let st2 = st1\<lparr>signal_limiter := b\<rparr>
             in if \<not> ok then v2_error w ''capacity'' mid (v2_count ''signal_global_rate_rejections'' st2)
                else (case (canonical_json_bytes (tp_float P) (JDict (signed_fields payload)),
                            fromhex (jstr (jget payload ''signatureHex''))) of
                    (Inl e, _) \<Rightarrow> (st2, [], VRaise e)
                  | (Inr _, None) \<Rightarrow> (st2, [], VRaise (ValueError ''fromhex''))
                  | (Inr b, Some signature) \<Rightarrow>
                      if (case public_key_raw sender of
                            None \<Rightarrow> True
                          | Some key \<Rightarrow> \<not> verify_signature (tp_verify P) key b signature)
                      then v2_error w ''bad-signal-signature'' mid (v2_count ''signal_signature_rejections'' st2)
                      else v2_relay P c now elapsed remote sid w mid payload sender st2))))"

subsection \<open>One frame\<close>

definition v2_handle ::
  "trust_prims \<Rightarrow> (bytes \<Rightarrow> bool) \<Rightarrow> config \<Rightarrow> real \<Rightarrow> int \<Rightarrow> real \<Rightarrow> (pystr \<times> json) list option \<Rightarrow> bytes \<Rightarrow> pystr \<Rightarrow> nat
     \<Rightarrow> (pystr \<times> json) list \<Rightarrow> v2_state \<Rightarrow> v2_outcome" where
  "v2_handle P on_curve c now wall elapsed remote chal sid w d st =
     (case dget (sessions (v2_hub st)) sid of
        None \<Rightarrow> (st, [], VRaise KeyError)
      | Some sess \<Rightarrow>
          (let t = jstr (jget d ''type'')
           in if \<not> proven sess \<and> t \<notin> u ` {''HELLO'', ''PROVE'', ''PING''} then v2_error w ''not-proven'' (jget d ''id'') st
              else if t = u ''HELLO'' then v2_hello P on_curve c wall chal sid w d sess st
              else if t = u ''PROVE'' then v2_prove P c now sid w d sess st
              else if t = u ''PING'' then v2_ping now sid w d st
              else if t = u ''ATTACH_ROUTE'' then v2_attach c now sid w d st
              else if t = u ''DETACH_ROUTE'' then v2_detach sid d st
              else if t = u ''DISCOVER'' then v2_discover now sid w d sess st
              else if t = u ''SIGNAL'' then v2_signal P c now wall elapsed remote sid w d sess st
              else v2_error w ''unsupported-type'' (jget d ''id'') st))"

definition v2_message ::
  "trust_prims \<Rightarrow> (bytes \<Rightarrow> bool) \<Rightarrow> config \<Rightarrow> real \<Rightarrow> int \<Rightarrow> real \<Rightarrow> (pystr \<times> json) list option \<Rightarrow> bytes \<Rightarrow> pystr \<Rightarrow> nat
     \<Rightarrow> pystr \<Rightarrow> v2_state \<Rightarrow> v2_outcome" where
  "v2_message P on_curve c now wall elapsed remote chal sid w raw st =
     (case loads_strict (Text raw) (max_frame_bytes c) (max_json_depth c) (max_json_nodes c) (max_frame_bytes c) of
        Inl (StrictJsonError _) \<Rightarrow> v2_error w ''bad-json'' JNull st
      | Inl e \<Rightarrow> (st, [], VRaise e)
      | Inr message \<Rightarrow>
          (case validate_v2_message message of
             Inl (ProtocolError code) \<Rightarrow> v2_error w code (jget (dict_of message) ''id'') st
           | Inl e \<Rightarrow> (st, [], VRaise e)
           | Inr _ \<Rightarrow> v2_handle P on_curve c now wall elapsed remote chal sid w (dict_of message) st))"

definition v2_frame ::
  "trust_prims \<Rightarrow> (bytes \<Rightarrow> bool) \<Rightarrow> config \<Rightarrow> real \<Rightarrow> int \<Rightarrow> real \<Rightarrow> (pystr \<times> json) list option \<Rightarrow> bytes \<Rightarrow> pystr \<Rightarrow> nat
     \<Rightarrow> pystr \<Rightarrow> v2_state \<Rightarrow> v2_outcome" where
  "v2_frame P on_curve c now wall elapsed remote chal sid w raw st =
     (case utf8_len raw of
        None \<Rightarrow> (st, [], VRaise UnicodeEncodeError)
      | Some n \<Rightarrow>
        if int n > max_frame_bytes c then v2_error w ''frame-too-large'' JNull st
        else (case v2_limit now sid ''MESSAGE'' st of (ok, st1) \<Rightarrow>
          if \<not> ok then
            (v2_count ''rate_rejections'' st1,
             [SendFrame w (v2_error_frame ''rate-limited'' JNull), CloseSocket w 1008 ''message rate exceeded''], VBreak)
          else (case try_consume now 1 (global_message_limiter (v2_hub st1)) of (ok, bucket) \<Rightarrow>
            let st2 = on_hub (\<lambda>h. h\<lparr>global_message_limiter := bucket\<rparr>) st1
            in if \<not> ok then
                 (v2_count ''message_global_rate_rejections'' st2,
                  [SendFrame w (v2_error_frame ''capacity'' JNull), CloseSocket w 1013 ''global message capacity''], VBreak)
               else v2_message P on_curve c now wall elapsed remote chal sid w raw st2)))"

text \<open>The routes to withdraw from the mesh when a connection ends, before the session is removed.\<close>

definition v2_leave :: "pystr \<Rightarrow> v2_state \<Rightarrow> pystr list \<times> v2_state" where
  "v2_leave sid st =
     ((case dget (sessions (v2_hub st)) sid of None \<Rightarrow> [] | Some s \<Rightarrow> sess_routes s), on_hub (remove_session sid) st)"

end
