(* ===== verification/V2_Frames.thy ===== *)
theory V2_Frames
  imports V2_Routes
begin

text \<open>
  What one V2 frame can do: it keeps the hub invariant, and it moves the sender's session along
  the edges of a state machine (\<open>v2_move\<close>) whose guards are the checks of the handlers, leaving
  every other session alone but for its outbound queue.
\<close>

section \<open>Shapes\<close>

lemma v2_error_simps [simp]:
  "fst (v2_error w code mid st) = st" "snd (snd (v2_error w code mid st)) = VContinue"
  "fst (snd (v2_error w code mid st)) = [SendFrame w (v2_error_frame code mid)]"
  by (simp_all add: v2_error_def)

lemma v2_limit_simps [simp]:
  "fst (v2_limit now sid opn st) = fst (limit now sid opn (v2_hub st))"
  "snd (v2_limit now sid opn st) = st\<lparr>v2_hub := snd (limit now sid opn (v2_hub st))\<rparr>"
  by (simp_all add: v2_limit_def case_prod_unfold)

lemma on_hub_simps [simp]:
  "v2_hub (on_hub f st) = f (v2_hub st)" "v2_trust (on_hub f st) = v2_trust st"
  "signal_limiter (on_hub f st) = signal_limiter st"
  by (simp_all add: on_hub_def)

lemma v2_try_split:
  "Q (v2_try r st k) \<longleftrightarrow> (\<forall>e. r = Inl e \<longrightarrow> Q (st, [], VRaise e)) \<and> (\<forall>x. r = Inr x \<longrightarrow> Q (k x))"
  by (cases r) (simp_all add: v2_try_def)

lemma with_manifest_hub: "with_manifest P wall st = Inr (m, st') \<Longrightarrow> v2_hub st' = v2_hub st"
  by (auto simp: with_manifest_def rbind_eq_Inr)

lemma is_p256_pointE:
  assumes "is_p256_point on_curve v"
  obtains s b where "v = JStr s" "fromhex s = Some b" "length b = 65" "on_curve b"
  using assms by (auto simp: is_p256_point_def is_hex_bytes_def jstr_def split: json.splits option.splits)

section \<open>The state machine of a V2 session\<close>

datatype v2_move =
    VStays
  | VHello bytes bytes pystr pystr json
  | VProves bytes bytes bytes
  | VAttaches pystr
  | VDetaches pystr
  | VSignals "(pystr \<times> json) list"

fun v2_apply :: "trust_prims \<Rightarrow> v2_move \<Rightarrow> session \<Rightarrow> session" where
  "v2_apply P VStays s = s"
| "v2_apply P (VHello chal key ik ek grant) s =
     s\<lparr>challenge := Some chal, public_key_raw := Some key, proven := False, session_protocol := 2,
       identity_key_hex := Some ik, identity_key_id := Some (hex (tp_sha256 P key)),
       encryption_key_hex := Some ek, encryption_key_id := map_option (\<lambda>b. hex (tp_sha256 P b)) (fromhex ek)\<rparr>"
| "v2_apply P (VProves key chal sig) s = s\<lparr>proven := True, challenge := None\<rparr>"
| "v2_apply P (VAttaches rid) s = s\<lparr>sess_routes := List.insert rid (sess_routes s)\<rparr>"
| "v2_apply P (VDetaches rid) s = s\<lparr>sess_routes := removeAll rid (sess_routes s)\<rparr>"
| "v2_apply P (VSignals payload) s = s\<lparr>last_signal_sequence := int_of (jget payload ''sequence'')\<rparr>"

text \<open>The checks a signal has passed once it is accepted.\<close>

definition authentic_signal :: "trust_prims \<Rightarrow> int \<Rightarrow> pystr \<Rightarrow> session \<Rightarrow> (pystr \<times> json) list \<Rightarrow> bool" where
  "authentic_signal P wall sid s payload \<longleftrightarrow>
     proven s \<and> jstr (jget payload ''routeTag'') \<in> set (sess_routes s) \<and> sender_bound sid payload s \<and>
     wall - 5 \<le> int_of (jget payload ''expiresAt'') \<and> int_of (jget payload ''expiresAt'') \<le> wall + 300 \<and>
     last_signal_sequence s < int_of (jget payload ''sequence'') \<and>
     (\<exists>key b sig. public_key_raw s = Some key \<and>
        canonical_json_bytes (tp_float P) (JDict (signed_fields payload)) = Inr b \<and>
        fromhex (jstr (jget payload ''signatureHex'')) = Some sig \<and> verify_signature (tp_verify P) key b sig)"

fun v2_move_ok ::
  "trust_prims \<Rightarrow> (bytes \<Rightarrow> bool) \<Rightarrow> config \<Rightarrow> int \<Rightarrow> node_trust \<Rightarrow> pystr \<Rightarrow> session \<Rightarrow> v2_move \<Rightarrow> bool" where
  "v2_move_ok P on_curve c wall tr sid s VStays \<longleftrightarrow> True"
| "v2_move_ok P on_curve c wall tr sid s (VHello chal key ik ek grant) \<longleftrightarrow> \<not> proven s \<and> challenge s = None \<and>
     fromhex ik = Some key \<and> on_curve key \<and> verify_admission P tr grant ik wall = Inr True \<and>
     (\<exists>b. fromhex ek = Some b \<and> on_curve b)"
| "v2_move_ok P on_curve c wall tr sid s (VProves key chal sig) \<longleftrightarrow> \<not> proven s \<and> challenge s = Some chal \<and>
     public_key_raw s = Some key \<and> verify_signature (tp_verify P) key chal sig"
| "v2_move_ok P on_curve c wall tr sid s (VAttaches rid) \<longleftrightarrow> proven s \<and>
     (rid \<in> set (sess_routes s) \<or> int (length (sess_routes s)) < max_routes_per_session c)"
| "v2_move_ok P on_curve c wall tr sid s (VDetaches rid) \<longleftrightarrow> proven s"
| "v2_move_ok P on_curve c wall tr sid s (VSignals payload) \<longleftrightarrow> authentic_signal P wall sid s payload"

definition v2_moved ::
  "trust_prims \<Rightarrow> (bytes \<Rightarrow> bool) \<Rightarrow> config \<Rightarrow> int \<Rightarrow> node_trust \<Rightarrow> pystr \<Rightarrow> session \<Rightarrow> hub \<Rightarrow> hub \<Rightarrow> bool" where
  "v2_moved P on_curve c wall tr sid s h h' \<longleftrightarrow>
     (\<exists>m. v2_move_ok P on_curve c wall tr sid s m \<and>
        map_option auth_view (dget (sessions h') sid) = Some (auth_view (v2_apply P m s))) \<and>
     (\<forall>x. x \<noteq> sid \<longrightarrow> map_option auth_view (dget (sessions h') x) = map_option auth_view (dget (sessions h) x))"

lemma v2_movedI:
  "v2_move_ok P on_curve c wall tr sid s m \<Longrightarrow>
   map_option auth_view (dget (sessions h') sid) = Some (auth_view (v2_apply P m s)) \<Longrightarrow>
   (\<And>x. x \<noteq> sid \<Longrightarrow> map_option auth_view (dget (sessions h') x) = map_option auth_view (dget (sessions h) x)) \<Longrightarrow>
   v2_moved P on_curve c wall tr sid s h h'"
  unfolding v2_moved_def by blast

lemma v2_moved_stays:
  "dget (sessions h) sid = Some s \<Longrightarrow> sessions h' = sessions h \<Longrightarrow> v2_moved P on_curve c wall tr sid s h h'"
  by (rule v2_movedI [of _ _ _ _ _ _ _ VStays]) simp_all

text \<open>What every handler of a frame guarantees.\<close>

definition v2_kept ::
  "trust_prims \<Rightarrow> (bytes \<Rightarrow> bool) \<Rightarrow> config \<Rightarrow> int \<Rightarrow> pystr \<Rightarrow> session \<Rightarrow> v2_state \<Rightarrow> v2_outcome \<Rightarrow> bool" where
  "v2_kept P on_curve c wall sid s st r \<longleftrightarrow>
     hub_inv c (v2_hub (fst r)) \<and> v2_moved P on_curve c wall (v2_trust st) sid s (v2_hub st) (v2_hub (fst r))"

lemma v2_kept_same:
  "hub_inv c (v2_hub (fst r)) \<Longrightarrow> dget (sessions (v2_hub st)) sid = Some s \<Longrightarrow>
     sessions (v2_hub (fst r)) = sessions (v2_hub st) \<Longrightarrow> v2_kept P on_curve c wall sid s st r"
  by (simp add: v2_kept_def v2_moved_stays)

section \<open>The handlers\<close>

lemma v2_hello_kept:
  assumes "hub_inv c (v2_hub st)" "dget (sessions (v2_hub st)) sid = Some s"
  shows "v2_kept P on_curve c wall sid s st (v2_hello P on_curve c wall chal sid w d s st)"
proof (cases "challenge s = None \<and> \<not> proven s \<and>
    is_p256_point on_curve (jget (payload_of d) ''identityKeyHex'') \<and>
    is_p256_point on_curve (jget (payload_of d) ''encryptionKeyHex'') \<and>
    verify_admission P (v2_trust st) (jget (payload_of d) ''grant'')
      (jstr (jget (payload_of d) ''identityKeyHex'')) wall = Inr True")
  case True
  then obtain ik key ek eb where k: "jget (payload_of d) ''identityKeyHex'' = JStr ik" "fromhex ik = Some key"
      "on_curve key" "jget (payload_of d) ''encryptionKeyHex'' = JStr ek" "fromhex ek = Some eb" "on_curve eb"
    by (metis is_p256_pointE)
  let ?s = "s\<lparr>challenge := Some chal, public_key_raw := Some key, proven := False\<rparr>"
  let ?s' = "v2_apply P (VHello chal key ik ek (jget (payload_of d) ''grant'')) s"
  let ?h = "set_session sid ?s' (set_session sid ?s (v2_hub st))"
  have "v2_hub (fst (v2_hello P on_curve c wall chal sid w d s st)) = ?h"
    using True k
    by (auto simp: v2_hello_def Let_def set_v2_identity_def jstr_def dget_dset v2_try_def on_hub_def
        split: sum.split dest: with_manifest_hub)
  moreover have "hub_inv c (set_session sid ?s (v2_hub st))"
    using assms by (intro hub_inv_set_session) (simp_all add: same_queue_def)
  then have "hub_inv c ?h"
    by (rule hub_inv_set_session [where s = ?s]) (simp_all add: same_queue_def dget_dset)
  ultimately show ?thesis
    unfolding v2_kept_def
    by (intro conjI v2_movedI [of _ _ _ _ _ _ _ "VHello chal key ik ek (jget (payload_of d) ''grant'')"])
      (use True k in \<open>simp_all add: jstr_def dget_dset auth_view_def\<close>)
next
  case False
  then show ?thesis
    using assms by (intro v2_kept_same) (auto simp: v2_hello_def Let_def v2_try_def split: sum.split)
qed

lemma v2_prove_kept:
  assumes "hub_inv c (v2_hub st)" "dget (sessions (v2_hub st)) sid = Some s" "\<not> proven s"
  shows "v2_kept P on_curve c wall sid s st (v2_prove P c now sid w d s st)"
proof -
  let ?h1 = "snd (limit now sid ''PROVE'' (v2_hub st))"
  let ?r = "v2_prove P c now sid w d s st"
  have 1: "hub_inv c ?h1" using assms(1) by (rule hub_inv_limit)
  then have "hub_inv c (set_session sid (s\<lparr>proven := True, challenge := None\<rparr>) ?h1)"
    using assms(2) by (intro hub_inv_set_session [of c ?h1 sid s]) (simp_all add: same_queue_def)
  then have 2: "hub_inv c (touch_heartbeat now sid (set_session sid (s\<lparr>proven := True, challenge := None\<rparr>) ?h1))"
    by (rule hub_inv_touch)
  have "sessions (v2_hub (fst ?r)) = sessions (v2_hub st) \<and> hub_inv c (v2_hub (fst ?r)) \<or>
      (\<exists>key chal sig. challenge s = Some chal \<and> public_key_raw s = Some key \<and>
         verify_signature (tp_verify P) key chal sig \<and> hub_inv c (v2_hub (fst ?r)) \<and>
         v2_hub (fst ?r) = count ''proof_successes'' (touch_heartbeat now sid
            (set_session sid (s\<lparr>proven := True, challenge := None\<rparr>) ?h1)))"
    using assms 1 2
    by (auto simp: v2_prove_def Let_def case_prod_unfold split: option.split list.split)
  then show ?thesis
  proof (elim disjE exE conjE)
    fix key chal sig
    assume *: "challenge s = Some chal" "public_key_raw s = Some key" "verify_signature (tp_verify P) key chal sig"
      "hub_inv c (v2_hub (fst ?r))" "v2_hub (fst ?r) = count ''proof_successes'' (touch_heartbeat now sid
            (set_session sid (s\<lparr>proven := True, challenge := None\<rparr>) ?h1))"
    show ?thesis
      unfolding v2_kept_def
      by (intro conjI v2_movedI [of _ _ _ _ _ _ _ "VProves key chal sig"] *(4))
        (use * assms(3) in \<open>simp_all add: touch_sessions dget_dset auth_view_def\<close>)
  qed (simp add: v2_kept_same assms(2))
qed

lemma v2_ping_kept:
  assumes "hub_inv c (v2_hub st)" "dget (sessions (v2_hub st)) sid = Some s"
  shows "v2_kept P on_curve c wall sid s st (v2_ping now sid w d st)"
proof (cases "fst (limit now sid ''HEARTBEAT'' (v2_hub st))")
  case True
  then show ?thesis
    unfolding v2_kept_def
    by (intro conjI v2_movedI [of _ _ _ _ _ _ _ VStays])
      (use assms in \<open>simp_all add: v2_ping_def case_prod_unfold hub_inv_limit hub_inv_touch touch_sessions auth_view_def\<close>)
next
  case False
  then show ?thesis
    using assms by (intro v2_kept_same) (simp_all add: v2_ping_def case_prod_unfold hub_inv_limit)
qed

lemma v2_attach_kept:
  assumes "hub_inv c (v2_hub st)" "dget (sessions (v2_hub st)) sid = Some s" "proven s"
  shows "v2_kept P on_curve c wall sid s st (v2_attach c now sid w d st)"
proof -
  let ?h1 = "snd (limit now sid ''ATTACH_ROUTE'' (v2_hub st))" and ?t = "jstr (jget (payload_of d) ''routeTag'')"
  let ?r = "v2_attach c now sid w d st"
  have 1: "hub_inv c ?h1" using assms(1) by (rule hub_inv_limit)
  have "sessions (v2_hub (fst ?r)) = sessions (v2_hub st) \<and> hub_inv c (v2_hub (fst ?r)) \<or>
      attach_route c now sid ?t None None ?h1 = Inr (v2_hub (fst ?r))"
    using 1 by (cases "attach_route c now sid ?t None None ?h1")
      (auto simp: v2_attach_def Let_def case_prod_unfold split: exn.split)
  then show ?thesis
  proof
    assume a: "attach_route c now sid ?t None None ?h1 = Inr (v2_hub (fst ?r))"
    then have inv: "hub_inv c (v2_hub (fst ?r))" by (rule hub_inv_attach [OF 1])
    from a show ?thesis
      by (rule attach_route_cases, unfold v2_kept_def, intro conjI inv v2_movedI [of _ _ _ _ _ _ _ "VAttaches ?t"])
        (use assms in \<open>auto simp: dget_dset\<close>)
  qed (simp add: v2_kept_same assms(2))
qed

lemma v2_detach_kept:
  assumes "hub_inv c (v2_hub st)" "dget (sessions (v2_hub st)) sid = Some s" "proven s"
  shows "v2_kept P on_curve c wall sid s st (v2_detach sid d st)"
  unfolding v2_kept_def
  by (intro conjI v2_movedI [of _ _ _ _ _ _ _ "VDetaches (jstr (jget (payload_of d) ''routeTag''))"])
    (use assms in \<open>simp_all add: v2_detach_def Let_def hub_inv_detach sessions_detach\<close>)

lemma v2_discover_kept:
  assumes "hub_inv c (v2_hub st)" "dget (sessions (v2_hub st)) sid = Some s"
  shows "v2_kept P on_curve c wall sid s st (v2_discover now sid w d s st)"
  using assms by (intro v2_kept_same) (simp_all add: v2_discover_def Let_def case_prod_unfold hub_inv_limit)


section \<open>Signals\<close>

text \<open>The frame a recipient gets.\<close>

definition signal_out :: "json \<Rightarrow> (pystr \<times> json) list \<Rightarrow> json" where
  "signal_out mid payload =
     JDict [(u ''protocol'', JStr (protocol_version ''SIGNAL_V2'')), (u ''type'', JStr (u ''SIGNAL'')),
            (u ''id'', mid), (u ''payload'', JDict payload)]"

text \<open>
  A message that passed authentication is refused as a replay, which leaves the sessions alone, or
  its sequence number is recorded; then it is refused for its recipient, handed to the local
  recipient's queue, or handed to the mesh.
\<close>

definition relay_marked :: "config \<Rightarrow> real \<Rightarrow> pystr \<Rightarrow> (pystr \<times> json) list \<Rightarrow> session \<Rightarrow> hub \<Rightarrow> hub" where
  "relay_marked c now sid payload sender h =
     set_session sid (sender\<lparr>last_signal_sequence := int_of (jget payload ''sequence'')\<rparr>)
       (snd (check_and_mark_seen c now (replay_key sid payload) (dedupe_window_seconds c) h))"

lemma relay_marked_simps [simp]:
  "sessions (relay_marked c now sid payload sender h) =
     dset (sessions h) sid (sender\<lparr>last_signal_sequence := int_of (jget payload ''sequence'')\<rparr>)"
  "routes (relay_marked c now sid payload sender h) = routes h"
  by (simp_all add: relay_marked_def)

definition recipient :: "(pystr \<times> json) list option \<Rightarrow> (pystr \<times> json) list \<Rightarrow> hub \<Rightarrow> (pystr \<times> json) list option" where
  "recipient remote payload h =
     (case peer_descriptor (jstr (jget payload ''toSessionId'')) h of Some x \<Rightarrow> Some x | None \<Rightarrow> remote)"

definition accepted :: "config \<Rightarrow> real \<Rightarrow> pystr \<Rightarrow> (pystr \<times> json) list \<Rightarrow> session \<Rightarrow> hub \<Rightarrow> bool" where
  "accepted c now sid payload sender h \<longleftrightarrow> last_signal_sequence sender < int_of (jget payload ''sequence'') \<and>
     fst (check_and_mark_seen c now (replay_key sid payload) (dedupe_window_seconds c) h)"

lemma v2_relay_eq:
  "v2_relay P c now elapsed remote sid w mid payload sender st =
     (let h1 = relay_marked c now sid payload sender (v2_hub st); st1 = st\<lparr>v2_hub := h1\<rparr>;
          target = jstr (jget payload ''toSessionId''); tag = jstr (jget payload ''routeTag'')
      in if last_signal_sequence sender \<ge> int_of (jget payload ''sequence'')
         then v2_error w ''replay'' mid (v2_count ''replay_rejections'' st)
         else if \<not> accepted c now sid payload sender (v2_hub st)
         then v2_error w ''replay'' mid (v2_count ''replay_rejections'' (st\<lparr>v2_hub :=
                snd (check_and_mark_seen c now (replay_key sid payload) (dedupe_window_seconds c) (v2_hub st))\<rparr>))
         else if (case recipient remote payload h1 of None \<Rightarrow> True | Some x \<Rightarrow> jget x ''keyId'' \<noteq> jget payload ''keyId'')
         then v2_error w ''unknown-recipient'' mid st1
         else if target \<in> set (route_subscribers now tag (Some sid) h1) then
           (case send_session (tp_float P) c target (signal_out mid payload) h1 of
              Inl e \<Rightarrow> (st1, [], VRaise e)
            | Inr (delivered, h2, effs) \<Rightarrow>
                (fst (finish_signal elapsed w mid payload delivered (st1\<lparr>v2_hub := h2\<rparr>)),
                 effs @ [SendFrame w (signal_ack mid payload delivered)], VContinue))
         else (st1, [], Forward tag target (signal_out mid payload) payload))"
  by (auto simp: v2_relay_def accepted_def relay_marked_def recipient_def signal_out_def finish_signal_def
      Let_def case_prod_unfold split: sum.split)

lemma relay_marked_inv:
  assumes "hub_inv c h" "dget (sessions h) sid = Some sender"
  shows "hub_inv c (relay_marked c now sid payload sender h)"
  unfolding relay_marked_def
  by (rule hub_inv_set_session [where s = sender]) (use assms in \<open>simp_all add: hub_inv_mark same_queue_def\<close>)

lemma finish_signal_hub [simp]:
  "sessions (v2_hub (fst (finish_signal elapsed w mid payload ok st))) = sessions (v2_hub st)"
  "hub_inv c (v2_hub (fst (finish_signal elapsed w mid payload ok st))) = hub_inv c (v2_hub st)"
  "routes (v2_hub (fst (finish_signal elapsed w mid payload ok st))) = routes (v2_hub st)"
  "seen (v2_hub (fst (finish_signal elapsed w mid payload ok st))) = seen (v2_hub st)"
  by (simp_all add: finish_signal_def)

lemma send_views:
  assumes "send_session frepr c sid data h = Inr (ok, h', effs)"
  shows "map_option auth_view (dget (sessions h') x) = map_option auth_view (dget (sessions h) x)"
  using send_session_cases [OF assms]
  by (elim disjE) (auto simp: dget_dset auth_view_def)

lemma v2_relay_kept:
  assumes "hub_inv c (v2_hub st)" "dget (sessions (v2_hub st)) sid = Some s" "post_init c = Inr ()"
    and "accepted c now sid payload s (v2_hub st) \<Longrightarrow> authentic_signal P wall sid s payload"
  shows "v2_kept P on_curve c wall sid s st (v2_relay P c now elapsed remote sid w mid payload s st)"
proof (cases "accepted c now sid payload s (v2_hub st)")
  case True
  let ?h1 = "relay_marked c now sid payload s (v2_hub st)"
  let ?h' = "v2_hub (fst (v2_relay P c now elapsed remote sid w mid payload s st))"
  have inv: "hub_inv c ?h1" using assms(1,2) by (rule relay_marked_inv)
  have send: "send_session (tp_float P) c t out ?h1 = Inr (ok, h2, effs) \<Longrightarrow> hub_inv c h2 \<and>
      (\<forall>x. map_option auth_view (dget (sessions h2) x) = map_option auth_view (dget (sessions ?h1) x))" for t out ok h2 effs
    using hub_inv_send [OF inv assms(3)] send_views by blast
  then have "hub_inv c ?h' \<and> (\<forall>x. map_option auth_view (dget (sessions ?h') x) = map_option auth_view (dget (sessions ?h1) x))"
    using inv True unfolding v2_relay_eq Let_def by (auto simp: accepted_def split: sum.split)
  then show ?thesis
    unfolding v2_kept_def
    by (intro conjI v2_movedI [of _ _ _ _ _ _ _ "VSignals payload"])
      (use assms(4) [OF True] in \<open>simp_all add: dget_dset auth_view_def\<close>)
next
  case False
  then show ?thesis
    using assms(1,2) by (intro v2_kept_same) (simp_all add: v2_relay_eq Let_def hub_inv_mark)
qed

lemma v2_signal_kept:
  assumes "hub_inv c (v2_hub st)" "dget (sessions (v2_hub st)) sid = Some s" "post_init c = Inr ()" "proven s"
  shows "v2_kept P on_curve c wall sid s st (v2_signal P c now wall elapsed remote sid w d s st)"
    (is "v2_kept _ _ _ _ _ _ _ ?r")
proof -
  let ?st = "st\<lparr>v2_hub := snd (limit now sid ''SIGNAL_V2'' (v2_hub st)),
    signal_limiter := snd (try_consume now 1 (signal_limiter st))\<rparr>"
  have inv: "hub_inv c (v2_hub ?st)" using assms(1) by (simp add: hub_inv_limit)
  have "sessions (v2_hub (fst ?r)) = sessions (v2_hub st) \<and> hub_inv c (v2_hub (fst ?r)) \<or>
      ?r = v2_relay P c now elapsed remote sid w (jget d ''id'') (payload_of d) s ?st \<and>
      (accepted c now sid (payload_of d) s (v2_hub ?st) \<longrightarrow> authentic_signal P wall sid s (payload_of d))"
    using assms(1,4) inv
    by (auto simp: v2_signal_def Let_def case_prod_unfold authentic_signal_def accepted_def simp del: try_consume_simps
        split: sum.split option.split)
  then show ?thesis
  proof (elim disjE conjE)
    assume r: "?r = v2_relay P c now elapsed remote sid w (jget d ''id'') (payload_of d) s ?st"
      and a: "accepted c now sid (payload_of d) s (v2_hub ?st) \<longrightarrow> authentic_signal P wall sid s (payload_of d)"
    have "v2_kept P on_curve c wall sid s ?st ?r"
      unfolding r using inv assms(2,3) a by (intro v2_relay_kept) simp_all
    then show ?thesis by (simp add: v2_kept_def v2_moved_def)
  qed (simp add: v2_kept_same assms(2))
qed

section \<open>A whole frame\<close>

lemma v2_handle_kept:
  assumes "hub_inv c (v2_hub st)" "dget (sessions (v2_hub st)) sid = Some s" "post_init c = Inr ()"
  shows "v2_kept P on_curve c wall sid s st (v2_handle P on_curve c now wall elapsed remote chal sid w d st)"
proof -
  have "v2_kept P on_curve c wall sid s st (v2_error w code mid st)" for code mid
    using assms by (intro v2_kept_same) simp_all
  then show ?thesis
    using assms v2_prove_kept [OF assms(1,2)]
    by (cases "proven s")
      (auto simp: v2_handle_def Let_def v2_hello_kept v2_ping_kept v2_attach_kept v2_detach_kept
        v2_discover_kept v2_signal_kept v2_prove_def)
qed

definition v2_charged :: "real \<Rightarrow> pystr \<Rightarrow> v2_state \<Rightarrow> v2_state" where
  "v2_charged now sid st = st\<lparr>v2_hub := charged now sid (v2_hub st)\<rparr>"

lemma v2_charged_simps [simp]:
  "v2_hub (v2_charged now sid st) = charged now sid (v2_hub st)" "v2_trust (v2_charged now sid st) = v2_trust st"
  by (simp_all add: v2_charged_def)

text \<open>A frame is refused before it is handled, with the tables as they were, or it is handled.\<close>

definition v2_quiet :: "hub \<Rightarrow> v2_outcome \<Rightarrow> bool" where
  "v2_quiet h r \<longleftrightarrow> sessions (v2_hub (fst r)) = sessions h \<and> routes (v2_hub (fst r)) = routes h \<and>
     seen (v2_hub (fst r)) = seen h \<and> snd (snd r) \<in> {VContinue, VBreak} \<union> range VRaise"

definition decode_v2 :: "config \<Rightarrow> pystr \<Rightarrow> (pystr \<times> json) list option" where
  "decode_v2 c raw =
     (case loads_strict (Text raw) (max_frame_bytes c) (max_json_depth c) (max_json_nodes c) (max_frame_bytes c) of
        Inl e \<Rightarrow> None
      | Inr v \<Rightarrow> (case validate_v2_message v of Inl e \<Rightarrow> None | Inr _ \<Rightarrow> Some (dict_of v)))"

lemma v2_message_quiet:
  obtains "v2_quiet (v2_hub st) (v2_message P on_curve c now wall elapsed remote chal sid w raw st)"
    "fst (v2_message P on_curve c now wall elapsed remote chal sid w raw st) = st"
  | d where "decode_v2 c raw = Some d"
    "v2_message P on_curve c now wall elapsed remote chal sid w raw st =
       v2_handle P on_curve c now wall elapsed remote chal sid w d st"
proof -
  have "v2_quiet (v2_hub st) (v2_message P on_curve c now wall elapsed remote chal sid w raw st) \<and>
      fst (v2_message P on_curve c now wall elapsed remote chal sid w raw st) = st \<or>
    (\<exists>d. decode_v2 c raw = Some d \<and> v2_message P on_curve c now wall elapsed remote chal sid w raw st =
       v2_handle P on_curve c now wall elapsed remote chal sid w d st)"
    unfolding v2_message_def decode_v2_def by (simp add: v2_quiet_def split: sum.split exn.split)
  then show ?thesis using that by blast
qed

lemma v2_frame_eq:
  "v2_frame P on_curve c now wall elapsed remote chal sid w raw st =
     (case utf8_len raw of
        None \<Rightarrow> (st, [], VRaise UnicodeEncodeError)
      | Some n \<Rightarrow>
        if int n > max_frame_bytes c then v2_error w ''frame-too-large'' JNull st
        else if \<not> fst (limit now sid ''MESSAGE'' (v2_hub st)) then
          (v2_count ''rate_rejections'' (st\<lparr>v2_hub := snd (limit now sid ''MESSAGE'' (v2_hub st))\<rparr>),
           [SendFrame w (v2_error_frame ''rate-limited'' JNull), CloseSocket w 1008 ''message rate exceeded''], VBreak)
        else if \<not> fst (try_consume now 1 (global_message_limiter (v2_hub st))) then
          (v2_count ''message_global_rate_rejections'' (v2_charged now sid st),
           [SendFrame w (v2_error_frame ''capacity'' JNull), CloseSocket w 1013 ''global message capacity''], VBreak)
        else v2_message P on_curve c now wall elapsed remote chal sid w raw (v2_charged now sid st))"
  unfolding v2_frame_def v2_charged_def charged_def Let_def case_prod_unfold v2_limit_simps on_hub_def
  by (cases "utf8_len raw") (simp_all del: try_consume_simps)

lemma v2_frame_cases:
  obtains "v2_quiet (v2_hub st) (v2_frame P on_curve c now wall elapsed remote chal sid w raw st)"
    "hub_inv c (v2_hub st) \<Longrightarrow> hub_inv c (v2_hub (fst (v2_frame P on_curve c now wall elapsed remote chal sid w raw st)))"
  | d where "decode_v2 c raw = Some d"
    "v2_frame P on_curve c now wall elapsed remote chal sid w raw st =
       v2_handle P on_curve c now wall elapsed remote chal sid w d (v2_charged now sid st)"
proof (cases "v2_frame P on_curve c now wall elapsed remote chal sid w raw st =
    v2_message P on_curve c now wall elapsed remote chal sid w raw (v2_charged now sid st)")
  case True
  show ?thesis
  proof (rule v2_message_quiet [of "v2_charged now sid st" P on_curve c now wall elapsed remote chal sid w raw])
    fix d
    assume "decode_v2 c raw = Some d" "v2_message P on_curve c now wall elapsed remote chal sid w raw (v2_charged now sid st) =
       v2_handle P on_curve c now wall elapsed remote chal sid w d (v2_charged now sid st)"
    then show ?thesis using that(2) True by simp
  qed (rule that(1), use True charged_inv in \<open>simp_all add: v2_quiet_def\<close>)
next
  case False
  then have "v2_quiet (v2_hub st) (v2_frame P on_curve c now wall elapsed remote chal sid w raw st) \<and>
     (hub_inv c (v2_hub st) \<longrightarrow> hub_inv c (v2_hub (fst (v2_frame P on_curve c now wall elapsed remote chal sid w raw st))))"
    using hub_inv_limit charged_inv
    by (simp add: v2_frame_eq v2_quiet_def del: try_consume_simps split: option.splits if_splits)
  then show ?thesis using that(1) by blast
qed

lemma v2_frame_kept:
  assumes "hub_inv c (v2_hub st)" "dget (sessions (v2_hub st)) sid = Some s" "post_init c = Inr ()"
  shows "v2_kept P on_curve c wall sid s st (v2_frame P on_curve c now wall elapsed remote chal sid w raw st)"
proof (rule v2_frame_cases [of st P on_curve c now wall elapsed remote chal sid w raw])
  fix d
  assume f: "v2_frame P on_curve c now wall elapsed remote chal sid w raw st =
       v2_handle P on_curve c now wall elapsed remote chal sid w d (v2_charged now sid st)"
  have "v2_kept P on_curve c wall sid s (v2_charged now sid st)
      (v2_handle P on_curve c now wall elapsed remote chal sid w d (v2_charged now sid st))"
    using assms charged_inv by (intro v2_handle_kept) simp_all
  then show ?thesis by (simp add: f v2_kept_def v2_moved_def)
qed (use assms in \<open>simp add: v2_kept_same v2_quiet_def\<close>)

lemma v2_frame_gone:
  assumes "dget (sessions (v2_hub st)) sid = None"
  shows "sessions (v2_hub (fst (v2_frame P on_curve c now wall elapsed remote chal sid w raw st))) = sessions (v2_hub st)"
    "hub_inv c (v2_hub st) \<Longrightarrow> hub_inv c (v2_hub (fst (v2_frame P on_curve c now wall elapsed remote chal sid w raw st)))"
proof (atomize (full), rule v2_frame_cases [of st P on_curve c now wall elapsed remote chal sid w raw])
  let ?r = "v2_frame P on_curve c now wall elapsed remote chal sid w raw st"
  let ?goal = "sessions (v2_hub (fst ?r)) = sessions (v2_hub st) \<and> (hub_inv c (v2_hub st) \<longrightarrow> hub_inv c (v2_hub (fst ?r)))"
  fix d
  assume "?r = v2_handle P on_curve c now wall elapsed remote chal sid w d (v2_charged now sid st)"
  then show ?goal using assms charged_inv by (simp add: v2_handle_def)
qed (simp add: v2_quiet_def)


section \<open>The replay cache\<close>

definition keeps_seen :: "real \<Rightarrow> hub \<Rightarrow> hub \<Rightarrow> bool" where
  "keeps_seen now h h' \<longleftrightarrow> (\<forall>k e. dget (seen h) k = Some e \<longrightarrow> now < e \<longrightarrow> dget (seen h') k = Some e)"

lemma keeps_seen_same: "seen h' = seen h \<Longrightarrow> keeps_seen now h h'"
  by (simp add: keeps_seen_def)

lemma keeps_seen_mark: "hub_inv c h \<Longrightarrow> seen h1 = seen h \<Longrightarrow> keeps_seen now h (snd (check_and_mark_seen c now k ttl h1))"
  using dedupe.mark_keeps [of c h] hub_invD(3) mark_seen_cong [of h1 h] unfolding keeps_seen_def by metis

lemma send_seen: "send_session frepr c sid data h = Inr (ok, h', effs) \<Longrightarrow> seen h' = seen h \<and> routes h' = routes h"
  by (drule send_session_cases) auto

lemma attach_route_seen: "attach_route c now sid r ttl mx h = Inr h' \<Longrightarrow> seen h' = seen h"
  by (erule attach_route_cases) simp

lemma v2_relay_seen:
  assumes "hub_inv c h" "seen (v2_hub st) = seen h"
  shows "keeps_seen now h (v2_hub (fst (v2_relay P c now elapsed remote sid w mid payload s st)))"
proof -
  let ?m = "snd (check_and_mark_seen c now (replay_key sid payload) (dedupe_window_seconds c) (v2_hub st))"
  let ?h' = "v2_hub (fst (v2_relay P c now elapsed remote sid w mid payload s st))"
  have "seen ?h' = seen (v2_hub st) \<or> seen ?h' = seen ?m"
    by (auto simp: v2_relay_eq Let_def relay_marked_def dest: send_seen split: sum.split)
  then show ?thesis
    using keeps_seen_mark [OF assms, of now "replay_key sid payload" "dedupe_window_seconds c"] assms(2)
    by (auto simp: keeps_seen_def)
qed

lemma v2_signal_seen:
  assumes "hub_inv c (v2_hub st)"
  shows "keeps_seen now (v2_hub st) (v2_hub (fst (v2_signal P c now wall elapsed remote sid w d s st)))"
  using v2_relay_seen [OF assms]
  by (auto simp: v2_signal_def Let_def case_prod_unfold keeps_seen_same split: sum.split option.split)

lemma v2_handlers_seen:
  "seen (v2_hub (fst (v2_hello P on_curve c wall chal sid w d s st))) = seen (v2_hub st)"
  "seen (v2_hub (fst (v2_prove P c now sid w d s st))) = seen (v2_hub st)"
  "seen (v2_hub (fst (v2_ping now sid w d st))) = seen (v2_hub st)"
  "seen (v2_hub (fst (v2_attach c now sid w d st))) = seen (v2_hub st)"
  "seen (v2_hub (fst (v2_detach sid d st))) = seen (v2_hub st)"
  "seen (v2_hub (fst (v2_discover now sid w d s st))) = seen (v2_hub st)"
  by (auto simp: v2_hello_def v2_prove_def v2_ping_def v2_attach_def v2_detach_def v2_discover_def Let_def
      case_prod_unfold v2_try_def set_v2_identity_def dest: with_manifest_hub attach_route_seen
      split: option.splits list.splits sum.splits exn.splits)

lemma v2_handle_seen:
  assumes "hub_inv c (v2_hub st)"
  shows "keeps_seen now (v2_hub st) (v2_hub (fst (v2_handle P on_curve c now wall elapsed remote chal sid w d st)))"
  using assms by (simp add: v2_handle_def Let_def keeps_seen_same v2_handlers_seen v2_signal_seen split: option.split)

lemma v2_frame_seen:
  assumes "hub_inv c (v2_hub st)"
  shows "keeps_seen now (v2_hub st) (v2_hub (fst (v2_frame P on_curve c now wall elapsed remote chal sid w raw st)))"
proof (rule v2_frame_cases [of st P on_curve c now wall elapsed remote chal sid w raw])
  fix d
  assume "v2_frame P on_curve c now wall elapsed remote chal sid w raw st =
    v2_handle P on_curve c now wall elapsed remote chal sid w d (v2_charged now sid st)"
  then show ?thesis
    using v2_handle_seen [of c "v2_charged now sid st"] charged_inv [OF assms] by (simp add: keeps_seen_def)
qed (simp add: v2_quiet_def keeps_seen_same)

end
