(* ===== verification/Node_Mesh.thy ===== *)
theory Node_Mesh
  imports V1_Routes Trust
begin

text \<open>
  \<^verbatim>\<open>app/node_mesh.py\<close>: the mesh of trusted master servers. Placement of routes by rendezvous
  hashing, replication of route descriptors, discovery, forwarding of signals, authentication of
  peers and membership by majority. The state of a \<^verbatim>\<open>NodeMesh\<close> is the record \<open>mesh\<close>; the
  hub, whose metrics and replay cache it shares, is passed along. Sockets are numbers, a message
  to another node is a \<open>MeshSend\<close> with its type and payload; ids from \<^verbatim>\<open>uuid4\<close> are
  arguments. \<open>time\<close> is \<^verbatim>\<open>time.time()\<close>, \<open>now\<close> the monotonic clock. A coroutine that
  awaits is cut there: the part before returns what it waits for.
\<close>

section \<open>Definitions\<close>

record trusted_node =
  tn_node_id :: pystr
  tn_url :: pystr
  server_key_pin :: pystr

type_synonym descriptor = "(pystr \<times> json) list"

text \<open>Pending operations map a request to its future: \<open>None\<close> while it is not done.\<close>

record mesh =
  trusted :: "(pystr, trusted_node) dict"
  connections :: "(pystr, nat) dict"
  route_registry :: "(pystr, (pystr \<times> pystr, descriptor) dict) dict"
  route_descriptor_count :: int
  session_nodes :: "(pystr, pystr) dict"
  descriptor_cache :: "(pystr, descriptor) dict"
  pending_queries :: "(pystr, descriptor list option) dict"
  pending_acks :: "(pystr, bool option) dict"
  membership_nodes :: "pystr list"
  peer_views :: "(pystr, int \<times> pystr list \<times> real) dict"
  suspected_since :: "(pystr, real) dict"
  mesh_quorum :: bool

datatype mesh_send = MeshSend nat string "(pystr \<times> json) list"

subsection \<open>Start-up\<close>

definition nonempty_str :: "json \<Rightarrow> bool" where
  "nonempty_str v = (case v of JStr (_ # _) \<Rightarrow> True | _ \<Rightarrow> False)"

fun parse_nodes :: "json list \<Rightarrow> (pystr, trusted_node) dict \<Rightarrow> (pystr, trusted_node) dict result" where
  "parse_nodes [] acc = Inr acc"
| "parse_nodes (value # values) acc =
     (case value of
        JDict d \<Rightarrow>
          (let i = jget d ''nodeId''; l = jget d ''url''; pin = jget d ''serverKeyPin''
           in if \<not> (nonempty_str i \<and> nonempty_str l \<and> nonempty_str pin) \<or> length (jstr pin) \<noteq> 64
              then Inl (ValueError ''fields'')
              else if jstr i \<in> set (dkeys acc) then Inl (ValueError ''unique'')
              else if \<not> list_all is_hex (jstr pin) then Inl (ValueError ''hexadecimal'')
              else parse_nodes values (dset acc (jstr i)
                     \<lparr>tn_node_id = jstr i, tn_url = jstr l, server_key_pin = lower_ascii (jstr pin)\<rparr>))
      | _ \<Rightarrow> Inl (ValueError ''object''))"

text \<open>\<open>values\<close> is what \<^verbatim>\<open>json.loads\<close> makes of the setting, \<open>None\<close> when it refuses it.\<close>

definition parse_trusted_nodes :: "json option \<Rightarrow> (pystr, trusted_node) dict result" where
  "parse_trusted_nodes values =
     (case values of
        Some (JList vs) \<Rightarrow> if length vs > 7 then Inl (ValueError ''trusted nodes'') else parse_nodes vs []
      | _ \<Rightarrow> Inl (ValueError ''trusted nodes''))"

definition membership_universe :: "config \<Rightarrow> mesh \<Rightarrow> pystr list" where
  "membership_universe c m = List.insert (node_id c) (dkeys (trusted m))"

definition new_mesh :: "config \<Rightarrow> (pystr, trusted_node) dict \<Rightarrow> mesh" where
  "new_mesh c tn =
     \<lparr>trusted = tn, connections = [], route_registry = [], route_descriptor_count = 0, session_nodes = [],
      descriptor_cache = [], pending_queries = [], pending_acks = [],
      membership_nodes = List.insert (node_id c) (dkeys tn), peer_views = [], suspected_since = [],
      mesh_quorum = (\<not> node_mesh_enabled c \<or> length (List.insert (node_id c) (dkeys tn)) = 1)\<rparr>"

definition node_mesh_init :: "config \<Rightarrow> json option \<Rightarrow> mesh result" where
  "node_mesh_init c values =
     rbind (parse_trusted_nodes values) (\<lambda>tn.
     rbind (raise_if (node_id c \<in> set (dkeys tn)) (ValueError ''local node'')) (\<lambda>_.
     Inr (new_mesh c tn)))"

text \<open>The checks of \<^verbatim>\<open>start\<close> and the peers it dials.\<close>

definition is_wss :: "pystr \<Rightarrow> bool" where
  "is_wss url \<longleftrightarrow> take 6 (lower_ascii url) = u ''wss://''"

definition mesh_start :: "config \<Rightarrow> mesh \<Rightarrow> hub \<Rightarrow> (pystr list \<times> hub) result" where
  "mesh_start c m h =
     (if \<not> node_mesh_enabled c then Inr ([], h)
      else rbind (if \<not> node_mesh_require_mtls c then Inr ()
                  else case utf8_len (node_mesh_proxy_token c) of
                         None \<Rightarrow> Inl UnicodeEncodeError
                       | Some n \<Rightarrow> raise_if (n < 32) (RuntimeError ''proxy token'')) (\<lambda>_.
           rbind (raise_if (trusted m \<noteq> [] \<and> node_mesh_require_mtls c \<and>
                    \<not> list_all (\<lambda>n. is_wss (tn_url n)) (dvalues (trusted m))) (RuntimeError ''wss'')) (\<lambda>_.
           rbind (raise_if (trusted m \<noteq> [] \<and> node_mesh_require_mtls c \<and>
                    [] \<in> {node_mesh_ca_file c, node_mesh_cert_file c, node_mesh_key_file c}) (RuntimeError ''mtls'')) (\<lambda>_.
           Inr (filter (\<lambda>n. node_id c < n) (dkeys (trusted m)),
                with_metrics (gauge ''node_mesh_configured_peers'' (real (length (trusted m)))) h)))))"

definition mesh_stop :: "config \<Rightarrow> mesh \<Rightarrow> hub \<Rightarrow> mesh \<times> hub" where
  "mesh_stop c m h = (new_mesh c (trusted m), with_metrics (gauge ''node_mesh_connected_peers'' 0) h)"

subsection \<open>Placement\<close>

definition rank_key :: "(bytes \<Rightarrow> bytes) \<Rightarrow> pystr \<Rightarrow> pystr \<Rightarrow> bytes option" where
  "rank_key sha route_tag n = map_option sha (utf8_encode (route_tag @ [0] @ n))"

text \<open>\<^verbatim>\<open>sorted(..., reverse=True)\<close> keeps the order of elements with equal keys.\<close>

definition owners_for :: "(bytes \<Rightarrow> bytes) \<Rightarrow> config \<Rightarrow> pystr \<Rightarrow> mesh \<Rightarrow> pystr list result" where
  "owners_for sha c route_tag m =
     (let nodes = sort (membership_nodes m);
          k = min (max 1 (node_mesh_replica_count c)) (int (length nodes));
          rank = rank_key sha route_tag
      in if \<exists>n \<in> set nodes. rank n = None then Inl UnicodeEncodeError
         else Inr (take (nat k) (rev (sort_key (the \<circ> rank) (rev nodes)))))"

subsection \<open>Descriptors\<close>

definition descriptor_is_current :: "config \<Rightarrow> real \<Rightarrow> descriptor \<Rightarrow> bool" where
  "descriptor_is_current c time d =
     (case jget d ''expiresAt'' of
        JInt e \<Rightarrow>
          (let now = real_of_int \<lfloor>time\<rfloor>; skew = node_mesh_max_clock_skew_seconds c
           in now - skew < real_of_int e \<and> real_of_int e \<le> now + route_lease_seconds c + skew)
      | _ \<Rightarrow> False)"

definition lower_hex_text :: "nat \<Rightarrow> json \<Rightarrow> bool" where
  "lower_hex_text n v = (case v of JStr s \<Rightarrow> length s = n \<and> list_all is_lower_hex s | _ \<Rightarrow> False)"

definition valid_route_tag :: "json \<Rightarrow> bool" where
  "valid_route_tag v = lower_hex_text 64 v"

definition short_text :: "nat \<Rightarrow> json \<Rightarrow> bool" where
  "short_text n v = (case v of JStr s \<Rightarrow> 1 \<le> length s \<and> length s \<le> n | _ \<Rightarrow> False)"

definition valid_descriptor :: "bool \<Rightarrow> json \<Rightarrow> bool" where
  "valid_descriptor removal v =
     (case v of
        JDict d \<Rightarrow>
          keys_are d (if removal then [''sessionId'', ''nodeId'']
                      else [''sessionId'', ''encryptionKeyHex'', ''keyId'', ''nodeId'', ''expiresAt'']) \<and>
          short_text 64 (jget d ''sessionId'') \<and> short_text 128 (jget d ''nodeId'') \<and>
          (removal \<or> lower_hex_text 130 (jget d ''encryptionKeyHex'') \<and> lower_hex_text 64 (jget d ''keyId'') \<and>
             is_int (jget d ''expiresAt''))
      | _ \<Rightarrow> False)"

definition NODE_TYPES :: "string list" where
  "NODE_TYPES = [''NODE_HELLO'', ''NODE_STATE'', ''ROUTE_REGISTER'', ''ROUTE_REMOVE'', ''ROUTE_QUERY'',
     ''ROUTE_RESULT'', ''SIGNAL_FORWARD'', ''ACK'']"

definition is_dict :: "json \<Rightarrow> bool" where
  "is_dict v = (case v of JDict _ \<Rightarrow> True | _ \<Rightarrow> False)"

definition valid_node_envelope :: "json \<Rightarrow> bool result" where
  "valid_node_envelope v =
     (case v of
        JDict d \<Rightarrow>
          if \<not> keys_are d [''protocol'', ''type'', ''id'', ''payload''] \<or>
             jget d ''protocol'' \<noteq> JStr (protocol_version ''NODE'') then Inr False
          else rbind (str_in (jget d ''type'') (map u NODE_TYPES)) (\<lambda>ok.
                 Inr (ok \<and> short_text 64 (jget d ''id'') \<and> is_dict (jget d ''payload'')))
      | _ \<Rightarrow> Inr False)"

definition node_message :: "string \<Rightarrow> pystr \<Rightarrow> (pystr \<times> json) list \<Rightarrow> json" where
  "node_message t mid payload =
     JDict [(u ''protocol'', JStr (protocol_version ''NODE'')), (u ''type'', JStr (u t)), (u ''id'', JStr mid),
            (u ''payload'', JDict payload)]"

subsection \<open>The route registry\<close>

text \<open>\<^verbatim>\<open>if not route: registry.pop(route_tag)\<close>\<close>

definition put_route ::
  "pystr \<Rightarrow> (pystr \<times> pystr, descriptor) dict \<Rightarrow> (pystr, (pystr \<times> pystr, descriptor) dict) dict
     \<Rightarrow> (pystr, (pystr \<times> pystr, descriptor) dict) dict" where
  "put_route tag route reg = (if route = [] then dpop reg tag else dset reg tag route)"

text \<open>Whether the code refuses a descriptor's claim that session \<open>sid\<close> lives on node \<open>nid\<close>.\<close>

definition identity_conflict :: "config \<Rightarrow> pystr \<Rightarrow> pystr \<Rightarrow> mesh \<Rightarrow> hub \<Rightarrow> bool" where
  "identity_conflict c nid sid m h \<longleftrightarrow>
     nid \<noteq> node_id c \<and> sid \<in> set (dkeys (sessions h)) \<or>
     (case dget (session_nodes m) sid of None \<Rightarrow> False | Some n \<Rightarrow> n \<noteq> nid)"

definition apply_route_message ::
  "config \<Rightarrow> real \<Rightarrow> string \<Rightarrow> pystr \<Rightarrow> descriptor \<Rightarrow> mesh \<Rightarrow> hub \<Rightarrow> mesh \<times> hub" where
  "apply_route_message c time msg_type tag d m h =
     (case (jget d ''sessionId'', jget d ''nodeId'') of
        (JStr sid, JStr nid) \<Rightarrow>
          (let key = (nid, sid); found = dget (route_registry m) tag; route = dget_default [] (route_registry m) tag
           in if msg_type = ''ROUTE_REMOVE'' then
                (case found of
                   None \<Rightarrow> (m, h)
                 | Some _ \<Rightarrow>
                     (m\<lparr>route_registry := put_route tag (dpop route key) (route_registry m),
                        route_descriptor_count := route_descriptor_count m - of_bool (key \<in> set (dkeys route))\<rparr>, h))
              else if int_value (jget d ''expiresAt'') \<noteq> None then
                if \<not> descriptor_is_current c time d \<or> identity_conflict c nid sid m h
                then (m, count ''node_mesh_descriptor_identity_rejections'' h)
                else if key \<notin> set (dkeys route) \<and> route_descriptor_count m \<ge> node_mesh_max_route_descriptors c
                then (m\<lparr>route_registry := if route = [] then dpop (route_registry m) tag else route_registry m\<rparr>,
                      count ''node_mesh_descriptor_capacity_rejections'' h)
                else (m\<lparr>route_registry := dset (route_registry m) tag (dset route key d),
                        route_descriptor_count := route_descriptor_count m + of_bool (key \<notin> set (dkeys route)),
                        session_nodes := dset (session_nodes m) sid nid\<rparr>, h)
              else (m\<lparr>route_registry := if found = Some [] then dpop (route_registry m) tag else route_registry m\<rparr>, h))
      | _ \<Rightarrow> (m, h))"

definition cache_descriptor :: "config \<Rightarrow> real \<Rightarrow> descriptor \<Rightarrow> mesh \<Rightarrow> hub \<Rightarrow> bool \<times> mesh \<times> hub" where
  "cache_descriptor c time d m h =
     (case (jget d ''sessionId'', jget d ''nodeId'') of
        (JStr sid, JStr nid) \<Rightarrow>
          if \<not> descriptor_is_current c time d then (False, m, h)
          else if identity_conflict c nid sid m h
          then (False, m, count ''node_mesh_descriptor_identity_rejections'' h)
          else if sid \<notin> set (dkeys (descriptor_cache m)) \<and>
                  int (length (descriptor_cache m)) \<ge> node_mesh_max_route_descriptors c
          then (False, m, count ''node_mesh_descriptor_capacity_rejections'' h)
          else (True, m\<lparr>session_nodes := dset (session_nodes m) sid nid,
                        descriptor_cache := dset (descriptor_cache m) sid d\<rparr>, h)
      | _ \<Rightarrow> (False, m, h))"

definition desc_expired :: "real \<Rightarrow> descriptor \<Rightarrow> bool" where
  "desc_expired time d \<longleftrightarrow> int_of (jget d ''expiresAt'') \<le> \<lfloor>time\<rfloor>"

text \<open>\<open>filter_routes P\<close> drops the entries of every route that fail \<open>P\<close>, and routes left empty.\<close>

definition filter_routes :: "(pystr \<Rightarrow> descriptor \<Rightarrow> bool) \<Rightarrow> mesh \<Rightarrow> mesh" where
  "filter_routes keep m =
     (let reg = map (\<lambda>(tag, route). (tag, filter (\<lambda>(key, d). keep tag d) route)) (route_registry m);
          size = (\<lambda>r. sum_list (map (length \<circ> snd) r))
      in m\<lparr>route_registry := filter (\<lambda>(tag, route). route \<noteq> []) reg,
           route_descriptor_count := route_descriptor_count m - (int (size (route_registry m)) - int (size reg))\<rparr>)"

definition mesh_prune_routes :: "real \<Rightarrow> mesh \<Rightarrow> mesh" where
  "mesh_prune_routes time m =
     (let gone = map fst (filter (\<lambda>(sid, d). desc_expired time d) (descriptor_cache m))
      in filter_routes (\<lambda>tag d. \<not> desc_expired time d)
           (m\<lparr>descriptor_cache := fold (\<lambda>k d. dpop d k) gone (descriptor_cache m),
              session_nodes := fold (\<lambda>k d. dpop d k) gone (session_nodes m)\<rparr>))"

definition remote_descriptor :: "real \<Rightarrow> pystr \<Rightarrow> mesh \<Rightarrow> descriptor option \<times> mesh" where
  "remote_descriptor time target m =
     (let search = (\<lambda>m. List.find (\<lambda>d. jget d ''sessionId'' = JStr target)
                         (concat (map (dvalues \<circ> snd) (route_registry m))))
      in case dget (descriptor_cache m) target of
           None \<Rightarrow> (search m, m)
         | Some d \<Rightarrow>
             if \<not> desc_expired time d then (Some d, m)
             else let m' = m\<lparr>descriptor_cache := dpop (descriptor_cache m) target,
                             session_nodes := dpop (session_nodes m) target\<rparr>
                  in (search m', m'))"

subsection \<open>Replication\<close>

fun replicate_to ::
  "config \<Rightarrow> real \<Rightarrow> string \<Rightarrow> pystr \<Rightarrow> descriptor \<Rightarrow> pystr list \<Rightarrow> mesh \<Rightarrow> hub \<Rightarrow> mesh \<times> hub \<times> mesh_send list" where
  "replicate_to c time t tag d [] m h = (m, h, [])"
| "replicate_to c time t tag d (owner # owners) m h =
     (if owner = node_id c then
        (case apply_route_message c time t tag d m h of (m1, h1) \<Rightarrow> replicate_to c time t tag d owners m1 h1)
      else
        (case replicate_to c time t tag d owners m h of (m1, h1, out) \<Rightarrow>
           (m1, h1, (case dget (connections m) owner of
                       None \<Rightarrow> out
                     | Some w \<Rightarrow> MeshSend w t [(u ''routeTag'', JStr tag), (u ''descriptor'', JDict d)] # out))))"

definition mesh_replicate ::
  "(bytes \<Rightarrow> bytes) \<Rightarrow> config \<Rightarrow> real \<Rightarrow> string \<Rightarrow> pystr \<Rightarrow> descriptor \<Rightarrow> mesh \<Rightarrow> hub
     \<Rightarrow> (mesh \<times> hub \<times> mesh_send list) result" where
  "mesh_replicate sha c time t tag d m h =
     rbind (owners_for sha c tag m) (\<lambda>owners. Inr (replicate_to c time t tag d owners m h))"

definition register_local_route ::
  "(bytes \<Rightarrow> bytes) \<Rightarrow> config \<Rightarrow> real \<Rightarrow> pystr \<Rightarrow> pystr \<Rightarrow> mesh \<Rightarrow> hub \<Rightarrow> (mesh \<times> hub \<times> mesh_send list) result" where
  "register_local_route sha c time tag sid m h =
     (case peer_descriptor sid h of
        None \<Rightarrow> Inr (m, h, [])
      | Some d \<Rightarrow> mesh_replicate sha c time ''ROUTE_REGISTER'' tag
          (d @ [(u ''nodeId'', JStr (node_id c)), (u ''expiresAt'', JInt \<lfloor>time + route_lease_seconds c\<rfloor>)]) m h)"

definition remove_local_route ::
  "(bytes \<Rightarrow> bytes) \<Rightarrow> config \<Rightarrow> real \<Rightarrow> pystr \<Rightarrow> pystr \<Rightarrow> mesh \<Rightarrow> hub \<Rightarrow> (mesh \<times> hub \<times> mesh_send list) result" where
  "remove_local_route sha c time tag sid m h =
     mesh_replicate sha c time ''ROUTE_REMOVE'' tag
       [(u ''sessionId'', JStr sid), (u ''nodeId'', JStr (node_id c))] m h"

text \<open>After the sends of a replication: how many did not succeed.\<close>

definition replicate_done :: "nat \<Rightarrow> hub \<Rightarrow> hub" where
  "replicate_done failures h = with_metrics (increment_by ''node_mesh_send_failures'' (real failures)) h"

subsection \<open>Discovery\<close>

definition pending_operation_count :: "mesh \<Rightarrow> int" where
  "pending_operation_count m = int (length (pending_queries m) + length (pending_acks m))"

definition collect ::
  "config \<Rightarrow> real \<Rightarrow> descriptor list \<Rightarrow> (pystr, descriptor) dict \<times> mesh \<times> hub \<Rightarrow> (pystr, descriptor) dict \<times> mesh \<times> hub" where
  "collect c time ds st =
     fold (\<lambda>d (acc, m, h). case cache_descriptor c time d m h of
             (ok, m1, h1) \<Rightarrow> (if ok then dset acc (jstr (jget d ''sessionId'')) d else acc, m1, h1)) ds st"

text \<open>Up to the queries: the local descriptors and the connections to ask.\<close>

definition discover_begin ::
  "(bytes \<Rightarrow> bytes) \<Rightarrow> config \<Rightarrow> real \<Rightarrow> pystr \<Rightarrow> mesh \<Rightarrow> hub
     \<Rightarrow> ((pystr, descriptor) dict \<times> nat list \<times> mesh \<times> hub) result" where
  "discover_begin sha c time tag m h =
     (let m1 = mesh_prune_routes time m
      in case collect c time (dvalues (dget_default [] (route_registry m1) tag)) ([], m1, h) of (acc, m2, h2) \<Rightarrow>
           rbind (owners_for sha c tag m2) (\<lambda>owners.
             Inr (acc, List.map_filter (dget (connections m2)) (filter (\<lambda>n. n \<noteq> node_id c) owners), m2, h2)))"

definition query_owner ::
  "config \<Rightarrow> nat \<Rightarrow> pystr \<Rightarrow> pystr \<Rightarrow> mesh \<Rightarrow> hub \<Rightarrow> bool \<times> mesh \<times> hub \<times> mesh_send list" where
  "query_owner c w query_id tag m h =
     (if pending_operation_count m \<ge> node_mesh_max_pending_operations c
      then (False, m, count ''node_mesh_pending_capacity_rejections'' h, [])
      else (True, m\<lparr>pending_queries := dset (pending_queries m) query_id None\<rparr>, h,
            [MeshSend w ''ROUTE_QUERY'' [(u ''queryId'', JStr query_id), (u ''routeTag'', JStr tag)]]))"

text \<open>The end of a query: its result if it was sent and the future is done, else none.\<close>

definition query_done :: "bool \<Rightarrow> pystr \<Rightarrow> mesh \<Rightarrow> descriptor list \<times> mesh" where
  "query_done sent query_id m =
     ((case dget (pending_queries m) query_id of Some (Some ds) \<Rightarrow> if sent then ds else [] | _ \<Rightarrow> []),
      m\<lparr>pending_queries := dpop (pending_queries m) query_id\<rparr>)"

definition discover_end ::
  "config \<Rightarrow> real \<Rightarrow> (pystr, descriptor) dict \<Rightarrow> descriptor list list \<Rightarrow> mesh \<Rightarrow> hub \<Rightarrow> descriptor list \<times> mesh \<times> hub" where
  "discover_end c time acc results m h =
     (case collect c time (concat results) (acc, m, h) of (acc', m', h') \<Rightarrow> (dvalues acc', m', h'))"

subsection \<open>Forwarding\<close>

text \<open>\<open>Some _\<close> when the answer is known at once, \<open>None\<close> when the acknowledgement is awaited.\<close>

definition forward_signal ::
  "config \<Rightarrow> pystr \<Rightarrow> pystr \<Rightarrow> pystr \<Rightarrow> json \<Rightarrow> mesh \<Rightarrow> hub \<Rightarrow> bool option \<times> mesh \<times> hub \<times> mesh_send list" where
  "forward_signal c request_id tag target envelope m h =
     (case dget (session_nodes m) target of
        None \<Rightarrow> (Some False, m, h, [])
      | Some n \<Rightarrow>
          if n = [] \<or> n = node_id c then (Some False, m, h, [])
          else (case dget (connections m) n of
                  None \<Rightarrow> (Some False, m, h, [])
                | Some w \<Rightarrow>
                    if pending_operation_count m \<ge> node_mesh_max_pending_operations c
                    then (Some False, m, count ''node_mesh_pending_capacity_rejections'' h, [])
                    else (None, m\<lparr>pending_acks := dset (pending_acks m) request_id None\<rparr>, h,
                          [MeshSend w ''SIGNAL_FORWARD'' [(u ''requestId'', JStr request_id), (u ''routeTag'', JStr tag),
                             (u ''targetSessionId'', JStr target), (u ''envelope'', envelope)]])))"

datatype ack_outcome = SendFailed | AckTimeout | AckReceived

definition forward_done :: "ack_outcome \<Rightarrow> pystr \<Rightarrow> mesh \<Rightarrow> hub \<Rightarrow> bool \<times> mesh \<times> hub" where
  "forward_done oc request_id m h =
     (let m' = m\<lparr>pending_acks := dpop (pending_acks m) request_id\<rparr>
      in case oc of
           SendFailed \<Rightarrow> (False, m', h)
         | AckTimeout \<Rightarrow> (False, m', count ''node_mesh_ack_timeouts'' h)
         | AckReceived \<Rightarrow> (dget (pending_acks m) request_id = Some (Some True), m', h))"

end
