(* ===== verification/Node_Links.thy ===== *)
theory Node_Links
  imports Node_Mesh
begin

text \<open>
  The rest of \<^verbatim>\<open>app/node_mesh.py\<close>: membership by majority, authentication of a peer, and what a
  link does with the frames it receives.
\<close>

section \<open>Membership\<close>

definition quorum_size :: "config \<Rightarrow> mesh \<Rightarrow> nat" where
  "quorum_size c m = length (membership_universe c m) div 2 + 1"

definition local_view :: "config \<Rightarrow> mesh \<Rightarrow> pystr list" where
  "local_view c m = List.insert (node_id c) (dkeys (connections m))"

definition fresh_views :: "config \<Rightarrow> real \<Rightarrow> mesh \<Rightarrow> (pystr, int \<times> pystr list \<times> real) dict" where
  "fresh_views c now m =
     filter (\<lambda>(reporter, epoch, view, received_at).
       epoch = node_mesh_membership_epoch c \<and> now - received_at \<le> max 3 (node_mesh_suspicion_seconds c * 3)) (peer_views m)"

text \<open>The nodes that reported a view, this node first, with what they see.\<close>

definition reporters :: "config \<Rightarrow> real \<Rightarrow> mesh \<Rightarrow> (pystr, pystr list) dict" where
  "reporters c now m =
     fold (\<lambda>(reporter, epoch, view, received_at) acc.
             dset acc reporter (filter (\<lambda>n. n \<in> set (membership_universe c m)) view))
       (fresh_views c now m) [(node_id c, local_view c m)]"

definition alive_votes :: "(pystr, pystr list) dict \<Rightarrow> pystr \<Rightarrow> nat" where
  "alive_votes rs candidate = length (filter (\<lambda>(reporter, view). candidate \<in> set view) rs)"

definition judge ::
  "config \<Rightarrow> real \<Rightarrow> nat \<Rightarrow> (pystr, pystr list) dict \<Rightarrow> pystr \<Rightarrow> pystr list \<times> (pystr, real) dict
     \<Rightarrow> pystr list \<times> (pystr, real) dict" where
  "judge c now quorum rs candidate st =
     (case st of (members, suspects) \<Rightarrow>
        if alive_votes rs candidate \<ge> quorum then (List.insert candidate members, dpop suspects candidate)
        else
          let suspected = dget_default now suspects candidate
          in (if now - suspected \<ge> node_mesh_suspicion_seconds c then removeAll candidate members else members,
              dset suspects candidate suspected))"

definition reconcile_membership :: "config \<Rightarrow> real \<Rightarrow> mesh \<Rightarrow> hub \<Rightarrow> mesh \<times> hub" where
  "reconcile_membership c now m h =
     (let rs = reporters c now m; quorum = quorum_size c m; has = length rs \<ge> quorum;
          m1 = m\<lparr>peer_views := fresh_views c now m, mesh_quorum := has\<rparr>;
          h1 = with_metrics (gauge ''node_mesh_membership_reporters'' (real (length rs)) \<circ>
                 gauge ''node_mesh_membership_quorum'' (of_bool has)) h
      in if \<not> has then (m1, h1)
         else (case fold (judge c now quorum rs) (filter (\<lambda>n. n \<noteq> node_id c) (membership_universe c m))
                      (List.insert (node_id c) (membership_nodes m), suspected_since m) of (members, suspects) \<Rightarrow>
                 let m2 = m1\<lparr>suspected_since := suspects\<rparr>
                 in if set members = set (membership_nodes m) then (m2, h1)
                    else (m2\<lparr>membership_nodes := members\<rparr>,
                          with_metrics (gauge ''node_mesh_membership_nodes'' (real (length members)) \<circ>
                            increment ''node_mesh_membership_changes'') h1)))"

text \<open>One turn of \<^verbatim>\<open>_membership_loop\<close>; the message has a node's view of the mesh.\<close>

definition state_payload :: "config \<Rightarrow> real \<Rightarrow> pystr \<Rightarrow> mesh \<Rightarrow> (pystr \<times> json) list" where
  "state_payload c time incarnation m =
     [(u ''nodeId'', JStr (node_id c)), (u ''membershipEpoch'', JInt (node_mesh_membership_epoch c)),
      (u ''incarnation'', JStr incarnation), (u ''connectedNodeIds'', JList (map JStr (sort (local_view c m)))),
      (u ''sentAt'', JInt \<lfloor>time\<rfloor>)]"

definition membership_tick :: "config \<Rightarrow> real \<Rightarrow> real \<Rightarrow> pystr \<Rightarrow> mesh \<Rightarrow> hub \<Rightarrow> mesh \<times> hub \<times> mesh_send list" where
  "membership_tick c time now incarnation m h =
     (case reconcile_membership c now m h of (m1, h1) \<Rightarrow>
        (m1, h1, map (\<lambda>w. MeshSend w ''NODE_STATE'' (state_payload c time incarnation m1)) (dvalues (connections m1))))"

text \<open>
  \<^verbatim>\<open>_topology_changed\<close>: up to the re-registration of the local routes, which it awaits one after
  the other; it gives the routes to register.
\<close>

definition local_leases :: "hub \<Rightarrow> (pystr \<times> pystr) list" where
  "local_leases h =
     concat (map (\<lambda>(sid, s). if proven s \<and> session_protocol s = 2 then map (\<lambda>tag. (tag, sid)) (sess_routes s) else [])
       (sessions h))"

fun owned_tags :: "(bytes \<Rightarrow> bytes) \<Rightarrow> config \<Rightarrow> mesh \<Rightarrow> pystr list \<Rightarrow> pystr list result" where
  "owned_tags sha c m [] = Inr []"
| "owned_tags sha c m (tag # tags) =
     rbind (owners_for sha c tag m) (\<lambda>owners. rbind (owned_tags sha c m tags) (\<lambda>rest.
       Inr (if node_id c \<in> set owners then tag # rest else rest)))"

definition node_active :: "config \<Rightarrow> mesh \<Rightarrow> descriptor \<Rightarrow> bool" where
  "node_active c m d = (case jget d ''nodeId'' of JStr n \<Rightarrow> n \<in> set (local_view c m) | _ \<Rightarrow> False)"

definition topology_changed ::
  "(bytes \<Rightarrow> bytes) \<Rightarrow> config \<Rightarrow> real \<Rightarrow> mesh \<Rightarrow> hub \<Rightarrow> ((pystr \<times> pystr) list \<times> mesh \<times> hub) result" where
  "topology_changed sha c now m h =
     (case reconcile_membership c now m h of (m1, h1) \<Rightarrow>
        rbind (owned_tags sha c m1 (dkeys (route_registry m1))) (\<lambda>owned.
          Inr (local_leases h1, filter_routes (\<lambda>tag d. tag \<in> set owned \<and> node_active c m1 d) m1, h1)))"

definition topology_done :: "hub \<Rightarrow> hub" where
  "topology_done h = count ''node_mesh_rebalances'' h"

section \<open>Links\<close>

text \<open>\<^verbatim>\<open>value or {}\<close>, then \<^verbatim>\<open>.get\<close>\<close>

definition falsy :: "json \<Rightarrow> bool" where
  "falsy v \<longleftrightarrow> v \<in> {JNull, JBool False, JInt 0, JFloat (FFin 0), JStr [], JList [], JDict []}"

definition or_dict :: "json \<Rightarrow> (pystr \<times> json) list result" where
  "or_dict v = (if falsy v then Inr [] else case v of JDict d \<Rightarrow> Inr d | _ \<Rightarrow> Inl AttributeError)"

text \<open>Comparisons of a decoded number with an integer; other values raise, or differ.\<close>

definition num_of :: "json \<Rightarrow> pyfloat option" where
  "num_of v =
     (case v of JInt i \<Rightarrow> Some (FFin (real_of_int i)) | JBool b \<Rightarrow> Some (FFin (of_bool b)) | JFloat f \<Rightarrow> Some f | _ \<Rightarrow> None)"

definition eq_int :: "json \<Rightarrow> int \<Rightarrow> bool" where
  "eq_int v i \<longleftrightarrow> num_of v = Some (FFin (real_of_int i))"

definition le_int :: "json \<Rightarrow> int \<Rightarrow> bool result" where
  "le_int v i =
     (case num_of v of
        None \<Rightarrow> Inl TypeError
      | Some FInf \<Rightarrow> Inr False
      | Some FNegInf \<Rightarrow> Inr True
      | Some (FFin x) \<Rightarrow> Inr (x \<le> real_of_int i))"

definition int_le :: "int \<Rightarrow> json \<Rightarrow> bool result" where
  "int_le i v =
     (case num_of v of
        None \<Rightarrow> Inl TypeError
      | Some FInf \<Rightarrow> Inr True
      | Some FNegInf \<Rightarrow> Inr False
      | Some (FFin x) \<Rightarrow> Inr (real_of_int i \<le> x))"

definition trusted_entry :: "mesh \<Rightarrow> json \<Rightarrow> trusted_node option result" where
  "trusted_entry m claimed =
     (case claimed of
        JStr s \<Rightarrow> Inr (dget (trusted m) s)
      | JList _ \<Rightarrow> Inl TypeError
      | JDict _ \<Rightarrow> Inl TypeError
      | _ \<Rightarrow> Inr None)"

definition authenticate_hello ::
  "trust_prims \<Rightarrow> config \<Rightarrow> real \<Rightarrow> mesh \<Rightarrow> trusted_node option \<Rightarrow> json \<Rightarrow> pystr option result" where
  "authenticate_hello P c time m expected_node message =
     rbind (valid_node_envelope message) (\<lambda>ok.
       let d = dict_of message
       in if \<not> ok \<or> jget d ''type'' \<noteq> JStr (u ''NODE_HELLO'') then Inr None
          else
            let manifest = jget (payload_of d) ''manifest''
            in rbind (or_dict manifest) (\<lambda>md.
               rbind (or_dict (jget md ''payload'')) (\<lambda>mp.
               let claimed = jget mp ''nodeId''
               in rbind (case expected_node of Some n \<Rightarrow> Inr (Some n) | None \<Rightarrow> trusted_entry m claimed) (\<lambda>entry.
                  case entry of
                    None \<Rightarrow> Inr None
                  | Some t \<Rightarrow>
                      if JStr (tn_node_id t) \<noteq> claimed then Inr None
                      else rbind (parse_signed_manifest P manifest (server_key_pin t) \<lfloor>time\<rfloor>) (\<lambda>r.
                        case r of
                          None \<Rightarrow> Inr None
                        | Some payload \<Rightarrow>
                            let p = dict_of payload
                            in if jget p ''networkRootId'' \<noteq> JStr (network_root_id c) \<or>
                                  \<not> eq_int (jget p ''networkRootVersion'') (network_root_version c) \<or>
                                  \<not> eq_int (jget p ''networkRootRollbackVersion'') (network_root_rollback_version c)
                               then Inr None
                               else rbind (le_int (jget p ''issuedAt'') \<lfloor>time\<rfloor>) (\<lambda>b1.
                                    if \<not> b1 then Inr None
                                    else rbind (int_le \<lfloor>time\<rfloor> (jget p ''expiresAt'')) (\<lambda>b2.
                                      Inr (if b2 then Some (tn_node_id t) else None))))))))"

definition claim_connection :: "pystr \<Rightarrow> nat \<Rightarrow> mesh \<Rightarrow> hub \<Rightarrow> bool \<times> mesh \<times> hub" where
  "claim_connection nid w m h =
     (case dget (connections m) nid of
        Some w' \<Rightarrow> if w' \<noteq> w then (False, m, count ''node_mesh_duplicate_connection_rejections'' h)
                   else (True, m\<lparr>connections := dset (connections m) nid w\<rparr>, h)
      | None \<Rightarrow> (True, m\<lparr>connections := dset (connections m) nid w\<rparr>, h))"

text \<open>The first frame of an accepted link: the peer's id, if it is let in.\<close>

datatype link_answer = LinkClose | LinkRaise exn | LinkUp pystr

definition accept_hello ::
  "trust_prims \<Rightarrow> config \<Rightarrow> real \<Rightarrow> nat \<Rightarrow> pystr \<Rightarrow> mesh \<Rightarrow> hub \<Rightarrow> link_answer \<times> mesh \<times> hub" where
  "accept_hello P c time w raw m h =
     (case utf8_len raw of
        None \<Rightarrow> (LinkRaise UnicodeEncodeError, m, h)
      | Some n \<Rightarrow>
        if int n > max_frame_bytes c then (LinkClose, m, h)
        else (case loads_strict (Text raw) (max_frame_bytes c) (max_json_depth c) (max_json_nodes c) (max_frame_bytes c) of
           Inl (StrictJsonError _) \<Rightarrow> (LinkClose, m, h)
         | Inl e \<Rightarrow> (LinkRaise e, m, h)
         | Inr first \<Rightarrow>
             (case authenticate_hello P c time m None first of
                Inl e \<Rightarrow> (LinkRaise e, m, h)
              | Inr None \<Rightarrow> (LinkClose, m, h)
              | Inr (Some nid) \<Rightarrow>
                  if nid \<ge> node_id c then (LinkClose, m, h)
                  else (case claim_connection nid w m h of
                          (ok, m1, h1) \<Rightarrow> (if ok then LinkUp nid else LinkClose, m1, h1)))))"

text \<open>
  One attempt of \<^verbatim>\<open>_connect_forever\<close>, once the peer has answered: the id of the peer if the link is
  up, and the delay before the next attempt. Every exception is counted and retried.
\<close>

definition dial_hello ::
  "trust_prims \<Rightarrow> config \<Rightarrow> real \<Rightarrow> nat \<Rightarrow> trusted_node \<Rightarrow> json_input \<Rightarrow> real \<Rightarrow> mesh \<Rightarrow> hub
     \<Rightarrow> pystr option \<times> real \<times> mesh \<times> hub" where
  "dial_hello P c time w t raw delay m h =
     (let failed = (\<lambda>m1 h1. (None, min 30 (delay * 2), m1, count ''node_mesh_connection_failures'' h1))
      in case loads_strict raw (max_frame_bytes c) (max_json_depth c) (max_json_nodes c) (max_frame_bytes c) of
           Inl _ \<Rightarrow> failed m h
         | Inr response \<Rightarrow>
             (case authenticate_hello P c time m (Some t) response of
                Inr (Some nid) \<Rightarrow>
                  (case claim_connection nid w m h of
                     (ok, m1, h1) \<Rightarrow> if ok then (Some nid, 1, m1, h1) else failed m1 h1)
              | _ \<Rightarrow> failed m h))"

text \<open>\<^verbatim>\<open>pending.get(id)\<close> and \<^verbatim>\<open>future.set_result\<close> unless it is done\<close>

definition settle :: "json \<Rightarrow> 'a \<Rightarrow> (pystr, 'a option) dict \<Rightarrow> (pystr, 'a option) dict result" where
  "settle request value pending =
     (case request of
        JStr s \<Rightarrow> Inr (if dget pending s = Some None then dset pending s (Some value) else pending)
      | JList _ \<Rightarrow> Inl TypeError
      | JDict _ \<Rightarrow> Inl TypeError
      | _ \<Rightarrow> Inr pending)"

type_synonym link_outcome = "mesh \<times> hub \<times> mesh_send list \<times> effect list \<times> exn option"

definition mesh_try :: "'a result \<Rightarrow> mesh \<Rightarrow> hub \<Rightarrow> ('a \<Rightarrow> link_outcome) \<Rightarrow> link_outcome" where
  "mesh_try r m h k = (case r of Inl e \<Rightarrow> (m, h, [], [], Some e) | Inr x \<Rightarrow> k x)"

definition handle_route_update ::
  "(bytes \<Rightarrow> bytes) \<Rightarrow> config \<Rightarrow> real \<Rightarrow> pystr \<Rightarrow> string \<Rightarrow> (pystr \<times> json) list \<Rightarrow> mesh \<Rightarrow> hub \<Rightarrow> link_outcome" where
  "handle_route_update sha c time nid t payload m h =
     (let tag = jget payload ''routeTag''; descriptor = jget payload ''descriptor''; d = dict_of descriptor
      in if \<not> valid_route_tag tag then (m, h, [], [], None)
         else mesh_try (owners_for sha c (jstr tag) m) m h (\<lambda>owners.
           if node_id c \<in> set owners \<and> valid_descriptor (t = ''ROUTE_REMOVE'') descriptor \<and>
              jget d ''nodeId'' = JStr nid \<and> (t = ''ROUTE_REMOVE'' \<or> descriptor_is_current c time d)
           then (case apply_route_message c time t (jstr tag) d m h of (m1, h1) \<Rightarrow> (m1, h1, [], [], None))
           else (m, h, [], [], None)))"

definition handle_route_query ::
  "config \<Rightarrow> real \<Rightarrow> nat \<Rightarrow> (pystr \<times> json) list \<Rightarrow> mesh \<Rightarrow> hub \<Rightarrow> link_outcome" where
  "handle_route_query c time w payload m h =
     (case jget payload ''queryId'' of
        JStr q \<Rightarrow>
          if valid_route_tag (jget payload ''routeTag'') \<and> length q \<le> 64 then
            let m1 = mesh_prune_routes time m;
                ds = take (nat (max_fanout c)) (dvalues (dget_default [] (route_registry m1) (jstr (jget payload ''routeTag''))))
            in (m1, h, [MeshSend w ''ROUTE_RESULT'' [(u ''queryId'', JStr q), (u ''descriptors'', JList (map JDict ds))]],
                [], None)
          else (m, h, [], [], None)
      | _ \<Rightarrow> (m, h, [], [], None))"

definition accepted_results :: "config \<Rightarrow> real \<Rightarrow> json \<Rightarrow> descriptor list" where
  "accepted_results c time v =
     (case v of
        JList ds \<Rightarrow> map dict_of (filter (\<lambda>d. valid_descriptor False d \<and> descriptor_is_current c time (dict_of d))
                                    (take (nat (max_fanout c)) ds))
      | _ \<Rightarrow> [])"

definition valid_forward :: "(pystr \<times> json) list \<Rightarrow> bool result" where
  "valid_forward payload =
     (case jget payload ''envelope'' of
        JDict e \<Rightarrow>
          (case validate_v2_message (JDict e) of
             Inl (ProtocolError _) \<Rightarrow> Inr False
           | Inl x \<Rightarrow> Inl x
           | Inr _ \<Rightarrow> Inr (jget e ''type'' = JStr (u ''SIGNAL'') \<and>
               jget (payload_of e) ''routeTag'' = jget payload ''routeTag'' \<and>
               jget (payload_of e) ''toSessionId'' = jget payload ''targetSessionId''))
      | _ \<Rightarrow> Inr False)"

definition handle_signal_forward ::
  "(real \<Rightarrow> pystr) \<Rightarrow> config \<Rightarrow> real \<Rightarrow> nat \<Rightarrow> (pystr \<times> json) list \<Rightarrow> mesh \<Rightarrow> hub \<Rightarrow> link_outcome" where
  "handle_signal_forward frepr c now w payload m h =
     (let ack = (\<lambda>delivered. [MeshSend w ''ACK'' [(u ''requestId'', jget payload ''requestId''),
                                                  (u ''delivered'', JBool delivered)]])
      in mesh_try (valid_forward payload) m h (\<lambda>ok.
           case (jget payload ''targetSessionId'', jget payload ''routeTag'') of
             (JStr target, JStr tag) \<Rightarrow>
               if ok \<and> target \<in> set (route_subscribers now tag None h) then
                 mesh_try (send_session frepr c target (jget payload ''envelope'') h) m h (\<lambda>(delivered, h1, effs).
                   (m, h1, ack delivered, effs, None))
               else (m, h, ack False, [], None)
           | _ \<Rightarrow> (m, h, ack False, [], None)))"

text \<open>The clock difference to the sender of a state message, \<open>None\<close> for infinity.\<close>

definition clock_skew :: "real \<Rightarrow> json \<Rightarrow> int option" where
  "clock_skew time sent_at = (case sent_at of JInt s \<Rightarrow> Some \<bar>\<lfloor>time\<rfloor> - s\<bar> | _ \<Rightarrow> None)"

definition member_strings :: "config \<Rightarrow> mesh \<Rightarrow> json \<Rightarrow> bool" where
  "member_strings c m v =
     (case v of
        JList xs \<Rightarrow> length xs \<le> 8 \<and> list_all (\<lambda>x. \<exists>n \<in> set (membership_universe c m). x = JStr n) xs
      | _ \<Rightarrow> False)"

definition str_list :: "json \<Rightarrow> pystr list" where
  "str_list v = (case v of JList xs \<Rightarrow> map jstr xs | _ \<Rightarrow> [])"

definition handle_node_state ::
  "config \<Rightarrow> real \<Rightarrow> real \<Rightarrow> pystr \<Rightarrow> (pystr \<times> json) list \<Rightarrow> mesh \<Rightarrow> hub \<Rightarrow> mesh \<times> hub" where
  "handle_node_state c time now nid payload m h =
     (let skew = clock_skew time (jget payload ''sentAt'');
          in_skew = (case skew of None \<Rightarrow> False | Some k \<Rightarrow> real_of_int k \<le> node_mesh_max_clock_skew_seconds c);
          h1 = (case skew of None \<Rightarrow> h | Some k \<Rightarrow> with_metrics (gauge ''node_mesh_clock_skew_seconds'' (real_of_int k)) h)
      in if jget payload ''nodeId'' = JStr nid \<and> eq_int (jget payload ''membershipEpoch'') (node_mesh_membership_epoch c) \<and>
            short_text 64 (jget payload ''incarnation'') \<and> member_strings c m (jget payload ''connectedNodeIds'') \<and> in_skew
         then reconcile_membership c now
                (m\<lparr>peer_views := dset (peer_views m) nid
                    (node_mesh_membership_epoch c,
                     List.insert nid (remdups (str_list (jget payload ''connectedNodeIds''))), now)\<rparr>)
                (count ''node_mesh_state_messages'' h1)
         else if \<not> in_skew then (m, count ''node_mesh_clock_skew_rejections'' h1)
         else (m, h1))"

definition handle_node_message ::
  "trust_prims \<Rightarrow> config \<Rightarrow> real \<Rightarrow> real \<Rightarrow> pystr \<Rightarrow> nat \<Rightarrow> (pystr \<times> json) list \<Rightarrow> mesh \<Rightarrow> hub \<Rightarrow> link_outcome" where
  "handle_node_message P c time now nid w d m h =
     (let t = jstr (jget d ''type''); payload = payload_of d
      in if jget d ''protocol'' \<noteq> JStr (protocol_version ''NODE'') \<or> \<not> is_dict (jget d ''payload'')
         then (m, h, [], [], None)
         else if t = u ''ROUTE_REGISTER'' then handle_route_update (tp_sha256 P) c time nid ''ROUTE_REGISTER'' payload m h
         else if t = u ''ROUTE_REMOVE'' then handle_route_update (tp_sha256 P) c time nid ''ROUTE_REMOVE'' payload m h
         else if t = u ''ROUTE_QUERY'' then handle_route_query c time w payload m h
         else if t = u ''ROUTE_RESULT'' then
           mesh_try (settle (jget payload ''queryId'') (accepted_results c time (jget payload ''descriptors'')) (pending_queries m))
             m h (\<lambda>pq. (m\<lparr>pending_queries := pq\<rparr>, h, [], [], None))
         else if t = u ''SIGNAL_FORWARD'' then handle_signal_forward (tp_float P) c now w payload m h
         else if t = u ''ACK'' then
           mesh_try (settle (jget payload ''requestId'') (jget payload ''delivered'' = JBool True) (pending_acks m))
             m h (\<lambda>pa. (m\<lparr>pending_acks := pa\<rparr>, h, [], [], None))
         else if t = u ''NODE_STATE'' then
           (case handle_node_state c time now nid payload m h of (m1, h1) \<Rightarrow> (m1, h1, [], [], None))
         else (m, h, [], [], None))"

text \<open>
  One frame of \<^verbatim>\<open>_connection_loop\<close>. \<open>LinkNext\<close> goes on, \<open>LinkEnd\<close> leaves the loop; a
  \<^verbatim>\<open>StrictJsonError\<close> ends the link, other exceptions propagate after the \<^verbatim>\<open>finally\<close> clause.
\<close>

datatype link_next = LinkNext | LinkEnd | LinkFault exn

record link =
  link_node :: pystr
  link_socket :: nat
  message_bucket :: token_bucket

definition new_link :: "pystr \<Rightarrow> nat \<Rightarrow> real \<Rightarrow> link" where
  "new_link nid w now = \<lparr>link_node = nid, link_socket = w, message_bucket = new_bucket 400 200 now\<rparr>"

definition node_dedupe_key :: "pystr \<Rightarrow> (pystr \<times> json) list \<Rightarrow> pystr" where
  "node_dedupe_key nid d = u ''node:'' @ nid @ [58] @ jstr (jget d ''id'')"

definition node_data ::
  "trust_prims \<Rightarrow> config \<Rightarrow> real \<Rightarrow> real \<Rightarrow> link \<Rightarrow> json \<Rightarrow> mesh \<Rightarrow> hub
     \<Rightarrow> mesh \<times> hub \<times> mesh_send list \<times> effect list \<times> link_next" where
  "node_data P c time now k data m h =
     (case valid_node_envelope data of
        Inl e \<Rightarrow> (m, h, [], [], LinkFault e)
      | Inr False \<Rightarrow> (m, count ''node_mesh_protocol_rejections'' h, [], [], LinkNext)
      | Inr True \<Rightarrow>
          (case check_and_mark_seen c now (node_dedupe_key (link_node k) (dict_of data)) (dedupe_window_seconds c) h of
             (fresh, h1) \<Rightarrow>
               if \<not> fresh then (m, count ''node_mesh_replay_rejections'' h1, [], [], LinkNext)
               else (case handle_node_message P c time now (link_node k) (link_socket k) (dict_of data) m h1 of
                       (m2, h2, out, effs, e) \<Rightarrow>
                         (m2, h2, out, effs, case e of None \<Rightarrow> LinkNext | Some x \<Rightarrow> LinkFault x))))"

definition node_frame ::
  "trust_prims \<Rightarrow> config \<Rightarrow> real \<Rightarrow> real \<Rightarrow> link \<Rightarrow> pystr \<Rightarrow> mesh \<Rightarrow> hub
     \<Rightarrow> link \<times> mesh \<times> hub \<times> mesh_send list \<times> effect list \<times> link_next" where
  "node_frame P c time now k raw m h =
     (case utf8_len raw of
        None \<Rightarrow> (k, m, h, [], [], LinkFault UnicodeEncodeError)
      | Some n \<Rightarrow>
        if int n > max_frame_bytes c then
          (k, m, count ''node_mesh_rate_or_size_rejections'' h, [], [], LinkEnd)
        else (case try_consume now 1 (message_bucket k) of (ok, b) \<Rightarrow>
          let k1 = k\<lparr>message_bucket := b\<rparr>
          in if \<not> ok then (k1, m, count ''node_mesh_rate_or_size_rejections'' h, [], [], LinkEnd)
             else (case loads_strict (Text raw) (max_frame_bytes c) (max_json_depth c) (max_json_nodes c) (max_frame_bytes c) of
                Inl (StrictJsonError _) \<Rightarrow> (k1, m, h, [], [], LinkEnd)
              | Inl e \<Rightarrow> (k1, m, h, [], [], LinkFault e)
              | Inr data \<Rightarrow> (k1, node_data P c time now k1 data m h))))"

text \<open>The \<^verbatim>\<open>finally\<close> clause; the result tells whether \<^verbatim>\<open>_topology_changed\<close> follows.\<close>

definition link_down :: "real \<Rightarrow> link \<Rightarrow> mesh \<Rightarrow> hub \<Rightarrow> bool \<times> mesh \<times> hub" where
  "link_down now k m h =
     (let removed = (dget (connections m) (link_node k) = Some (link_socket k));
          m1 = (if removed then m\<lparr>connections := dpop (connections m) (link_node k),
                    suspected_since := dset (suspected_since m) (link_node k)
                      (dget_default now (suspected_since m) (link_node k))\<rparr> else m)
      in (removed, m1, with_metrics (gauge ''node_mesh_connected_peers'' (real (length (connections m1)))) h))"

end
