(* ===== verification/Mesh_Placement.thy ===== *)
theory Mesh_Placement
  imports Node_Links
begin

text \<open>
  Placement and membership. The owners of a route are its highest-ranked members; nodes with the
  same membership agree on them, and a departure moves only what the departed node owned. Two
  nodes that both see a quorum have heard from a common node.
\<close>

section \<open>Rendezvous hashing\<close>

definition ranked :: "(pystr \<Rightarrow> bytes) \<Rightarrow> pystr list \<Rightarrow> pystr list" where
  "ranked f ns = rev (sort_key f (rev (sort ns)))"

lemma ranked_filter: "ranked f (filter Q ns) = filter Q (ranked f ns)"
proof -
  have "sort (filter Q ns) = filter Q (sort ns)" using filter_sort [of Q "\<lambda>x. x" ns] by simp
  then show ?thesis by (simp add: ranked_def filter_sort rev_filter [symmetric])
qed

lemma ranked_simps [simp]: "set (ranked f ns) = set ns" "length (ranked f ns) = length ns"
  "distinct (ranked f ns) = distinct ns"
  by (simp_all add: ranked_def)

lemma ranked_sorted: "sorted (rev (map f (ranked f ns)))"
  by (simp add: ranked_def rev_map [symmetric])

definition owner_count :: "config \<Rightarrow> mesh \<Rightarrow> nat" where
  "owner_count c m = nat (min (max 1 (node_mesh_replica_count c)) (int (length (membership_nodes m))))"

lemma owners_for_eq:
  "owners_for sha c tag m =
     (if \<exists>n \<in> set (membership_nodes m). rank_key sha tag n = None then Inl UnicodeEncodeError
      else Inr (take (owner_count c m) (ranked (the \<circ> rank_key sha tag) (membership_nodes m))))"
  by (simp add: owners_for_def owner_count_def ranked_def Let_def)

lemma owners_for_Inr:
  assumes "owners_for sha c tag m = Inr os"
  shows "\<forall>n \<in> set (membership_nodes m). rank_key sha tag n \<noteq> None"
    "os = take (owner_count c m) (ranked (the \<circ> rank_key sha tag) (membership_nodes m))"
  using assms by (auto simp: owners_for_eq split: if_splits)

lemma take_filter_superset: "set (filter Q (take k xs)) \<subseteq> set (take k (filter Q xs))"
proof (induction xs arbitrary: k)
  case (Cons x xs)
  show ?case
  proof (cases k)
    case (Suc j)
    have "set (take j (filter Q xs)) \<subseteq> set (take (Suc j) (filter Q xs))" by (rule set_take_subset_set_take) simp
    then show ?thesis using Cons [of j] Suc by auto
  qed simp
qed simp

lemma top_ranked:
  assumes "o' \<in> set (take k (ranked f ns))" "n \<in> set ns - set (take k (ranked f ns))"
  shows "f n \<le> f o'"
proof -
  let ?r = "ranked f ns"
  have "n \<in> set (drop k ?r)"
    using assms(2) ranked_simps(1) [of f ns] by (metis DiffE UnE append_take_drop_id set_append)
  moreover have "sorted (rev (map f (take k ?r @ drop k ?r)))" using ranked_sorted by simp
  ultimately show ?thesis using assms(1) by (auto simp: sorted_append simp del: append_take_drop_id)
qed

text \<open>C23: The owners of a route are distinct members, as many as the replica count asks for (at
  least one, at most all), and no other member ranks above one of them.\<close>

theorem owners_are_top:
  assumes "owners_for sha c tag m = Inr os" "distinct (membership_nodes m)"
  shows "distinct os \<and> set os \<subseteq> set (membership_nodes m) \<and>
    int (length os) = min (max 1 (node_mesh_replica_count c)) (int (length (membership_nodes m))) \<and>
    (\<forall>p \<in> set os. \<forall>n \<in> set (membership_nodes m) - set os. the (rank_key sha tag n) \<le> the (rank_key sha tag p))"
proof (intro conjI)
  note os = owners_for_Inr(2) [OF assms(1)]
  show "distinct os" using assms(2) os by simp
  show "set os \<subseteq> set (membership_nodes m)" using os by (metis ranked_simps(1) set_take_subset)
  show "int (length os) = min (max 1 (node_mesh_replica_count c)) (int (length (membership_nodes m)))"
    unfolding os owner_count_def by simp
  show "\<forall>p \<in> set os. \<forall>n \<in> set (membership_nodes m) - set os. the (rank_key sha tag n) \<le> the (rank_key sha tag p)"
    unfolding os using top_ranked [where f = "the \<circ> rank_key sha tag"] by fastforce
qed

definition ex_members :: "mesh" where
  "ex_members = (new_mesh default_config [])\<lparr>membership_nodes := [u ''b'', u ''a'', u ''c'']\<rparr>"

lemma ex_owners: "owners_for (\<lambda>b. b) default_config (u ''t'') ex_members = Inr [u ''c'', u ''b'']"
proof -
  have k: "rank_key (\<lambda>b. b) (u ''t'') (u [ch]) = Some [116, 0, word_of_nat (of_char ch)]" if "of_char ch < (128::nat)" for ch
    using that by (simp add: rank_key_def utf8_encode_def utf8_cp_def is_surrogate_def u_def)
  have "sort [u ''b'', u ''a'', u ''c''] = [u ''a'', u ''b'', u ''c'']" by (simp add: u_def)
  then show ?thesis
    by (simp add: owners_for_eq ranked_def owner_count_def ex_members_def k) (simp add: default_config_def)
qed

theorem owners_are_top_witness: "the (rank_key (\<lambda>b. b) (u ''t'') (u ''a'')) \<le> the (rank_key (\<lambda>b. b) (u ''t'') (u ''b''))"
  using owners_are_top [OF ex_owners] by (simp add: ex_members_def)

text \<open>Placement needs no coordination: two nodes with the same members, in whatever order they
  learnt of them, compute the same owners.\<close>

theorem owners_agree:
  assumes "set (membership_nodes m) = set (membership_nodes m')"
    and "distinct (membership_nodes m)" "distinct (membership_nodes m')"
  shows "owners_for sha c tag m = owners_for sha c tag m'"
proof -
  have "sort (membership_nodes m) = sort (membership_nodes m')"
    using assms by (intro sorted_distinct_set_unique) simp_all
  moreover have "length (membership_nodes m) = length (membership_nodes m')"
    using assms by (metis distinct_card)
  ultimately show ?thesis by (simp add: owners_for_def)
qed

theorem owners_agree_witness:
  "owners_for (\<lambda>b. b) default_config (u ''t'') (ex_members\<lparr>membership_nodes := [u ''a'', u ''c'', u ''b'']\<rparr>) =
     Inr [u ''c'', u ''b'']"
  using owners_agree [of ex_members "ex_members\<lparr>membership_nodes := [u ''a'', u ''c'', u ''b'']\<rparr>"
      "\<lambda>b. b" default_config "u ''t''"] ex_owners
  by (simp add: ex_members_def insert_commute)

lemma owner_count_remove:
  assumes "distinct (membership_nodes m)" "membership_nodes m' = removeAll x (membership_nodes m)"
  shows "owner_count c m' \<le> owner_count c m"
    "x \<notin> set (take (owner_count c m) (ranked f (membership_nodes m))) \<Longrightarrow> owner_count c m' = owner_count c m"
proof -
  let ?M = "membership_nodes m" and ?k = "owner_count c m"
  have len: "length (removeAll x ?M) = (if x \<in> set ?M then length ?M - 1 else length ?M)"
    using assms(1) by (simp add: distinct_remove1_removeAll [symmetric] length_remove1)
  then show "owner_count c m' \<le> ?k" by (auto simp: owner_count_def assms(2))
  assume x: "x \<notin> set (take ?k (ranked f ?M))"
  show "owner_count c m' = ?k"
  proof (cases "x \<in> set ?M")
    case True
    then have "?k < length ?M" using x by (metis linorder_not_le ranked_simps(1,2) take_all)
    then show ?thesis using True by (auto simp: owner_count_def assms(2) len)
  qed (simp add: owner_count_def assms(2))
qed

text \<open>Dropping one element from a ranking: nothing changes if it was not at the top, and otherwise the
  others at the top stay there and at most one moves up.\<close>

lemma take_without_same:
  assumes "x \<notin> set (take k r)" "k \<le> length r"
  shows "take k (filter (\<lambda>n. n \<noteq> x) r) = take k r"
proof -
  have "filter (\<lambda>n. n \<noteq> x) (take k r) = take k r" using assms(1) by (auto simp: filter_id_conv)
  moreover have "take k (filter (\<lambda>n. n \<noteq> x) (take k r @ drop k r)) =
      take k (filter (\<lambda>n. n \<noteq> x) (take k r) @ filter (\<lambda>n. n \<noteq> x) (drop k r))" by (simp only: filter_append)
  ultimately show ?thesis using assms(2) by simp
qed

lemma take_without_keeps:
  assumes "k' = k \<or> length (filter (\<lambda>n. n \<noteq> x) r) \<le> k'"
  shows "set (take k r) - {x} \<subseteq> set (take k' (filter (\<lambda>n. n \<noteq> x) r))"
  using assms take_filter_superset [of "\<lambda>n. n \<noteq> x" k r] by (auto dest: in_set_takeD)

lemma one_newcomer:
  assumes "set xs - {x} \<subseteq> set ys" "x \<in> set xs" "x \<notin> set ys" "length ys \<le> card (set xs)"
  shows "card (set ys - set xs) \<le> 1"
proof -
  have "set ys - set xs = set ys - (set xs - {x})" using assms(3) by auto
  then have "card (set ys - set xs) = card (set ys) - card (set xs - {x})" using assms(1) by (simp add: card_Diff_subset)
  then show ?thesis using card_length [of ys] assms(2,4) by simp
qed

text \<open>C24: Minimal disruption: when a member leaves, every other owner of a route stays an owner, the
  owners of a route the leaver did not own stay the same, and no route gains more than one owner.\<close>

theorem departure_moves_little:
  assumes "owners_for sha c tag m = Inr os" "distinct (membership_nodes m)"
    and "membership_nodes m' = removeAll x (membership_nodes m)"
  shows "\<exists>os'. owners_for sha c tag m' = Inr os' \<and> set os - {x} \<subseteq> set os' \<and>
    (x \<notin> set os \<longrightarrow> os' = os) \<and> card (set os' - set os) \<le> 1"
proof -
  let ?r = "ranked (the \<circ> rank_key sha tag) (membership_nodes m)" and ?k = "owner_count c m" and ?k' = "owner_count c m'"
  let ?os' = "take ?k' (filter (\<lambda>n. n \<noteq> x) ?r)"
  note os = owners_for_Inr [OF assms(1)]
  have m': "membership_nodes m' = filter (\<lambda>n. n \<noteq> x) (membership_nodes m)"
    using assms(3) by (simp add: removeAll_filter_neq)
  have os': "owners_for sha c tag m' = Inr ?os'"
    using os(1) by (auto simp: owners_for_eq m' ranked_filter)
  have same: "?os' = os" if "x \<notin> set os"
    using that owner_count_remove(2) [OF assms(2,3)] os(2) take_without_same [of x ?k ?r]
    by (metis min.cobounded2 nat_int nat_mono owner_count_def ranked_simps(2))
  have "?k' = ?k \<or> length (filter (\<lambda>n. n \<noteq> x) ?r) \<le> ?k'"
  proof -
    have "nat (min b (int l')) = nat (min b (int l)) \<or> l' \<le> nat (min b (int l'))"
      if "nat (min b (int l')) \<le> nat (min b (int l))" for b l l' using that by (auto simp: min_def split: if_splits)
    from this [OF owner_count_remove(1) [OF assms(2,3), of c, unfolded owner_count_def]]
    show ?thesis by (simp add: owner_count_def m' flip: ranked_filter)
  qed
  then have sub: "set os - {x} \<subseteq> set ?os'" unfolding os(2) by (rule take_without_keeps)
  have "card (set os) = ?k" using assms(2) os(2) by (simp add: distinct_card) (simp add: owner_count_def)
  moreover have "x \<notin> set ?os'" by (auto dest: in_set_takeD)
  ultimately have "card (set ?os' - set os) \<le> 1" if "x \<in> set os"
    using one_newcomer [OF sub that] owner_count_remove(1) [OF assms(2,3), of c] by simp
  then show ?thesis using os' sub same by (cases "x \<in> set os") auto
qed

theorem departure_moves_little_witness:
  "\<exists>os'. owners_for (\<lambda>b. b) default_config (u ''t'') (ex_members\<lparr>membership_nodes := [u ''b'', u ''a'']\<rparr>) = Inr os' \<and>
     u ''b'' \<in> set os'"
  using departure_moves_little [OF ex_owners, of "ex_members\<lparr>membership_nodes := [u ''b'', u ''a'']\<rparr>" "u ''c''"]
  by (simp add: ex_members_def) blast

end
