(* ===== verification/Mesh_Membership.thy ===== *)
theory Mesh_Membership
  imports Mesh_Placement
begin

text \<open>
  Membership by majority. Any two quorums share a node (locale \<open>majority\<close>); without a quorum the
  membership is frozen, and with one it changes exactly by the votes and the suspicion time.
\<close>

section \<open>Majorities\<close>

locale majority =
  fixes universe :: "'n set" and quorum :: "'n set \<Rightarrow> bool"
  assumes finite_universe: "finite universe"
    and quorum_inside: "quorum S \<Longrightarrow> S \<subseteq> universe"
    and quorum_large: "quorum S \<Longrightarrow> card universe < 2 * card S"
begin

lemma quorums_meet:
  assumes "quorum S" "quorum T"
  shows "S \<inter> T \<noteq> {}"
proof
  assume empty: "S \<inter> T = {}"
  have fin: "finite S" "finite T" "S \<union> T \<subseteq> universe"
    using assms quorum_inside finite_universe finite_subset by blast+
  then have "card S + card T \<le> card universe"
    using card_mono [OF finite_universe fin(3)] empty by (simp add: card_Un_disjoint)
  moreover have "card universe < 2 * card S" "card universe < 2 * card T" using assms quorum_large by blast+
  ultimately show False by simp
qed

lemma quorum_nonempty: "quorum S \<Longrightarrow> S \<noteq> {}"
  using quorums_meet by blast

end

definition reporter_quorum :: "config \<Rightarrow> mesh \<Rightarrow> pystr set \<Rightarrow> bool" where
  "reporter_quorum c m S \<longleftrightarrow> S \<subseteq> set (membership_universe c m) \<and> quorum_size c m \<le> card S"

interpretation mq: majority "set (membership_universe c m)" "reporter_quorum c m" for c m
proof
  fix S
  assume "reporter_quorum c m S"
  moreover have "card (set (membership_universe c m)) \<le> length (membership_universe c m)" by (rule card_length)
  ultimately show "card (set (membership_universe c m)) < 2 * card S"
    unfolding reporter_quorum_def quorum_size_def by linarith
qed (auto simp: reporter_quorum_def)

section \<open>Reporters\<close>

lemma fold_dset_keys:
  "set (dkeys (fold (\<lambda>(k, x) acc. dset acc k (f k x)) xs d)) = set (dkeys xs) \<union> set (dkeys d)"
  "wf_dict d \<Longrightarrow> wf_dict (fold (\<lambda>(k, x) acc. dset acc k (f k x)) xs d)"
  by (induction xs arbitrary: d) (simp_all add: case_prod_unfold dkeys_dset [simplified] wf_dset)

lemma reporters_alt:
  "reporters c now m = fold (\<lambda>(k, x) acc. dset acc k (filter (\<lambda>n. n \<in> set (membership_universe c m)) (fst (snd x))))
     (fresh_views c now m) [(node_id c, local_view c m)]"
  unfolding reporters_def by (rule fold_cong) (auto simp: fun_eq_iff)

lemma reporters_keys:
  "set (dkeys (reporters c now m)) = insert (node_id c) (set (dkeys (fresh_views c now m)))"
  "wf_dict (reporters c now m)"
  unfolding reporters_alt
  using fold_dset_keys [where f = "\<lambda>k x. filter (\<lambda>n. n \<in> set (membership_universe c m)) (fst (snd x))" and
      xs = "fresh_views c now m" and d = "[(node_id c, local_view c m)]"]
  by simp_all

lemma fresh_views_sub: "set (dkeys (fresh_views c now m)) \<subseteq> set (dkeys (peer_views m))"
  by (auto simp: fresh_views_def)

lemma card_reporters: "card (set (dkeys (reporters c now m))) = length (reporters c now m)"
  using reporters_keys(2) distinct_card by fastforce

lemma reconcile_quorum: "mesh_quorum (fst (reconcile_membership c now m h)) = (quorum_size c m \<le> length (reporters c now m))"
  by (simp add: reconcile_membership_def Let_def case_prod_unfold)

lemma reporters_quorum:
  assumes "set (dkeys (peer_views m)) \<subseteq> set (dkeys (trusted m))" "mesh_quorum (fst (reconcile_membership c now m h))"
  shows "reporter_quorum c m (set (dkeys (reporters c now m)))"
proof -
  have "quorum_size c m \<le> length (reporters c now m)"
    using assms(2) by (simp add: reconcile_quorum)
  moreover have "set (dkeys (reporters c now m)) \<subseteq> set (membership_universe c m)"
    using subset_trans [OF fresh_views_sub assms(1)] unfolding reporters_keys membership_universe_def by auto
  ultimately show ?thesis using card_reporters [of c now m] by (simp add: reporter_quorum_def)
qed

text \<open>C21: No split brain: if two nodes of the same trusted set both find a quorum, some node is
  among the reporters of both, so two disjoint halves of the mesh never both change membership.\<close>

theorem quorums_overlap:
  assumes "set (dkeys (peer_views m1)) \<subseteq> set (dkeys (trusted m1))"
    and "set (dkeys (peer_views m2)) \<subseteq> set (dkeys (trusted m2))"
    and "wf_dict (trusted m1)" "wf_dict (trusted m2)"
    and "set (membership_universe c1 m1) = set (membership_universe c2 m2)"
    and "mesh_quorum (fst (reconcile_membership c1 now1 m1 h1))" "mesh_quorum (fst (reconcile_membership c2 now2 m2 h2))"
  shows "\<exists>n. n \<in> set (dkeys (reporters c1 now1 m1)) \<and> n \<in> set (dkeys (reporters c2 now2 m2))"
proof -
  have "distinct (membership_universe c1 m1)" "distinct (membership_universe c2 m2)"
    using assms(3,4) by (simp_all add: membership_universe_def)
  then have "length (membership_universe c1 m1) = length (membership_universe c2 m2)"
    using assms(5) by (metis distinct_card)
  then have "reporter_quorum c1 m1 (set (dkeys (reporters c2 now2 m2)))"
    using reporters_quorum [OF assms(2,7)] assms(5) by (simp add: reporter_quorum_def quorum_size_def)
  from mq.quorums_meet [OF reporters_quorum [OF assms(1,6)] this] show ?thesis by blast
qed

section \<open>Verdicts\<close>

lemma fold_judge:
  "distinct cs \<Longrightarrow> fold (judge c now q rs) cs (M, S) = (M', S') \<Longrightarrow>
     set M' = (set M - set cs) \<union> {n \<in> set cs. q \<le> alive_votes rs n \<or>
        n \<in> set M \<and> now - dget_default now S n < node_mesh_suspicion_seconds c} \<and>
     (distinct M \<longrightarrow> distinct M')"
proof (induction cs arbitrary: M S)
  case (Cons a cs)
  obtain M1 S1 where J: "judge c now q rs a (M, S) = (M1, S1)" by (cases "judge c now q rs a (M, S)")
  have S1: "dget_default now S1 n = dget_default now S n" if "n \<noteq> a" for n
    using J that by (auto simp: judge_def Let_def dget_default_def dict_simps split: if_splits)
  have M1: "n \<in> set M1 \<longleftrightarrow> n \<in> set M" if "n \<noteq> a" for n
    using J that by (auto simp: judge_def Let_def split: if_splits)
  have A: "a \<in> set M1 \<longleftrightarrow> q \<le> alive_votes rs a \<or>
      a \<in> set M \<and> now - dget_default now S a < node_mesh_suspicion_seconds c"
    using J by (auto simp: judge_def Let_def split: if_splits)
  have D: "distinct M \<Longrightarrow> distinct M1"
    using J by (auto simp: judge_def Let_def distinct_removeAll split: if_splits)
  have IH: "set M' = (set M1 - set cs) \<union> {n \<in> set cs. q \<le> alive_votes rs n \<or>
      n \<in> set M1 \<and> now - dget_default now S1 n < node_mesh_suspicion_seconds c} \<and> (distinct M1 \<longrightarrow> distinct M')"
    by (rule Cons.IH) (use Cons.prems J in simp_all)
  have a: "a \<notin> set cs" using Cons.prems(1) by simp
  show ?case
  proof (intro conjI set_eqI)
    fix n
    show "n \<in> set M' \<longleftrightarrow> n \<in> (set M - set (a # cs)) \<union> {n \<in> set (a # cs). q \<le> alive_votes rs n \<or>
        n \<in> set M \<and> now - dget_default now S n < node_mesh_suspicion_seconds c}"
      by (cases "n = a") (simp_all add: IH A a S1 M1)
  qed (use IH D in blast)
qed simp

definition survives :: "config \<Rightarrow> real \<Rightarrow> mesh \<Rightarrow> pystr \<Rightarrow> bool" where
  "survives c now m n \<longleftrightarrow> n = node_id c \<or> quorum_size c m \<le> alive_votes (reporters c now m) n \<or>
     n \<in> set (membership_nodes m) \<and> now - dget_default now (suspected_since m) n < node_mesh_suspicion_seconds c"

lemma reconcile_members:
  assumes "wf_dict (trusted m)" "set (membership_nodes m) \<subseteq> set (membership_universe c m)"
    "distinct (membership_nodes m)"
  shows "set (membership_nodes (fst (reconcile_membership c now m h))) =
      (if quorum_size c m \<le> length (reporters c now m) then {n \<in> set (membership_universe c m). survives c now m n}
       else set (membership_nodes m))"
    "distinct (membership_nodes (fst (reconcile_membership c now m h)))"
proof -
  let ?cs = "filter (\<lambda>n. n \<noteq> node_id c) (membership_universe c m)"
  obtain M S where f: "fold (judge c now (quorum_size c m) (reporters c now m)) ?cs
      (List.insert (node_id c) (membership_nodes m), suspected_since m) = (M, S)" by fastforce
  have "distinct ?cs" using assms(1) by (simp add: membership_universe_def)
  note j = fold_judge [OF this f]
  have "node_id c \<in> set (membership_universe c m)" by (simp add: membership_universe_def)
  then have M: "set M = {n \<in> set (membership_universe c m). survives c now m n}"
    using j assms(2) unfolding survives_def by auto
  have "distinct M" using j assms(3) by simp
  then show "distinct (membership_nodes (fst (reconcile_membership c now m h)))"
    using assms(3) by (simp add: reconcile_membership_def Let_def f)
  show "set (membership_nodes (fst (reconcile_membership c now m h))) =
      (if quorum_size c m \<le> length (reporters c now m) then {n \<in> set (membership_universe c m). survives c now m n}
       else set (membership_nodes m))"
    using M by (simp add: reconcile_membership_def Let_def f)
qed

text \<open>C22: The membership after a reconciliation: unchanged without a quorum of reporters; with one,
  a node is a member exactly if it is this node, a majority of the trusted set sees it, or it was a
  member and has been without a majority for less than the suspicion time.\<close>

theorem membership_exact:
  assumes "wf_dict (trusted m)" "set (membership_nodes m) \<subseteq> set (membership_universe c m)"
    and "distinct (membership_nodes m)" "reconcile_membership c now m h = (m', h')"
  shows "mesh_quorum m' = (quorum_size c m \<le> length (reporters c now m)) \<and>
    set (membership_nodes m') = (if mesh_quorum m'
      then {n \<in> set (membership_universe c m). n = node_id c \<or> quorum_size c m \<le> alive_votes (reporters c now m) n \<or>
         n \<in> set (membership_nodes m) \<and> now - dget_default now (suspected_since m) n < node_mesh_suspicion_seconds c}
      else set (membership_nodes m))"
proof -
  have q: "mesh_quorum m' = (quorum_size c m \<le> length (reporters c now m))"
    using reconcile_quorum [of c now m h] assms(4) by simp
  then show ?thesis using reconcile_members(1) [OF assms(1-3), of now h] assms(4) by (simp add: survives_def)
qed

definition ex_trusted :: "(pystr, trusted_node) dict" where
  "ex_trusted = map (\<lambda>n. (u n, \<lparr>tn_node_id = u n, tn_url = u ''wss://'' @ u n, server_key_pin = replicate 64 48\<rparr>)) [''x'', ''y'']"

text \<open>A node linked to one of its two peers, which reports both links: the third is suspected.\<close>

definition ex_mesh :: mesh where
  "ex_mesh = (new_mesh default_config ex_trusted)
     \<lparr>connections := [(u ''x'', 1)], peer_views := [(u ''x'', 1, [node_id default_config, u ''x''], 100)],
      suspected_since := [(u ''y'', 50)]\<rparr>"

lemma ex_mesh_eval:
  "node_id default_config \<notin> u ` {''x'', ''y''}" "wf_dict (trusted ex_mesh)"
  "membership_universe default_config ex_mesh = [node_id default_config, u ''x'', u ''y'']"
  "membership_nodes ex_mesh = [node_id default_config, u ''x'', u ''y'']"
  "reporters default_config 101 ex_mesh = [(node_id default_config, [node_id default_config, u ''x'']),
     (u ''x'', [node_id default_config, u ''x''])]"
  by (auto simp: ex_mesh_def ex_trusted_def membership_universe_def new_mesh_def reporters_def fresh_views_def local_view_def
      default_config_def)

theorem membership_exact_witness:
  "set (membership_nodes (fst (reconcile_membership default_config 101 ex_mesh (new_hub default_config 0)))) =
     {node_id default_config, u ''x''}"
proof -
  obtain m' h' where r: "reconcile_membership default_config 101 ex_mesh (new_hub default_config 0) = (m', h')" by fastforce
  have s: "suspected_since ex_mesh = [(u ''y'', 50)]" "node_mesh_suspicion_seconds default_config = 10"
    by (simp_all add: ex_mesh_def default_config_def)
  have ne: "node_id default_config \<noteq> u ''x''" "node_id default_config \<noteq> u ''y''" using ex_mesh_eval(1) by auto
  show ?thesis
    using membership_exact [OF ex_mesh_eval(2) _ _ r] ne s
    by (auto simp: r ex_mesh_eval(3-5) quorum_size_def alive_votes_def dget_default_def)
qed

theorem quorums_overlap_witness:
  "\<exists>n. n \<in> set (dkeys (reporters default_config 101 ex_mesh)) \<and> n \<in> {node_id default_config, u ''x''}"
proof -
  have p: "set (dkeys (peer_views ex_mesh)) \<subseteq> set (dkeys (trusted ex_mesh))"
    by (simp add: ex_mesh_def ex_trusted_def new_mesh_def)
  have q: "mesh_quorum (fst (reconcile_membership default_config 101 ex_mesh (new_hub default_config 0)))"
    by (simp add: reconcile_membership_def Let_def case_prod_unfold quorum_size_def ex_mesh_eval(3,5))
  show ?thesis
    using quorums_overlap [OF p p ex_mesh_eval(2,2) refl q q] by (auto simp: ex_mesh_eval(5))
qed

end
