(* ===== verification/Mesh_Invariant.thy ===== *)
theory Mesh_Invariant
  imports Mesh_Membership
begin

text \<open>
  The invariant of a node's mesh state and that every operation keeps it: the descriptor counter
  is the number of stored descriptors and within its limit, every descriptor is stored under the
  node and session it names, the caches and the pending operations are bounded, and links, views
  and members belong to the trusted set.
\<close>

section \<open>The invariant\<close>

definition desc_for :: "pystr \<times> pystr \<Rightarrow> descriptor \<Rightarrow> bool" where
  "desc_for key d \<longleftrightarrow> jget d ''nodeId'' = JStr (fst key) \<and> jget d ''sessionId'' = JStr (snd key) \<and> is_int (jget d ''expiresAt'')"

definition route_ok :: "(pystr \<times> pystr, descriptor) dict \<Rightarrow> bool" where
  "route_ok r \<longleftrightarrow> r \<noteq> [] \<and> wf_dict r \<and> (\<forall>key d. dget r key = Some d \<longrightarrow> desc_for key d)"

definition registry_inv :: "config \<Rightarrow> mesh \<Rightarrow> bool" where
  "registry_inv c m \<longleftrightarrow> wf_dict (route_registry m) \<and> (\<forall>tag r. dget (route_registry m) tag = Some r \<longrightarrow> route_ok r) \<and>
     route_descriptor_count m = dict_sum (int \<circ> length) (route_registry m) \<and>
     route_descriptor_count m \<le> node_mesh_max_route_descriptors c"

definition cache_inv :: "config \<Rightarrow> mesh \<Rightarrow> bool" where
  "cache_inv c m \<longleftrightarrow> wf_dict (descriptor_cache m) \<and>
     int (length (descriptor_cache m)) \<le> node_mesh_max_route_descriptors c \<and>
     (\<forall>sid d. dget (descriptor_cache m) sid = Some d \<longrightarrow> jget d ''sessionId'' = JStr sid \<and> is_int (jget d ''expiresAt''))"

definition members_inv :: "config \<Rightarrow> mesh \<Rightarrow> bool" where
  "members_inv c m \<longleftrightarrow> wf_dict (trusted m) \<and> node_id c \<notin> set (dkeys (trusted m)) \<and>
     (\<forall>n t. dget (trusted m) n = Some t \<longrightarrow> tn_node_id t = n) \<and>
     distinct (membership_nodes m) \<and> node_id c \<in> set (membership_nodes m) \<and>
     set (membership_nodes m) \<subseteq> set (membership_universe c m) \<and>
     set (dkeys (peer_views m)) \<subseteq> set (dkeys (trusted m)) \<and> set (dkeys (connections m)) \<subseteq> set (dkeys (trusted m))"

definition pending_inv :: "config \<Rightarrow> mesh \<Rightarrow> bool" where
  "pending_inv c m \<longleftrightarrow> pending_operation_count m \<le> node_mesh_max_pending_operations c"

definition mesh_inv :: "config \<Rightarrow> mesh \<Rightarrow> bool" where
  "mesh_inv c m \<longleftrightarrow> registry_inv c m \<and> cache_inv c m \<and> members_inv c m \<and> pending_inv c m"

text \<open>Each part depends on a few fields only.\<close>

lemma registry_inv_cong:
  "route_registry m' = route_registry m \<Longrightarrow> route_descriptor_count m' = route_descriptor_count m \<Longrightarrow>
     registry_inv c m' = registry_inv c m"
  by (simp add: registry_inv_def)

lemma cache_inv_cong: "descriptor_cache m' = descriptor_cache m \<Longrightarrow> cache_inv c m' = cache_inv c m"
  by (simp add: cache_inv_def)

lemma members_inv_cong:
  "trusted m' = trusted m \<Longrightarrow> membership_nodes m' = membership_nodes m \<Longrightarrow> peer_views m' = peer_views m \<Longrightarrow>
     connections m' = connections m \<Longrightarrow> members_inv c m' = members_inv c m"
  by (simp add: members_inv_def membership_universe_def)

lemma pending_inv_cong:
  "pending_queries m' = pending_queries m \<Longrightarrow> pending_acks m' = pending_acks m \<Longrightarrow> pending_inv c m' = pending_inv c m"
  by (simp add: pending_inv_def pending_operation_count_def)

lemmas mesh_inv_congs = registry_inv_cong cache_inv_cong members_inv_cong pending_inv_cong

lemma mesh_invI:
  "registry_inv c m \<Longrightarrow> cache_inv c m \<Longrightarrow> members_inv c m \<Longrightarrow> pending_inv c m \<Longrightarrow> mesh_inv c m"
  by (simp add: mesh_inv_def)

lemma mesh_invD:
  "mesh_inv c m \<Longrightarrow> registry_inv c m" "mesh_inv c m \<Longrightarrow> cache_inv c m" "mesh_inv c m \<Longrightarrow> members_inv c m"
  "mesh_inv c m \<Longrightarrow> pending_inv c m"
  by (simp_all add: mesh_inv_def)

lemma mesh_inv_registry:
  assumes "mesh_inv c m" "registry_inv c m'" "descriptor_cache m' = descriptor_cache m" "trusted m' = trusted m"
    "membership_nodes m' = membership_nodes m" "peer_views m' = peer_views m" "connections m' = connections m"
    "pending_queries m' = pending_queries m" "pending_acks m' = pending_acks m"
  shows "mesh_inv c m'"
  using assms cache_inv_cong [of m' m c] members_inv_cong [of m' m c] pending_inv_cong [of m' m c]
  by (simp add: mesh_inv_def)

section \<open>The registry\<close>

lemma route_ok_dset: "route_ok r \<or> r = [] \<Longrightarrow> desc_for key d \<Longrightarrow> route_ok (dset r key d)"
  by (auto simp: route_ok_def wf_dset dget_dset)

lemma route_ok_dpop: "route_ok r \<Longrightarrow> dpop r key \<noteq> [] \<Longrightarrow> route_ok (dpop r key)"
  by (auto simp: route_ok_def wf_dpop dget_dpop split: if_splits)

lemma length_dpop: "wf_dict r \<Longrightarrow> int (length (dpop r key)) = int (length r) - of_bool (key \<in> set (dkeys r))"
  by (induction r) (auto simp: dpop_notin)

lemma registry_put:
  assumes inv: "registry_inv c m" and r: "route = dget_default [] (route_registry m) tag"
    and r': "route' \<noteq> [] \<Longrightarrow> route_ok route'"
    and m': "route_registry m' = put_route tag route' (route_registry m)"
      "route_descriptor_count m' = route_descriptor_count m + int (length route') - int (length route)"
      "route_descriptor_count m' \<le> node_mesh_max_route_descriptors c"
  shows "registry_inv c m'"
proof -
  have wf: "wf_dict (route_registry m)" using inv by (simp add: registry_inv_def)
  have "(case dget (route_registry m) tag of None \<Rightarrow> 0 | Some w \<Rightarrow> (int \<circ> length) w) = int (length route)"
    by (simp add: r dget_default_def split: option.split)
  then have "dict_sum (int \<circ> length) (route_registry m') =
      dict_sum (int \<circ> length) (route_registry m) + int (length route') - int (length route)"
    using wf by (simp add: m'(1) put_route_def dict_sum_dset dict_sum_dpop)
  then show ?thesis
    using inv m' r' wf
    by (auto simp: registry_inv_def put_route_def dget_dset dget_dpop wf_dset wf_dpop split: if_splits)
qed

lemma registry_route: "registry_inv c m \<Longrightarrow> route_ok (dget_default [] (route_registry m) tag) \<or> dget_default [] (route_registry m) tag = []"
  by (auto simp: registry_inv_def dget_default_def split: option.split)

lemma current_is_int: "descriptor_is_current c time d \<Longrightarrow> is_int (jget d ''expiresAt'')"
  by (simp add: descriptor_is_current_def is_int_def split: json.splits)


subsection \<open>Storing and removing descriptors\<close>

text \<open>What a route message can do to the state.\<close>

lemma apply_route_message_fields [simp]:
  "trusted (fst (apply_route_message c time t tag d m h)) = trusted m"
  "connections (fst (apply_route_message c time t tag d m h)) = connections m"
  "descriptor_cache (fst (apply_route_message c time t tag d m h)) = descriptor_cache m"
  "pending_queries (fst (apply_route_message c time t tag d m h)) = pending_queries m"
  "pending_acks (fst (apply_route_message c time t tag d m h)) = pending_acks m"
  "membership_nodes (fst (apply_route_message c time t tag d m h)) = membership_nodes m"
  "peer_views (fst (apply_route_message c time t tag d m h)) = peer_views m"
  by (simp_all add: apply_route_message_def Let_def split: json.split option.split)

lemma apply_route_message_registry:
  assumes inv: "registry_inv c m"
  shows "registry_inv c (fst (apply_route_message c time t tag d m h))"
proof -
  let ?route = "dget_default [] (route_registry m) tag"
  have wf: "wf_dict ?route" using registry_route [OF inv, of tag] by (auto simp: route_ok_def)
  have none: "dget (route_registry m) tag \<noteq> Some []" using inv by (auto simp: registry_inv_def route_ok_def)
  then have "?route = [] \<Longrightarrow> dget (route_registry m) tag = None"
    by (auto simp: dget_default_def split: option.splits)
  then have pop: "?route = [] \<Longrightarrow> dpop (route_registry m) tag = route_registry m"
    by (intro dpop_notin) (simp add: dget_None_iff)
  show ?thesis
  proof (cases "\<exists>sid nid. jget d ''sessionId'' = JStr sid \<and> jget d ''nodeId'' = JStr nid")
    case True
    then obtain sid nid where ids: "jget d ''sessionId'' = JStr sid" "jget d ''nodeId'' = JStr nid" by blast
    let ?key = "(nid, sid)"
    show ?thesis
    proof (cases "t = ''ROUTE_REMOVE''")
      case rm: True
      show ?thesis
      proof (cases "dget (route_registry m) tag")
        case (Some r)
        then have r: "?route = r" by (simp add: dget_default_def)
        have "registry_inv c (m\<lparr>route_registry := put_route tag (dpop ?route ?key) (route_registry m),
            route_descriptor_count := route_descriptor_count m - of_bool (?key \<in> set (dkeys ?route))\<rparr>)"
        proof (rule registry_put [OF inv refl])
          show "dpop ?route ?key \<noteq> [] \<Longrightarrow> route_ok (dpop ?route ?key)"
            using registry_route [OF inv, of tag] by (auto intro: route_ok_dpop)
        qed (use inv wf in \<open>simp_all add: length_dpop registry_inv_def\<close>)
        then show ?thesis using Some rm ids by (simp add: apply_route_message_def Let_def)
      qed (use rm ids inv in \<open>simp add: apply_route_message_def Let_def\<close>)
    next
      case add: False
      have "registry_inv c (m\<lparr>route_registry := dset (route_registry m) tag (dset ?route ?key d),
            route_descriptor_count := route_descriptor_count m + of_bool (?key \<notin> set (dkeys ?route)),
            session_nodes := dset (session_nodes m) sid nid\<rparr>)"
        if "descriptor_is_current c time d"
          "?key \<in> set (dkeys ?route) \<or> route_descriptor_count m < node_mesh_max_route_descriptors c"
      proof (rule registry_put [OF inv refl])
        show "route_ok (dset ?route ?key d)"
          using that(1) ids registry_route [OF inv, of tag]
          by (intro route_ok_dset) (auto simp: desc_for_def current_is_int)
      qed (use that(2) inv in \<open>auto simp: put_route_def length_dset registry_inv_def\<close>)
      note stored = this
      have same: "registry_inv c (m\<lparr>route_registry := reg\<rparr>)" if "reg = route_registry m" for reg
        using inv registry_inv_cong [of "m\<lparr>route_registry := reg\<rparr>" m c] that by simp
      show ?thesis
      proof (cases "int_value (jget d ''expiresAt'') = None \<or> \<not> descriptor_is_current c time d \<or> identity_conflict c nid sid m h \<or>
          ?key \<notin> set (dkeys ?route) \<and> route_descriptor_count m \<ge> node_mesh_max_route_descriptors c")
        case True
        then show ?thesis
          using add ids inv pop none same by (auto simp: apply_route_message_def Let_def)
      next
        case False
        then have "?key \<in> set (dkeys ?route) \<or> route_descriptor_count m < node_mesh_max_route_descriptors c"
          using linorder_not_le by blast
        with False stored have "registry_inv c (m\<lparr>route_registry := dset (route_registry m) tag (dset ?route ?key d),
            route_descriptor_count := route_descriptor_count m + of_bool (?key \<notin> set (dkeys ?route)),
            session_nodes := dset (session_nodes m) sid nid\<rparr>)" by blast
        moreover have "\<not> (?key \<notin> set (dkeys ?route) \<and> route_descriptor_count m \<ge> node_mesh_max_route_descriptors c)"
          using False by blast
        ultimately show ?thesis
          using False add ids unfolding apply_route_message_def Let_def by (simp only: if_False if_True json.case prod.case fst_conv) simp
      qed
    qed
  next
    case False
    then have "fst (apply_route_message c time t tag d m h) = m"
      unfolding apply_route_message_def by (simp split: json.split) blast
    with inv show ?thesis by simp
  qed
qed

lemma apply_route_message_inv: "mesh_inv c m \<Longrightarrow> mesh_inv c (fst (apply_route_message c time t tag d m h))"
  by (rule mesh_inv_registry [of c m]) (simp_all add: apply_route_message_registry mesh_invD)

lemma replicate_to_inv: "mesh_inv c m \<Longrightarrow> mesh_inv c (fst (replicate_to c time t tag d os m h))"
proof (induction os arbitrary: m h)
  case (Cons p os)
  then show ?case
    using apply_route_message_inv [of c m time t tag d h] by (simp add: case_prod_unfold)
qed simp

lemma mesh_replicate_inv:
  "mesh_inv c m \<Longrightarrow> mesh_replicate sha c time t tag d m h = Inr (m', h', out) \<Longrightarrow> mesh_inv c m'"
  using replicate_to_inv [of c m time t tag d] by (auto simp: mesh_replicate_def rbind_eq_Inr) (metis fst_conv)

lemma register_local_route_inv:
  "mesh_inv c m \<Longrightarrow> register_local_route sha c time tag sid m h = Inr (m', h', out) \<Longrightarrow> mesh_inv c m'"
  by (auto simp: register_local_route_def split: option.splits dest: mesh_replicate_inv)

lemma remove_local_route_inv:
  "mesh_inv c m \<Longrightarrow> remove_local_route sha c time tag sid m h = Inr (m', h', out) \<Longrightarrow> mesh_inv c m'"
  by (auto simp: remove_local_route_def dest: mesh_replicate_inv)

subsection \<open>Dropping descriptors\<close>

lemma dict_sum_filter_nonempty: "dict_sum (int \<circ> length) (filter (\<lambda>(tag, r). r \<noteq> []) reg) = dict_sum (int \<circ> length) reg"
  by (induction reg) (auto simp: dict_sum_def)

lemma dict_sum_lengths: "dict_sum (int \<circ> length) reg = int (sum_list (map (length \<circ> snd) reg))"
  by (induction reg) (auto simp: dict_sum_def)

lemma sum_filter_le: "sum_list (map (length \<circ> snd) (map (\<lambda>(tag, r). (tag, filter (Q tag) r)) reg)) \<le> sum_list (map (length \<circ> snd) reg)"
  by (induction reg) (auto intro!: add_mono)

lemma dget_map_routes: "dget (map (\<lambda>(tag, r). (tag, f tag r)) reg) tag = map_option (f tag) (dget reg tag)"
  by (induction reg) auto

lemma filter_routes_fields [simp]:
  "trusted (filter_routes keep m) = trusted m" "connections (filter_routes keep m) = connections m"
  "descriptor_cache (filter_routes keep m) = descriptor_cache m" "session_nodes (filter_routes keep m) = session_nodes m"
  "pending_queries (filter_routes keep m) = pending_queries m" "pending_acks (filter_routes keep m) = pending_acks m"
  "membership_nodes (filter_routes keep m) = membership_nodes m" "peer_views (filter_routes keep m) = peer_views m"
  by (simp_all add: filter_routes_def Let_def)

lemma filter_routes_registry:
  assumes inv: "registry_inv c m"
  shows "dget (route_registry (filter_routes keep m)) tag =
      (let r = filter (\<lambda>(key, d). keep tag d) (dget_default [] (route_registry m) tag) in if r = [] then None else Some r)"
    "registry_inv c (filter_routes keep m)"
proof -
  let ?reg = "route_registry m"
  let ?reg1 = "map (\<lambda>(tag, r). (tag, filter (\<lambda>(key, d). keep tag d) r)) ?reg"
  have wf: "wf_dict ?reg" using inv by (simp add: registry_inv_def)
  then have wf1: "wf_dict ?reg1" by (simp add: case_prod_unfold comp_def)
  have get: "dget (filter (\<lambda>(tag, r). r \<noteq> []) ?reg1) tag =
      (let r = filter (\<lambda>(key, d). keep tag d) (dget_default [] ?reg tag) in if r = [] then None else Some r)" for tag
    by (simp add: dget_filter [OF wf1] dget_map_routes dget_default_def Let_def split: option.split)
  then show "dget (route_registry (filter_routes keep m)) tag =
      (let r = filter (\<lambda>(key, d). keep tag d) (dget_default [] ?reg tag) in if r = [] then None else Some r)"
    by (simp add: filter_routes_def Let_def)
  have "route_ok r" if "dget (filter (\<lambda>(tag, r). r \<noteq> []) ?reg1) tag = Some r" for tag r
    using that registry_route [OF inv, of tag]
    by (auto simp: get Let_def route_ok_def dget_filter split: if_splits option.splits)
  moreover have "route_descriptor_count (filter_routes keep m) = dict_sum (int \<circ> length) (filter (\<lambda>(tag, r). r \<noteq> []) ?reg1)"
    using inv unfolding dict_sum_filter_nonempty unfolding registry_inv_def dict_sum_lengths by (simp add: filter_routes_def Let_def)
  moreover have "route_descriptor_count (filter_routes keep m) \<le> route_descriptor_count m"
    using sum_filter_le [of "\<lambda>tag (key, d). keep tag d" ?reg] by (simp add: filter_routes_def Let_def)
  ultimately show "registry_inv c (filter_routes keep m)"
    using inv wf_dict_filter [OF wf1, of "\<lambda>(tag, r). r \<noteq> []"]
    by (simp add: registry_inv_def) (simp add: filter_routes_def Let_def)
qed

lemma filter_routes_inv: "mesh_inv c m \<Longrightarrow> mesh_inv c (filter_routes keep m)"
  by (rule mesh_inv_registry [of c m]) (simp_all add: filter_routes_registry(2) mesh_invD)


lemma fold_dpop_keys: "wf_dict d \<Longrightarrow> wf_dict (fold (\<lambda>k d. dpop d k) ks d)"
  "length (fold (\<lambda>k d. dpop d k) ks d) \<le> length d"
  by (simp_all add: fold_dpop wf_dict_filter)

lemma cache_inv_shrink:
  assumes "cache_inv c m" "descriptor_cache m' = fold (\<lambda>k d. dpop d k) ks (descriptor_cache m)"
  shows "cache_inv c m'"
proof -
  obtain n where "length (descriptor_cache m') = n" "n \<le> length (descriptor_cache m)"
    using fold_dpop_keys(2) assms(2) by metis
  then show ?thesis
    using assms fold_dpop_keys(1) [of "descriptor_cache m" ks]
    by (auto simp: cache_inv_def fold_dpop dget_filter_key split: if_splits)
qed

lemma mesh_inv_cache:
  assumes "mesh_inv c m" "cache_inv c m'" "route_registry m' = route_registry m"
    "route_descriptor_count m' = route_descriptor_count m" "trusted m' = trusted m"
    "membership_nodes m' = membership_nodes m" "peer_views m' = peer_views m" "connections m' = connections m"
    "pending_queries m' = pending_queries m" "pending_acks m' = pending_acks m"
  shows "mesh_inv c m'"
  using assms registry_inv_cong [of m' m c] members_inv_cong [of m' m c] pending_inv_cong [of m' m c]
  by (simp add: mesh_inv_def)

lemma mesh_prune_inv: "mesh_inv c m \<Longrightarrow> mesh_inv c (mesh_prune_routes time m)"
proof -
  assume inv: "mesh_inv c m"
  let ?gone = "map fst (filter (\<lambda>(sid, d). desc_expired time d) (descriptor_cache m))"
  let ?m = "m\<lparr>descriptor_cache := fold (\<lambda>k d. dpop d k) ?gone (descriptor_cache m),
    session_nodes := fold (\<lambda>k d. dpop d k) ?gone (session_nodes m)\<rparr>"
  have "cache_inv c ?m" by (rule cache_inv_shrink [OF mesh_invD(2) [OF inv]]) simp
  then have "mesh_inv c ?m" by (rule mesh_inv_cache [OF inv]) simp_all
  then show ?thesis by (simp add: mesh_prune_routes_def Let_def filter_routes_inv)
qed

lemma remote_descriptor_inv: "mesh_inv c m \<Longrightarrow> mesh_inv c (snd (remote_descriptor time target m))"
proof -
  assume inv: "mesh_inv c m"
  have "cache_inv c (m\<lparr>descriptor_cache := dpop (descriptor_cache m) target, session_nodes := dpop (session_nodes m) target\<rparr>)"
    using cache_inv_shrink [OF mesh_invD(2) [OF inv], of _ "[target]"] by simp
  then have "mesh_inv c (m\<lparr>descriptor_cache := dpop (descriptor_cache m) target, session_nodes := dpop (session_nodes m) target\<rparr>)"
    by (rule mesh_inv_cache [OF inv]) simp_all
  then show ?thesis using inv by (simp add: remote_descriptor_def Let_def split: option.split)
qed

section \<open>Discovery and forwarding\<close>

lemma cache_descriptor_inv:
  assumes "mesh_inv c m" "cache_descriptor c time d m h = (ok, m', h')"
  shows "mesh_inv c m'"
proof -
  have "m' = m \<or> (\<exists>sid nid. jget d ''sessionId'' = JStr sid \<and> descriptor_is_current c time d \<and>
      (sid \<in> set (dkeys (descriptor_cache m)) \<or> int (length (descriptor_cache m)) < node_mesh_max_route_descriptors c) \<and>
      m' = m\<lparr>session_nodes := dset (session_nodes m) sid nid, descriptor_cache := dset (descriptor_cache m) sid d\<rparr>)"
    using assms(2) by (auto simp: cache_descriptor_def split: json.splits if_splits)
  then consider "m' = m" | sid nid where "jget d ''sessionId'' = JStr sid" "descriptor_is_current c time d"
      "sid \<in> set (dkeys (descriptor_cache m)) \<or> int (length (descriptor_cache m)) < node_mesh_max_route_descriptors c"
      "m' = m\<lparr>session_nodes := dset (session_nodes m) sid nid, descriptor_cache := dset (descriptor_cache m) sid d\<rparr>"
    by blast
  then show ?thesis
  proof cases
    case 2
    have "cache_inv c m'"
      using mesh_invD(2) [OF assms(1)] 2 by (auto simp: cache_inv_def wf_dset length_dset dget_dset current_is_int)
    then show ?thesis by (rule mesh_inv_cache [OF assms(1)]) (simp_all add: 2(4))
  qed (use assms(1) in simp)
qed

lemma collect_inv:
  "mesh_inv c m \<Longrightarrow> collect c time ds (acc, m, h) = (acc', m', h') \<Longrightarrow> mesh_inv c m'"
proof (induction ds arbitrary: acc m h)
  case (Cons d ds)
  obtain ok m1 h1 where 1: "cache_descriptor c time d m h = (ok, m1, h1)" by (metis prod_cases3)
  show ?case
    by (rule Cons.IH [of m1]) (use Cons.prems 1 cache_descriptor_inv in \<open>auto simp: collect_def\<close>)
qed (simp add: collect_def)

lemma discover_begin_inv:
  assumes "mesh_inv c m" "discover_begin sha c time tag m h = Inr (acc, asked, m', h')"
  shows "mesh_inv c m'"
proof -
  obtain acc2 m2 h2 where 2: "collect c time (dvalues (dget_default [] (route_registry (mesh_prune_routes time m)) tag))
      ([], mesh_prune_routes time m, h) = (acc2, m2, h2)" by (metis prod_cases3)
  then have "m' = m2" using assms(2) by (auto simp: discover_begin_def Let_def rbind_eq_Inr)
  then show ?thesis using collect_inv [OF mesh_prune_inv [OF assms(1)] 2] by simp
qed

lemma discover_end_inv: "mesh_inv c m \<Longrightarrow> discover_end c time acc rs m h = (ds, m', h') \<Longrightarrow> mesh_inv c m'"
  using collect_inv by (auto simp: discover_end_def split: prod.splits)

lemma mesh_inv_pending:
  assumes "mesh_inv c m" "pending_inv c m'" "route_registry m' = route_registry m"
    "route_descriptor_count m' = route_descriptor_count m" "descriptor_cache m' = descriptor_cache m"
    "trusted m' = trusted m" "membership_nodes m' = membership_nodes m" "peer_views m' = peer_views m"
    "connections m' = connections m"
  shows "mesh_inv c m'"
  using assms registry_inv_cong [of m' m c] members_inv_cong [of m' m c] cache_inv_cong [of m' m c]
  by (simp add: mesh_inv_def)

lemma query_owner_inv: "mesh_inv c m \<Longrightarrow> mesh_inv c (fst (snd (query_owner c w q tag m h)))"
  by (rule mesh_inv_pending [of c m])
    (auto simp: query_owner_def pending_inv_def pending_operation_count_def length_dset dest: mesh_invD(4))

lemma pending_shrink:
  assumes "pending_inv c m" "length (pending_queries m') \<le> length (pending_queries m)"
    "length (pending_acks m') \<le> length (pending_acks m)"
  shows "pending_inv c m'"
  using assms by (simp add: pending_inv_def pending_operation_count_def)

lemma query_done_inv: "mesh_inv c m \<Longrightarrow> mesh_inv c (snd (query_done sent q m))"
  by (rule mesh_inv_pending [of c m])
    (auto simp: query_done_def length_dpop_le dest: mesh_invD(4) intro: pending_shrink)

lemma forward_signal_inv: "mesh_inv c m \<Longrightarrow> mesh_inv c (fst (snd (forward_signal c rid tag target out m h)))"
  by (rule mesh_inv_pending [of c m])
    (auto simp: forward_signal_def pending_inv_def pending_operation_count_def length_dset dest: mesh_invD(4) split: option.split)

lemma forward_done_inv: "mesh_inv c m \<Longrightarrow> mesh_inv c (fst (snd (forward_done oc rid m h)))"
  by (rule mesh_inv_pending [of c m])
    (auto simp: forward_done_def Let_def length_dpop_le dest: mesh_invD(4) intro: pending_shrink split: ack_outcome.split)

end
