(* ===== verification/Mesh_Steps.thy ===== *)
theory Mesh_Steps
  imports Mesh_Invariant
begin

text \<open>
  Frames and links: what a frame from another node can do to the mesh state and to the hub. The hub
  changes only through the metrics, the replay cache and the outbound queues.
\<close>

section \<open>Effects on the hub\<close>

inductive mesh_hub :: "(real \<Rightarrow> pystr) \<Rightarrow> config \<Rightarrow> real \<Rightarrow> hub \<Rightarrow> hub \<Rightarrow> bool" for frepr c now where
  mh_refl: "mesh_hub frepr c now h h"
| mh_metrics: "mesh_hub frepr c now h h' \<Longrightarrow> mesh_hub frepr c now h (with_metrics f h')"
| mh_mark: "mesh_hub frepr c now h h' \<Longrightarrow> mesh_hub frepr c now h (snd (check_and_mark_seen c now k ttl h'))"
| mh_send: "mesh_hub frepr c now h h' \<Longrightarrow> send_session frepr c sid data h' = Inr (ok, h'', effs) \<Longrightarrow> mesh_hub frepr c now h h''"

lemma mh_trans: "mesh_hub frepr c now h1 h2 \<Longrightarrow> mesh_hub frepr c now h0 h1 \<Longrightarrow> mesh_hub frepr c now h0 h2"
  by (induction rule: mesh_hub.induct) (auto intro: mesh_hub.intros)

lemma send_mesh_hub: "send_session frepr c sid data h = Inr (ok, h', effs) \<Longrightarrow> mesh_hub frepr c now h h'"
  by (rule mh_send [OF mh_refl])

lemmas mh_intros = mh_refl mh_metrics

lemma mesh_hub_inv: "mesh_hub frepr c now h h' \<Longrightarrow> post_init c = Inr () \<Longrightarrow> hub_inv c h \<Longrightarrow> hub_inv c h'"
  by (induction rule: mesh_hub.induct) (auto intro: hub_inv_mark hub_inv_send)

lemma apply_route_message_hub: "mesh_hub frepr c now h (snd (apply_route_message c time t tag d m h))"
  by (auto simp: apply_route_message_def Let_def intro: mh_intros split: json.split option.split)

lemma replicate_to_hub: "mesh_hub frepr c now h (fst (snd (replicate_to c time t tag d os m h)))"
proof (induction os arbitrary: m h)
  case (Cons p os)
  have "mesh_hub frepr c now h (snd (apply_route_message c time t tag d m h))" by (rule apply_route_message_hub)
  then show ?case using Cons by (auto simp: case_prod_unfold intro: mh_trans)
qed (simp add: mh_refl)

lemma mesh_replicate_hub:
  "mesh_replicate sha c time t tag d m h = Inr (m', h', out) \<Longrightarrow> mesh_hub frepr c now h h'"
  using replicate_to_hub [of frepr c now h time t tag d] by (auto simp: mesh_replicate_def rbind_eq_Inr) (metis fst_conv snd_conv)

lemma register_local_route_hub:
  "register_local_route sha c time tag sid m h = Inr (m', h', out) \<Longrightarrow> mesh_hub frepr c now h h'"
  by (auto simp: register_local_route_def split: option.splits intro: mesh_replicate_hub mh_refl)

lemma remove_local_route_hub:
  "remove_local_route sha c time tag sid m h = Inr (m', h', out) \<Longrightarrow> mesh_hub frepr c now h h'"
  by (auto simp: remove_local_route_def intro: mesh_replicate_hub)

lemma cache_descriptor_hub: "cache_descriptor c time d m h = (ok, m', h') \<Longrightarrow> mesh_hub frepr c now h h'"
  by (auto simp: cache_descriptor_def split: json.splits if_splits intro: mh_intros)

lemma collect_hub: "collect c time ds (acc, m, h) = (acc', m', h') \<Longrightarrow> mesh_hub frepr c now h h'"
proof (induction ds arbitrary: acc m h)
  case (Cons d ds)
  obtain ok m1 h1 where 1: "cache_descriptor c time d m h = (ok, m1, h1)" by (metis prod_cases3)
  have "mesh_hub frepr c now h1 h'" by (rule Cons.IH) (use Cons.prems 1 in \<open>auto simp: collect_def\<close>)
  then show ?case using cache_descriptor_hub [OF 1] by (rule mh_trans)
qed (simp add: collect_def mh_refl)

lemma discover_begin_hub: "discover_begin sha c time tag m h = Inr (acc, asked, m', h') \<Longrightarrow> mesh_hub frepr c now h h'"
  by (auto simp: discover_begin_def Let_def rbind_eq_Inr split: prod.splits dest: collect_hub)

lemma discover_end_hub: "discover_end c time acc rs m h = (ds, m', h') \<Longrightarrow> mesh_hub frepr c now h h'"
  by (auto simp: discover_end_def split: prod.splits dest: collect_hub)

lemma query_owner_hub: "mesh_hub frepr c now h (fst (snd (snd (query_owner c w q tag m h))))"
  by (auto simp: query_owner_def intro: mh_intros)

lemma forward_signal_hub: "mesh_hub frepr c now h (fst (snd (snd (forward_signal c rid tag target out m h))))"
  by (auto simp: forward_signal_def intro: mh_intros split: option.split)

lemma forward_done_hub: "mesh_hub frepr c now h (snd (snd (forward_done oc rid m h)))"
  by (auto simp: forward_done_def Let_def intro: mh_intros split: ack_outcome.split)

lemma reconcile_hub: "mesh_hub frepr c now h (snd (reconcile_membership c t m h))"
  by (auto simp: reconcile_membership_def Let_def case_prod_unfold intro: mh_intros)

section \<open>Membership and links\<close>

lemma mesh_inv_members:
  assumes "mesh_inv c m" "members_inv c m'" "route_registry m' = route_registry m"
    "route_descriptor_count m' = route_descriptor_count m" "descriptor_cache m' = descriptor_cache m"
    "pending_queries m' = pending_queries m" "pending_acks m' = pending_acks m"
  shows "mesh_inv c m'"
  using assms registry_inv_cong [of m' m c] pending_inv_cong [of m' m c] cache_inv_cong [of m' m c]
  by (simp add: mesh_inv_def)

lemma reconcile_fields [simp]:
  "trusted (fst (reconcile_membership c now m h)) = trusted m"
  "connections (fst (reconcile_membership c now m h)) = connections m"
  "route_registry (fst (reconcile_membership c now m h)) = route_registry m"
  "route_descriptor_count (fst (reconcile_membership c now m h)) = route_descriptor_count m"
  "descriptor_cache (fst (reconcile_membership c now m h)) = descriptor_cache m"
  "pending_queries (fst (reconcile_membership c now m h)) = pending_queries m"
  "pending_acks (fst (reconcile_membership c now m h)) = pending_acks m"
  "peer_views (fst (reconcile_membership c now m h)) = fresh_views c now m"
  by (simp_all add: reconcile_membership_def Let_def case_prod_unfold)

lemma reconcile_inv:
  assumes "mesh_inv c m"
  shows "mesh_inv c (fst (reconcile_membership c now m h))"
proof (rule mesh_inv_members [OF assms])
  let ?m' = "fst (reconcile_membership c now m h)"
  have inv: "members_inv c m" by (rule mesh_invD(3) [OF assms])
  then have r: "wf_dict (trusted m)" "set (membership_nodes m) \<subseteq> set (membership_universe c m)"
    "distinct (membership_nodes m)" by (simp_all add: members_inv_def)
  have u: "membership_universe c ?m' = membership_universe c m" by (simp add: membership_universe_def)
  have "node_id c \<in> set (membership_universe c m)" by (simp add: membership_universe_def)
  then have "node_id c \<in> set (membership_nodes ?m')" "set (membership_nodes ?m') \<subseteq> set (membership_universe c m)"
    using inv by (auto simp: reconcile_members(1) [OF r] survives_def members_inv_def)
  moreover have "set (dkeys (fresh_views c now m)) \<subseteq> set (dkeys (trusted m))"
    using inv fresh_views_sub unfolding members_inv_def by blast
  ultimately show "members_inv c ?m'"
    using inv reconcile_members(2) [OF r, of now h] by (simp add: members_inv_def u)
qed simp_all

lemma topology_changed_inv:
  assumes "mesh_inv c m" "topology_changed sha c now m h = Inr (work, m', h')"
  shows "mesh_inv c m'" "mesh_hub frepr c t h h'"
  using assms(2) reconcile_inv [OF assms(1), of now h] reconcile_hub [of frepr c t h now m]
  by (auto simp: topology_changed_def rbind_eq_Inr case_prod_unfold filter_routes_inv)

lemma membership_tick_inv:
  assumes "mesh_inv c m" "membership_tick c time now inc m h = (m', h', out)"
  shows "mesh_inv c m'" "mesh_hub frepr c t h h'"
  using assms(2) reconcile_inv [OF assms(1), of now h] reconcile_hub [of frepr c t h now m]
  by (auto simp: membership_tick_def case_prod_unfold)

text \<open>What it takes to be let in.\<close>

definition peer_proof :: "trust_prims \<Rightarrow> config \<Rightarrow> real \<Rightarrow> mesh \<Rightarrow> json \<Rightarrow> pystr \<Rightarrow> bool" where
  "peer_proof P c time m message nid \<longleftrightarrow>
     (\<exists>t payload. dget (trusted m) nid = Some t \<and> tn_node_id t = nid \<and>
        parse_signed_manifest P (jget (payload_of (dict_of message)) ''manifest'') (server_key_pin t) \<lfloor>time\<rfloor> = Inr (Some payload) \<and>
        jget (dict_of payload) ''networkRootId'' = JStr (network_root_id c) \<and>
        le_int (jget (dict_of payload) ''issuedAt'') \<lfloor>time\<rfloor> = Inr True \<and>
        int_le \<lfloor>time\<rfloor> (jget (dict_of payload) ''expiresAt'') = Inr True)"

lemma rbindE:
  assumes "rbind m f = Inr y"
  obtains x where "m = Inr x" "f x = Inr y"
  using assms by (auto simp: rbind_eq_Inr)

lemma authenticated_proof:
  assumes "authenticate_hello P c time m None message = Inr (Some nid)"
  shows "peer_proof P c time m message nid"
proof -
  obtain mp t payload where *: "trusted_entry m (jget mp ''nodeId'') = Inr (Some t)" "JStr (tn_node_id t) = jget mp ''nodeId''"
    "parse_signed_manifest P (jget (payload_of (dict_of message)) ''manifest'') (server_key_pin t) \<lfloor>time\<rfloor> = Inr (Some payload)"
    "jget (dict_of payload) ''networkRootId'' = JStr (network_root_id c)"
    "le_int (jget (dict_of payload) ''issuedAt'') \<lfloor>time\<rfloor> = Inr True"
    "int_le \<lfloor>time\<rfloor> (jget (dict_of payload) ''expiresAt'') = Inr True" "nid = tn_node_id t"
    using assms(1) unfolding authenticate_hello_def Let_def
    by (auto elim!: rbindE split: if_splits option.splits)
  have "dget (trusted m) nid = Some t" using *(1,7) by (simp add: *(2) [symmetric] trusted_entry_def)
  with * show ?thesis unfolding peer_proof_def by blast
qed

lemma peer_proof_trusted: "peer_proof P c time m message nid \<Longrightarrow> nid \<in> set (dkeys (trusted m))"
  by (auto simp: peer_proof_def dest: dget_Some_key)

lemma claim_connection_inv:
  assumes "mesh_inv c m" "nid \<in> set (dkeys (trusted m))" "claim_connection nid w m h = (ok, m', h')"
  shows "mesh_inv c m'" "mesh_hub frepr c t h h'"
proof -
  have "members_inv c (m\<lparr>connections := dset (connections m) nid w\<rparr>)"
    using mesh_invD(3) [OF assms(1)] assms(2)
    by (auto simp: members_inv_def membership_universe_def dkeys_dset [simplified])
  then have "mesh_inv c (m\<lparr>connections := dset (connections m) nid w\<rparr>)"
    by (rule mesh_inv_members [OF assms(1)]) simp_all
  then show "mesh_inv c m'"
    using assms(1,3) by (auto simp: claim_connection_def split: option.splits if_splits)
  show "mesh_hub frepr c t h h'"
    using assms(3) by (auto simp: claim_connection_def intro: mh_intros split: option.splits if_splits)
qed

lemma accept_hello_inv:
  assumes "mesh_inv c m" "accept_hello P c time w raw m h = (r, m', h')"
  shows "mesh_inv c m' \<and> mesh_hub frepr c t h h'"
proof (cases "m' = m \<and> h' = h")
  case False
  then obtain first nid ok where *: "authenticate_hello P c time m None first = Inr (Some nid)"
      "claim_connection nid w m h = (ok, m', h')"
    using assms(2) by (auto simp: accept_hello_def split: option.splits if_splits sum.splits exn.splits prod.splits)
  have "nid \<in> set (dkeys (trusted m))"
    using authenticated_proof [OF *(1)] by (rule peer_proof_trusted)
  then show ?thesis using claim_connection_inv [OF assms(1) _ *(2)] by blast
qed (use assms(1) in \<open>auto intro: mh_refl\<close>)

lemma link_down_inv:
  assumes "mesh_inv c m" "link_down now k m h = (removed, m', h')"
  shows "mesh_inv c m'" "mesh_hub frepr c t h h'"
proof -
  let ?m = "m\<lparr>connections := dpop (connections m) (link_node k),
     suspected_since := dset (suspected_since m) (link_node k) (dget_default now (suspected_since m) (link_node k))\<rparr>"
  have "members_inv c ?m"
    using mesh_invD(3) [OF assms(1)] dkeys_dpop [where d = "connections m" and k = "link_node k"]
    unfolding members_inv_def membership_universe_def by simp blast
  then have "mesh_inv c ?m" by (rule mesh_inv_members [OF assms(1)]) simp_all
  then show "mesh_inv c m'" "mesh_hub frepr c t h h'"
    using assms by (auto simp: link_down_def Let_def intro: mh_intros)
qed

section \<open>Frames\<close>

definition mesh_kept :: "(real \<Rightarrow> pystr) \<Rightarrow> config \<Rightarrow> real \<Rightarrow> hub \<Rightarrow> mesh \<times> hub \<times> 'a \<Rightarrow> bool" where
  "mesh_kept frepr c now h r \<longleftrightarrow> mesh_inv c (fst r) \<and> mesh_hub frepr c now h (fst (snd r))"

lemma mesh_kept_iff: "mesh_kept frepr c now h (m, h', x) \<longleftrightarrow> mesh_inv c m \<and> mesh_hub frepr c now h h'"
  by (simp add: mesh_kept_def)

lemma mesh_kept_same: "mesh_inv c m \<Longrightarrow> mesh_kept frepr c now h (m, h, x)"
  by (simp add: mesh_kept_def mh_refl)

lemma mesh_kept_try:
  "mesh_inv c m \<Longrightarrow> (\<And>x. r = Inr x \<Longrightarrow> mesh_kept frepr c now h (k x)) \<Longrightarrow> mesh_kept frepr c now h (mesh_try r m h k)"
  by (cases r) (simp_all add: mesh_try_def mesh_kept_same)

lemma handle_route_update_kept:
  "mesh_inv c m \<Longrightarrow> mesh_kept frepr c now h (handle_route_update sha c time nid t payload m h)"
  unfolding handle_route_update_def Let_def case_prod_unfold
  by (auto simp: mesh_kept_iff mh_refl apply_route_message_inv apply_route_message_hub intro!: mesh_kept_try)

lemma handle_route_query_kept: "mesh_inv c m \<Longrightarrow> mesh_kept frepr c now h (handle_route_query c time w payload m h)"
  by (simp add: handle_route_query_def Let_def mesh_kept_iff mh_refl mesh_prune_inv split: json.split)

lemma handle_signal_forward_kept:
  assumes "mesh_inv c m"
  shows "mesh_kept frepr c now h (handle_signal_forward frepr c now w payload m h)"
proof -
  have "mesh_kept frepr c now h (mesh_try (send_session frepr c target out h) m h
      (\<lambda>(delivered, h1, effs). (m, h1, ack delivered, effs, None)))" for target out ack
  proof (rule mesh_kept_try [OF assms])
    fix x assume x: "send_session frepr c target out h = Inr x"
    obtain ok h1 effs where "x = (ok, h1, effs)" by (cases x)
    with x send_mesh_hub [of frepr c target out h ok h1 effs now] assms
    show "mesh_kept frepr c now h (case x of (delivered, h1, effs) \<Rightarrow> (m, h1, ack delivered, effs, None))"
      by (simp add: mesh_kept_iff)
  qed
  then show ?thesis
    unfolding handle_signal_forward_def Let_def
    by (intro mesh_kept_try [OF assms]) (simp add: mesh_kept_same [OF assms] split: json.split)
qed

lemma handle_node_state_kept:
  assumes "mesh_inv c m" "nid \<in> set (dkeys (trusted m))"
  shows "mesh_inv c (fst (handle_node_state c time now nid payload m h))"
    "mesh_hub frepr c t h (snd (handle_node_state c time now nid payload m h))"
proof -
  have "mesh_inv c (m\<lparr>peer_views := dset (peer_views m) nid v\<rparr>)" for v
    by (rule mesh_inv_members [OF assms(1)])
      (use mesh_invD(3) [OF assms(1)] assms(2) in
        \<open>auto simp: members_inv_def membership_universe_def dkeys_dset [simplified]\<close>)
  then show "mesh_inv c (fst (handle_node_state c time now nid payload m h))"
    using assms(1) by (simp add: handle_node_state_def Let_def reconcile_inv)
  have "mesh_hub frepr c t h (case clock_skew time v of None \<Rightarrow> h | Some k \<Rightarrow> with_metrics (f k) h)" for f v
    by (simp add: mh_intros split: option.split)
  then show "mesh_hub frepr c t h (snd (handle_node_state c time now nid payload m h))"
    unfolding handle_node_state_def Let_def
    by (auto intro!: mh_trans [OF reconcile_hub] mh_metrics)
qed

lemma settle_length: "settle request v pending = Inr pending' \<Longrightarrow> length pending' = length pending"
  by (auto simp: settle_def length_dset dest: dget_Some_key split: json.splits if_splits)

lemma settle_inv:
  assumes "mesh_inv c m"
  shows "settle q v (pending_queries m) = Inr pq \<Longrightarrow> mesh_inv c (m\<lparr>pending_queries := pq\<rparr>)"
    "settle q v' (pending_acks m) = Inr pa \<Longrightarrow> mesh_inv c (m\<lparr>pending_acks := pa\<rparr>)"
  by (rule mesh_inv_pending [OF assms];
      use mesh_invD(4) [OF assms] settle_length in \<open>fastforce simp: pending_inv_def pending_operation_count_def\<close>)+

lemma handle_node_message_kept:
  assumes "mesh_inv c m" "nid \<in> set (dkeys (trusted m))"
  shows "mesh_kept (tp_float P) c now h (handle_node_message P c time now nid w d m h)"
proof -
  have state: "mesh_kept (tp_float P) c now h (fst (handle_node_state c time now nid (payload_of d) m h),
      snd (handle_node_state c time now nid (payload_of d) m h), x)" for x :: "mesh_send list \<times> effect list \<times> exn option"
    using handle_node_state_kept [OF assms] by (simp add: mesh_kept_iff)
  have result: "mesh_kept (tp_float P) c now h (mesh_try (settle q v (pending_queries m)) m h
      (\<lambda>pq. (m\<lparr>pending_queries := pq\<rparr>, h, [], [], None)))" for q v
    by (rule mesh_kept_try [OF assms(1)]) (simp add: mesh_kept_iff mh_refl settle_inv [OF assms(1)])
  have ack: "mesh_kept (tp_float P) c now h (mesh_try (settle q v (pending_acks m)) m h
      (\<lambda>pa. (m\<lparr>pending_acks := pa\<rparr>, h, [], [], None)))" for q v
    by (rule mesh_kept_try [OF assms(1)]) (simp add: mesh_kept_iff mh_refl settle_inv [OF assms(1)])
  show ?thesis
    unfolding handle_node_message_def Let_def case_prod_unfold
    using assms(1) state result ack
    by (simp add: mesh_kept_same handle_route_update_kept handle_route_query_kept handle_signal_forward_kept)
qed

lemma node_data_kept:
  assumes "mesh_inv c m" "link_node k \<in> set (dkeys (trusted m))"
  shows "mesh_kept (tp_float P) c now h (node_data P c time now k data m h)"
proof -
  let ?key = "node_dedupe_key (link_node k) (dict_of data)"
  let ?h1 = "snd (check_and_mark_seen c now ?key (dedupe_window_seconds c) h)"
  have 1: "mesh_hub (tp_float P) c now h ?h1" by (rule mh_mark [OF mh_refl])
  have "mesh_kept (tp_float P) c now ?h1 (handle_node_message P c time now (link_node k) (link_socket k) (dict_of data) m ?h1)"
    by (rule handle_node_message_kept [OF assms])
  then show ?thesis
    using 1 assms(1)
    by (auto simp: node_data_def mesh_kept_def case_prod_unfold intro: mh_trans mh_intros split: sum.split bool.split)
qed

lemma node_frame_kept:
  assumes "mesh_inv c m" "link_node k \<in> set (dkeys (trusted m))"
  shows "mesh_kept (tp_float P) c now h (snd (node_frame P c time now k raw m h))"
    "link_node (fst (node_frame P c time now k raw m h)) = link_node k"
    "link_socket (fst (node_frame P c time now k raw m h)) = link_socket k"
proof -
  have "mesh_kept (tp_float P) c now h (node_data P c time now (k\<lparr>message_bucket := b\<rparr>) data m h)" for b data
    by (rule node_data_kept) (use assms in simp_all)
  then show "mesh_kept (tp_float P) c now h (snd (node_frame P c time now k raw m h))"
    using assms(1)
    by (auto simp: node_frame_def Let_def case_prod_unfold mesh_kept_iff
        intro: mh_intros split: option.split sum.split exn.split)
  show "link_node (fst (node_frame P c time now k raw m h)) = link_node k"
    "link_socket (fst (node_frame P c time now k raw m h)) = link_socket k"
    by (simp_all add: node_frame_def Let_def case_prod_unfold split: option.split sum.split exn.split)
qed

end
