(* ===== verification/Transitions.thy ===== *)
theory Transitions
  imports Prelude
begin

text \<open>
  Contracts of step relations, shared by the sockets, the server, the life of the application and the
  cluster of nodes. Each locale fixes the relation and asks for one step; its lemmas give whole runs.
\<close>

section \<open>Invariants\<close>

locale preserved =
  fixes step :: "'s \<Rightarrow> 's \<Rightarrow> bool" and inv :: "'s \<Rightarrow> bool"
  assumes preserve: "inv s \<Longrightarrow> step s s' \<Longrightarrow> inv s'"
begin

lemma run_inv: "step\<^sup>*\<^sup>* s s' \<Longrightarrow> inv s \<Longrightarrow> inv s'"
  by (induction rule: rtranclp_induct) (auto intro: preserve)

end

section \<open>Simulation\<close>

text \<open>Every step of a good state is matched by a run of an abstract relation.\<close>

locale simulated = preserved step inv for step :: "'s \<Rightarrow> 's \<Rightarrow> bool" and inv +
  fixes abs :: "'s \<Rightarrow> 'a" and astep :: "'a \<Rightarrow> 'a \<Rightarrow> bool"
  assumes simulate: "inv s \<Longrightarrow> step s s' \<Longrightarrow> astep\<^sup>*\<^sup>* (abs s) (abs s')"
begin

lemma run_simulated: "step\<^sup>*\<^sup>* s s' \<Longrightarrow> inv s \<Longrightarrow> astep\<^sup>*\<^sup>* (abs s) (abs s')"
proof (induction rule: rtranclp_induct)
  case (step y z)
  then have "astep\<^sup>*\<^sup>* (abs y) (abs z)" using simulate run_inv by blast
  with step show ?case by (meson rtranclp_trans)
qed simp

end

text \<open>A quantity that never shrinks is simulated by the order on it.\<close>

locale growing = preserved step inv for step :: "'s \<Rightarrow> 's \<Rightarrow> bool" and inv +
  fixes part :: "'s \<Rightarrow> 'a :: preorder"
  assumes grow: "inv s \<Longrightarrow> step s s' \<Longrightarrow> part s \<le> part s'"

sublocale growing \<subseteq> simulated step inv part "(\<le>)"
  by unfold_locales (auto dest: grow)

context growing
begin

lemma run_grows: "step\<^sup>*\<^sup>* s s' \<Longrightarrow> inv s \<Longrightarrow> part s \<le> part s'"
proof -
  have "(\<le>)\<^sup>*\<^sup>* x y \<Longrightarrow> x \<le> y" for x y :: 'a
    by (induction rule: rtranclp_induct) (auto intro: order_trans)
  then show "step\<^sup>*\<^sup>* s s' \<Longrightarrow> inv s \<Longrightarrow> part s \<le> part s'" using run_simulated by blast
qed

end

end
