(* ===== verification/Server.thy ===== *)
theory Server
  imports V2_Frames Mesh_Steps Transitions
begin

text \<open>
  The whole server: V1 and V2 connections, links to other nodes, HTTP requests, writers and the
  cleanup loop over one hub, one trust object and one mesh state. A step is an uninterrupted piece
  of one coroutine; a V2 handler that awaits the mesh is a sequence of steps with anything in
  between. \<open>time\<close> is the wall clock, which may jump; \<open>now\<close> the monotonic clock, which may not.
\<close>

section \<open>V2 connections\<close>

definition v2_open ::
  "config \<Rightarrow> real \<Rightarrow> json option \<Rightarrow> pystr option \<Rightarrow> nat \<Rightarrow> pystr \<Rightarrow> v2_state \<Rightarrow> (v2_state \<times> effect list \<times> open_result) result" where
  "v2_open c now allowed origin w sid st =
     rbind (origin_allowed allowed origin) (\<lambda>ok.
       if \<not> ok then Inr (v2_count ''origin_rejections'' st, [CloseSocket w 1008 ''origin not allowed''], Rejected)
       else if session_count (v2_hub st) \<ge> max_concurrency c then Inr (st, [CloseSocket w 1013 ''capacity''], Rejected)
       else Inr (on_hub (create_session now w sid) st, [], Opened sid (now + proof_deadline_seconds c)))"

text \<open>
  The points of a V2 coroutine. \<open>VAsking\<close> is about to call the mesh, \<open>VReplying\<close> waits for a
  replication, \<open>VQuerying\<close> for the owners of a route (those still to ask, the open queries, the
  results so far), \<open>VForwarding\<close> for an acknowledgement; \<open>VLeaving\<close> is the \<^verbatim>\<open>finally\<close> clause,
  \<open>VWithdrawing\<close> its loop over the routes.
\<close>

datatype v2_phase =
    VTop
  | VReceiving bool
  | VAsking v2_next
  | VReplying json
  | VQuerying pystr "(pystr \<times> json) list list" json "(pystr, descriptor) dict" "nat list" "pystr list" "descriptor list list"
  | VForwarding pystr json "(pystr \<times> json) list"
  | VLeaving
  | VWithdrawing "pystr list"

record v2_conn =
  vc_sid :: pystr
  vc_deadline :: real
  vc_phase :: v2_phase

definition v2_timeout :: "nat \<Rightarrow> v2_state \<Rightarrow> v2_state \<times> effect list" where
  "v2_timeout w st =
     (v2_count ''proof_timeouts'' st,
      [SendFrame w (v2_error_frame ''proof-timeout'' JNull), CloseSocket w 1008 ''proof timeout''])"

definition v2_loop_top :: "real \<Rightarrow> nat \<Rightarrow> v2_conn \<Rightarrow> v2_state \<Rightarrow> v2_state \<times> effect list \<times> v2_phase" where
  "v2_loop_top now w k st =
     (case dget (sessions (v2_hub st)) (vc_sid k) of
        None \<Rightarrow> (st, [], VLeaving)
      | Some sess \<Rightarrow>
          if proven sess then (st, [], VReceiving False)
          else if vc_deadline k - now \<le> 0 then (case v2_timeout w st of (st', effs) \<Rightarrow> (st', effs, VLeaving))
          else (st, [], VReceiving True))"

definition v2_phase_after :: "v2_next \<Rightarrow> v2_phase" where
  "v2_phase_after nx = (case nx of VContinue \<Rightarrow> VTop | VBreak \<Rightarrow> VLeaving | VRaise e \<Rightarrow> VLeaving | _ \<Rightarrow> VAsking nx)"

text \<open>The recipient a frame asks the mesh about.\<close>

definition mesh_target :: "config \<Rightarrow> pystr \<Rightarrow> pystr" where
  "mesh_target c raw = (case decode_v2 c raw of None \<Rightarrow> [] | Some d \<Rightarrow> jstr (jget (payload_of d) ''toSessionId''))"

section \<open>The server\<close>

record server =
  srv :: v2_state
  srv_mesh :: mesh
  v1_conns :: "(nat, conn) dict"
  v2_conns :: "(nat, v2_conn) dict"
  links :: "(nat, link) dict"
  rebalance :: "(pystr \<times> pystr) list"
  srv_clock :: real
  issued :: "pystr list"

abbreviation srv_hub :: "server \<Rightarrow> hub" where
  "srv_hub s \<equiv> v2_hub (srv s)"

definition hub_prims :: "trust_prims \<Rightarrow> prims" where
  "hub_prims P = \<lparr>float_repr = tp_float P, sha256 = tp_sha256 P, ec_verify = tp_verify P\<rparr>"

definition set_hub :: "hub \<Rightarrow> server \<Rightarrow> server" where
  "set_hub h s = s\<lparr>srv := (srv s)\<lparr>v2_hub := h\<rparr>\<rparr>"

definition set_v2_conn :: "nat \<Rightarrow> v2_conn \<Rightarrow> v2_phase \<Rightarrow> server \<Rightarrow> server" where
  "set_v2_conn w k ph s = s\<lparr>v2_conns := dset (v2_conns s) w (k\<lparr>vc_phase := ph\<rparr>)\<rparr>"

definition v1_part :: "server \<Rightarrow> v1_state" where
  "v1_part s = \<lparr>v1_hub = srv_hub s, conns = v1_conns s, clock = srv_clock s\<rparr>"

definition new_ids :: "hub \<Rightarrow> hub \<Rightarrow> pystr list" where
  "new_ids h h' = filter (\<lambda>sid. sid \<notin> set (dkeys (sessions h))) (dkeys (sessions h'))"

text \<open>
  One step of the server at the (new) clock reading \<open>now\<close>, before the clock and the issued session
  ids are recorded. V1 connections, writers and the cleanup loop come from \<^const>\<open>v1_step\<close>.
  \<open>incoming nid raw\<close> tells which texts can arrive on a link of node \<open>nid\<close>; for a server on its own, any.
\<close>

inductive node_act ::
  "(pystr \<Rightarrow> pystr \<Rightarrow> bool) \<Rightarrow> trust_prims \<Rightarrow> (bytes \<Rightarrow> bool) \<Rightarrow> config \<Rightarrow> real \<Rightarrow> server \<Rightarrow> effect list \<Rightarrow> mesh_send list \<Rightarrow> server \<Rightarrow> bool"
  for incoming P on_curve c now where
  v1: "v1_step (hub_prims P) c (v1_part s) effs t \<Longrightarrow> clock t = now \<Longrightarrow>
    node_act incoming P on_curve c now s effs [] (set_hub (v1_hub t) s\<lparr>v1_conns := conns t\<rparr>)"
| v2_refused: "v2_open c now allowed origin w sid (srv s) = Inr (x, effs, Rejected) \<Longrightarrow>
    node_act incoming P on_curve c now s effs [] (s\<lparr>srv := x\<rparr>)"
| v2_opened: "v2_open c now allowed origin w sid (srv s) = Inr (x, effs, Opened sid dl) \<Longrightarrow>
    dget (v2_conns s) w = None \<Longrightarrow> dget (sessions (srv_hub s)) sid = None \<Longrightarrow>
    node_act incoming P on_curve c now s effs []
      (s\<lparr>srv := x, v2_conns := dset (v2_conns s) w \<lparr>vc_sid = sid, vc_deadline = dl, vc_phase = VTop\<rparr>\<rparr>)"
| v2_turn: "dget (v2_conns s) w = Some k \<Longrightarrow> vc_phase k = VTop \<Longrightarrow> v2_loop_top now w k (srv s) = (x, effs, ph) \<Longrightarrow>
    node_act incoming P on_curve c now s effs [] (set_v2_conn w k ph (s\<lparr>srv := x\<rparr>))"
| v2_received: "dget (v2_conns s) w = Some k \<Longrightarrow> vc_phase k = VReceiving timed \<Longrightarrow>
    remote_descriptor time (mesh_target c raw) (srv_mesh s) = (remote, m) \<Longrightarrow> m' \<in> {srv_mesh s, m} \<Longrightarrow>
    v2_frame P on_curve c now \<lfloor>time\<rfloor> elapsed remote chal (vc_sid k) w raw (srv s) = (x, effs, nx) \<Longrightarrow>
    node_act incoming P on_curve c now s effs [] (set_v2_conn w k (v2_phase_after nx) (s\<lparr>srv := x, srv_mesh := m'\<rparr>))"
| v2_timed_out: "dget (v2_conns s) w = Some k \<Longrightarrow> vc_phase k = VReceiving True \<Longrightarrow> vc_deadline k \<le> now \<Longrightarrow>
    v2_timeout w (srv s) = (x, effs) \<Longrightarrow> node_act incoming P on_curve c now s effs [] (set_v2_conn w k VLeaving (s\<lparr>srv := x\<rparr>))"
| v2_disconnected: "dget (v2_conns s) w = Some k \<Longrightarrow> vc_phase k \<notin> {VLeaving} \<union> range VWithdrawing \<Longrightarrow>
    node_act incoming P on_curve c now s [] [] (set_v2_conn w k VLeaving s)"
| v2_registers: "dget (v2_conns s) w = Some k \<Longrightarrow> vc_phase k = VAsking (Register tag frame) \<Longrightarrow>
    register_local_route (tp_sha256 P) c time tag (vc_sid k) (srv_mesh s) (srv_hub s) = Inr (m, h, out) \<Longrightarrow>
    node_act incoming P on_curve c now s [] out (set_v2_conn w k (VReplying frame) (set_hub h s\<lparr>srv_mesh := m\<rparr>))"
| v2_unregisters: "dget (v2_conns s) w = Some k \<Longrightarrow> vc_phase k = VAsking (Unregister tag frame) \<Longrightarrow>
    remove_local_route (tp_sha256 P) c time tag (vc_sid k) (srv_mesh s) (srv_hub s) = Inr (m, h, out) \<Longrightarrow>
    node_act incoming P on_curve c now s [] out (set_v2_conn w k (VReplying frame) (set_hub h s\<lparr>srv_mesh := m\<rparr>))"
| v2_replies: "dget (v2_conns s) w = Some k \<Longrightarrow> vc_phase k = VReplying frame \<Longrightarrow>
    node_act incoming P on_curve c now s [SendFrame w frame] []
      (set_v2_conn w k VTop (set_hub (replicate_done failures (srv_hub s)) s))"
| v2_discovers: "dget (v2_conns s) w = Some k \<Longrightarrow> vc_phase k = VAsking (Discover tag local mid) \<Longrightarrow>
    discover_begin (tp_sha256 P) c time tag (srv_mesh s) (srv_hub s) = Inr (acc, asked, m, h) \<Longrightarrow>
    node_act incoming P on_curve c now s [] []
      (set_v2_conn w k (VQuerying tag local mid acc asked [] []) (set_hub h s\<lparr>srv_mesh := m\<rparr>))"
| v2_queries: "dget (v2_conns s) w = Some k \<Longrightarrow> vc_phase k = VQuerying tag local mid acc (x # asked) open_qs results \<Longrightarrow>
    query_owner c x query_id tag (srv_mesh s) (srv_hub s) = (ok, m, h, out) \<Longrightarrow>
    node_act incoming P on_curve c now s [] out
      (set_v2_conn w k (VQuerying tag local mid acc asked (if ok then open_qs @ [query_id] else open_qs) results)
        (set_hub h s\<lparr>srv_mesh := m\<rparr>))"
| v2_answered: "dget (v2_conns s) w = Some k \<Longrightarrow> vc_phase k = VQuerying tag local mid acc [] (q # open_qs) results \<Longrightarrow>
    query_done sent q (srv_mesh s) = (ds, m) \<Longrightarrow>
    node_act incoming P on_curve c now s [] []
      (set_v2_conn w k (VQuerying tag local mid acc [] open_qs (results @ [ds])) (s\<lparr>srv_mesh := m\<rparr>))"
| v2_discovered: "dget (v2_conns s) w = Some k \<Longrightarrow> vc_phase k = VQuerying tag local mid acc [] [] results \<Longrightarrow>
    discover_end c time acc results (srv_mesh s) (srv_hub s) = (found, m, h) \<Longrightarrow>
    node_act incoming P on_curve c now s [SendFrame w (v2_peers c (vc_sid k) tag local found mid)] []
      (set_v2_conn w k VTop (set_hub h s\<lparr>srv_mesh := m\<rparr>))"
| v2_forwards: "dget (v2_conns s) w = Some k \<Longrightarrow> vc_phase k = VAsking (Forward tag target frame payload) \<Longrightarrow>
    forward_signal c request_id tag target frame (srv_mesh s) (srv_hub s) = (None, m, h, out) \<Longrightarrow>
    node_act incoming P on_curve c now s [] out
      (set_v2_conn w k (VForwarding request_id (jget (dict_of frame) ''id'') payload) (set_hub h s\<lparr>srv_mesh := m\<rparr>))"
| v2_not_forwarded: "dget (v2_conns s) w = Some k \<Longrightarrow> vc_phase k = VAsking (Forward tag target frame payload) \<Longrightarrow>
    forward_signal c request_id tag target frame (srv_mesh s) (srv_hub s) = (Some b, m, h, out) \<Longrightarrow>
    finish_signal elapsed w (jget (dict_of frame) ''id'') payload b ((srv s)\<lparr>v2_hub := h\<rparr>) = (x, effs, nx) \<Longrightarrow>
    node_act incoming P on_curve c now s effs out (set_v2_conn w k VTop (s\<lparr>srv := x, srv_mesh := m\<rparr>))"
| v2_forwarded: "dget (v2_conns s) w = Some k \<Longrightarrow> vc_phase k = VForwarding request_id mid payload \<Longrightarrow>
    forward_done oc request_id (srv_mesh s) (srv_hub s) = (b, m, h) \<Longrightarrow>
    finish_signal elapsed w mid payload b ((srv s)\<lparr>v2_hub := h\<rparr>) = (x, effs, nx) \<Longrightarrow>
    node_act incoming P on_curve c now s effs [] (set_v2_conn w k VTop (s\<lparr>srv := x, srv_mesh := m\<rparr>))"
| v2_leaves: "dget (v2_conns s) w = Some k \<Longrightarrow> vc_phase k = VLeaving \<Longrightarrow>
    node_act incoming P on_curve c now s [] [] (set_v2_conn w k (VWithdrawing (fst (v2_leave (vc_sid k) (srv s)))) s)"
| v2_withdraws: "dget (v2_conns s) w = Some k \<Longrightarrow> vc_phase k = VWithdrawing (tag # tags) \<Longrightarrow>
    remove_local_route (tp_sha256 P) c time tag (vc_sid k) (srv_mesh s) (srv_hub s) = Inr (m, h, out) \<Longrightarrow>
    node_act incoming P on_curve c now s [] out
      (set_v2_conn w k (VWithdrawing tags) (set_hub (replicate_done failures h) s\<lparr>srv_mesh := m\<rparr>))"
| v2_left: "dget (v2_conns s) w = Some k \<Longrightarrow> vc_phase k = VWithdrawing [] \<Longrightarrow>
    node_act incoming P on_curve c now s [] []
      (s\<lparr>srv := snd (v2_leave (vc_sid k) (srv s)), v2_conns := dpop (v2_conns s) w\<rparr>)"
| admission: "admission_request P on_curve c now \<lfloor>time :: real\<rfloor> slot client chunks (srv s) = (answer, x) \<Longrightarrow>
    node_act incoming P on_curve c now s [] [] (s\<lparr>srv := x\<rparr>)"
| turn: "turn_request P isalnum hmac txt c now \<lfloor>time :: real\<rfloor> token client chunks (srv s) = (answer, x) \<Longrightarrow>
    node_act incoming P on_curve c now s [] [] (s\<lparr>srv := x\<rparr>)"
| linked: "accept_hello P c time w raw (srv_mesh s) (srv_hub s) = (LinkUp nid, m, h) \<Longrightarrow>
    node_act incoming P on_curve c now s [] []
      (set_hub h s\<lparr>srv_mesh := m, links := dset (links s) w (new_link nid w now)\<rparr>)"
| not_linked: "accept_hello P c time w raw (srv_mesh s) (srv_hub s) = (LinkClose, m, h) \<Longrightarrow>
    node_act incoming P on_curve c now s [] [] (set_hub h s\<lparr>srv_mesh := m\<rparr>)"
| dialled: "dget (trusted (srv_mesh s)) n = Some t \<Longrightarrow> node_id c < n \<Longrightarrow>
    dial_hello P c time w t answer delay (srv_mesh s) (srv_hub s) = (Some nid, delay', m, h) \<Longrightarrow>
    node_act incoming P on_curve c now s [] []
      (set_hub h s\<lparr>srv_mesh := m, links := dset (links s) w (new_link nid w now)\<rparr>)"
| not_dialled: "dget (trusted (srv_mesh s)) n = Some t \<Longrightarrow> node_id c < n \<Longrightarrow>
    dial_hello P c time w t answer delay (srv_mesh s) (srv_hub s) = (None, delay', m, h) \<Longrightarrow>
    node_act incoming P on_curve c now s [] [] (set_hub h s\<lparr>srv_mesh := m\<rparr>)"
| node_framed: "dget (links s) w = Some k \<Longrightarrow>
    node_frame P c time now k raw (srv_mesh s) (srv_hub s) = (k', m, h, out, effs, nx) \<Longrightarrow>
    incoming (link_node k) raw \<Longrightarrow>
    node_act incoming P on_curve c now s effs out (set_hub h s\<lparr>srv_mesh := m, links := dset (links s) w k'\<rparr>)"
| unlinked: "dget (links s) w = Some k \<Longrightarrow> link_down now k (srv_mesh s) (srv_hub s) = (removed, m, h) \<Longrightarrow>
    node_act incoming P on_curve c now s [] [] (set_hub h s\<lparr>srv_mesh := m, links := dpop (links s) w\<rparr>)"
| topology: "topology_changed (tp_sha256 P) c now (srv_mesh s) (srv_hub s) = Inr (work, m, h) \<Longrightarrow>
    node_act incoming P on_curve c now s [] [] (set_hub h s\<lparr>srv_mesh := m, rebalance := rebalance s @ work\<rparr>)"
| rebalances: "rebalance s = (tag, sid) # work \<Longrightarrow>
    register_local_route (tp_sha256 P) c time tag sid (srv_mesh s) (srv_hub s) = Inr (m, h, out) \<Longrightarrow>
    node_act incoming P on_curve c now s [] out
      (set_hub (replicate_done failures h) s\<lparr>srv_mesh := m, rebalance := work\<rparr>)"
| rebalanced: "node_act incoming P on_curve c now s [] [] (set_hub (topology_done (srv_hub s)) s)"
| ticks: "membership_tick c time now incarnation (srv_mesh s) (srv_hub s) = (m, h, out) \<Longrightarrow>
    node_act incoming P on_curve c now s [] out (set_hub h s\<lparr>srv_mesh := m\<rparr>)"

abbreviation server_act where
  "server_act \<equiv> node_act (\<lambda>nid raw. True)"

text \<open>\<^verbatim>\<open>uuid4\<close> does not repeat: a new session's id has not been issued before.\<close>

inductive server_step ::
  "trust_prims \<Rightarrow> (bytes \<Rightarrow> bool) \<Rightarrow> config \<Rightarrow> server \<Rightarrow> effect list \<Rightarrow> mesh_send list \<Rightarrow> server \<Rightarrow> bool"
  for P on_curve c where
  act: "srv_clock s \<le> now \<Longrightarrow> server_act P on_curve c now s effs out s' \<Longrightarrow>
    set (new_ids (srv_hub s) (srv_hub s')) \<inter> set (issued s) = {} \<Longrightarrow>
    server_step P on_curve c s effs out
      (s'\<lparr>srv_clock := now, issued := issued s @ new_ids (srv_hub s) (srv_hub s')\<rparr>)"

inductive server_steps :: "trust_prims \<Rightarrow> (bytes \<Rightarrow> bool) \<Rightarrow> config \<Rightarrow> server \<Rightarrow> server \<Rightarrow> bool" for P on_curve c where
  none: "server_steps P on_curve c s s"
| more: "server_steps P on_curve c s s' \<Longrightarrow> server_step P on_curve c s' effs out s'' \<Longrightarrow> server_steps P on_curve c s s''"

abbreviation server_next where
  "server_next P on_curve c s s' \<equiv> \<exists>effs out. server_step P on_curve c s effs out s'"

lemma server_steps_run: "server_steps P on_curve c s s' \<Longrightarrow> (server_next P on_curve c)\<^sup>*\<^sup>* s s'"
  by (induction rule: server_steps.induct) (auto intro: rtranclp.rtrancl_into_rtrancl)

text \<open>The state of the V2 endpoint as \<^verbatim>\<open>create_v2_router\<close> makes it, and the server as \<^verbatim>\<open>main.py\<close> builds it.\<close>

definition new_v2_state :: "config \<Rightarrow> real \<Rightarrow> node_trust \<Rightarrow> v2_state" where
  "new_v2_state c now tr =
     \<lparr>v2_hub = new_hub c now, v2_trust = tr,
      signal_limiter = new_bucket (real_of_int (signal_global_burst c)) (signal_global_per_second c) now,
      admission_lim = new_admission_limiter (real_of_int (admission_rate_burst c)) (admission_rate_per_second c)
        (real_of_int (admission_global_burst c)) (admission_global_per_second c) now,
      turn_lim = new_admission_limiter (real_of_int (turn_rate_burst c)) (turn_rate_per_second c)
        (real_of_int (turn_global_burst c)) (turn_global_per_second c) now\<rparr>"

declare new_v2_state_def [simp]

definition new_server :: "config \<Rightarrow> real \<Rightarrow> node_trust \<Rightarrow> mesh \<Rightarrow> server" where
  "new_server c now tr m =
     \<lparr>srv = new_v2_state c now tr, srv_mesh = m, v1_conns = [], v2_conns = [], links = [], rebalance = [],
      srv_clock = now, issued = []\<rparr>"

end
