(* ===== verification/Server_Invariant.thy ===== *)
theory Server_Invariant
  imports Server
begin

text \<open>
  The invariants of the whole server. Every step acts on the hub in one of three ways (a V1 step, a
  V2 frame, an effect of the mesh), and each keeps the hub invariant, the session limit, the
  authorisation rules of the sessions and the live entries of the replay cache.
\<close>

section \<open>Effects of a step on the hub\<close>

inductive srv_hub_step :: "trust_prims \<Rightarrow> (bytes \<Rightarrow> bool) \<Rightarrow> config \<Rightarrow> real \<Rightarrow> hub \<Rightarrow> hub \<Rightarrow> bool" for P on_curve c now where
  sh_v1: "hub_step (hub_prims P) c now h h' \<Longrightarrow> srv_hub_step P on_curve c now h h'"
| sh_v2: "v2_hub st = h \<Longrightarrow>
    srv_hub_step P on_curve c now h (v2_hub (fst (v2_frame P on_curve c now wall elapsed remote chal sid w raw st)))"
| sh_mesh: "mesh_hub (tp_float P) c now h h' \<Longrightarrow> srv_hub_step P on_curve c now h h'"

lemma sh_same: "srv_hub_step P on_curve c now h h"
  by (rule sh_mesh [OF mh_refl])

lemma set_simps [simp]:
  "srv_hub (set_hub h s) = h" "srv_mesh (set_hub h s) = srv_mesh s" "links (set_hub h s) = links s"
  "srv_hub (set_v2_conn w k ph s) = srv_hub s" "srv_mesh (set_v2_conn w k ph s) = srv_mesh s"
  "links (set_v2_conn w k ph s) = links s"
  by (simp_all add: set_hub_def set_v2_conn_def)

lemma http_try_hub:
  "mesh_hub frepr c now h (v2_hub st) \<Longrightarrow> (\<And>x. r = Inr x \<Longrightarrow> mesh_hub frepr c now h (v2_hub (snd (k x)))) \<Longrightarrow>
     mesh_hub frepr c now h (v2_hub (snd (http_try r st k)))"
  by (cases r) (simp_all add: http_try_def)

lemma admission_grant_hub:
  "mesh_hub frepr c now (v2_hub st) (v2_hub (snd (admission_grant P on_curve c wall key nonce st)))"
  unfolding admission_grant_def Let_def
  by (auto simp: mh_refl mh_metrics intro!: http_try_hub dest!: with_manifest_hub)

lemma admission_hub:
  "mesh_hub frepr c now (v2_hub st) (v2_hub (snd (admission_request P on_curve c t wall slot client chunks st)))"
proof -
  have "mesh_hub frepr c now (v2_hub st) (v2_hub (snd (admission_grant P on_curve c wall key nonce (st\<lparr>admission_lim := l\<rparr>))))"
    for l key nonce using admission_grant_hub [of frepr c now "st\<lparr>admission_lim := l\<rparr>"] by simp
  then show ?thesis
    unfolding admission_request_def Let_def case_prod_unfold
    by (auto simp: mh_refl mh_metrics intro!: http_try_hub split: sum.split)
qed

lemma turn_hub:
  "mesh_hub frepr c now (v2_hub st) (v2_hub (snd (turn_request P isalnum hmac txt c t wall token client chunks st)))"
  unfolding turn_request_def Let_def case_prod_unfold
  by (auto simp: mh_refl mh_metrics intro!: http_try_hub split: sum.split json.split)

lemma finish_signal_mesh_hub: "mesh_hub frepr c now h (v2_hub st) \<Longrightarrow> mesh_hub frepr c now h (v2_hub (fst (finish_signal elapsed w mid payload b st)))"
  by (simp add: finish_signal_def mh_metrics)

lemma replicate_done_hub: "mesh_hub frepr c now h h' \<Longrightarrow> mesh_hub frepr c now h (replicate_done n h')"
  by (simp add: replicate_done_def mh_metrics)

lemma v2_open_hub:
  assumes "v2_open c now allowed origin w sid st = Inr (x, effs, r)" "r = Rejected \<or> dget (sessions (v2_hub st)) sid = None"
  shows "srv_hub_step P on_curve c now (v2_hub st) (v2_hub x)"
  using assms sh_v1 [OF h_create [of "v2_hub st" sid c]] sh_mesh [OF mh_metrics [OF mh_refl]] sh_same
  by (auto simp: v2_open_def rbind_eq_Inr split: if_splits)

lemma v2_loop_top_hub: "mesh_hub frepr c now (v2_hub st) (v2_hub (fst (v2_loop_top t w k st)))"
  by (auto simp: v2_loop_top_def v2_timeout_def intro: mh_intros split: option.split)

lemmas mesh_effects = register_local_route_hub remove_local_route_hub discover_begin_hub discover_end_hub
  topology_changed_inv(2) membership_tick_inv(2) claim_connection_inv(2) link_down_inv(2)


section \<open>The trusted set never changes\<close>

lemma mesh_replicate_trusted: "mesh_replicate sha c time t tag d m h = Inr (m', h', out) \<Longrightarrow> trusted m' = trusted m"
proof -
  have "trusted (fst (replicate_to c time t tag d os m h)) = trusted m" for os
    by (induction os arbitrary: m h) (simp_all add: case_prod_unfold)
  then show "mesh_replicate sha c time t tag d m h = Inr (m', h', out) \<Longrightarrow> trusted m' = trusted m"
    by (auto simp: mesh_replicate_def rbind_eq_Inr) (metis fst_conv)
qed

lemma register_trusted: "register_local_route sha c time tag sid m h = Inr (m', h', out) \<Longrightarrow> trusted m' = trusted m"
  by (auto simp: register_local_route_def split: option.splits dest: mesh_replicate_trusted)

lemma remove_trusted: "remove_local_route sha c time tag sid m h = Inr (m', h', out) \<Longrightarrow> trusted m' = trusted m"
  by (auto simp: remove_local_route_def dest: mesh_replicate_trusted)

lemma collect_trusted: "collect c time ds (acc, m, h) = (acc', m', h') \<Longrightarrow> trusted m' = trusted m"
proof (induction ds arbitrary: acc m h)
  case (Cons d ds)
  obtain ok m1 h1 where 1: "cache_descriptor c time d m h = (ok, m1, h1)" by (metis prod_cases3)
  then have "trusted m1 = trusted m" by (auto simp: cache_descriptor_def split: json.splits if_splits)
  moreover have "trusted m' = trusted m1" by (rule Cons.IH) (use Cons.prems 1 in \<open>auto simp: collect_def\<close>)
  ultimately show ?case by simp
qed (simp add: collect_def)

lemma prune_trusted [simp]: "trusted (mesh_prune_routes time m) = trusted m"
  by (simp add: mesh_prune_routes_def Let_def)

lemma discover_begin_trusted: "discover_begin sha c time tag m h = Inr (acc, asked, m', h') \<Longrightarrow> trusted m' = trusted m"
  by (auto simp: discover_begin_def Let_def rbind_eq_Inr split: prod.splits dest: collect_trusted)

lemma discover_end_trusted: "discover_end c time acc rs m h = (ds, m', h') \<Longrightarrow> trusted m' = trusted m"
  by (auto simp: discover_end_def split: prod.splits dest: collect_trusted)

lemma pending_trusted [simp]:
  "trusted (fst (snd (query_owner c w q tag m h))) = trusted m" "trusted (snd (query_done sent q m)) = trusted m"
  "trusted (fst (snd (forward_signal c rid tag target out m h))) = trusted m"
  "trusted (fst (snd (forward_done oc rid m h))) = trusted m" "trusted (snd (remote_descriptor time target m)) = trusted m"
  by (simp_all add: query_owner_def query_done_def forward_signal_def forward_done_def remote_descriptor_def Let_def
      split: option.split ack_outcome.split)

lemma topology_trusted: "topology_changed sha c now m h = Inr (work, m', h') \<Longrightarrow> trusted m' = trusted m"
  by (auto simp: topology_changed_def case_prod_unfold rbind_eq_Inr)

lemma claim_trusted: "claim_connection nid w m h = (ok, m', h') \<Longrightarrow> trusted m' = trusted m"
  by (auto simp: claim_connection_def split: option.splits if_splits)

lemma accept_trusted: "accept_hello P c time w raw m h = (r, m', h') \<Longrightarrow> trusted m' = trusted m"
  by (auto simp: accept_hello_def dest: claim_trusted split: option.splits if_splits sum.splits exn.splits prod.splits)

lemma accept_LinkUp:
  assumes "accept_hello P c time w raw m h = (LinkUp nid, m', h')"
  shows "nid \<in> set (dkeys (trusted m))" "nid < node_id c"
proof -
  obtain first where "authenticate_hello P c time m None first = Inr (Some nid)" "\<not> nid \<ge> node_id c"
    using assms by (auto simp: accept_hello_def split: option.splits if_splits sum.splits exn.splits prod.splits)
  then show "nid \<in> set (dkeys (trusted m))" "nid < node_id c"
    using authenticated_proof peer_proof_trusted by (blast, simp)
qed

lemma mesh_try_trusted: "(\<And>x. r = Inr x \<Longrightarrow> trusted (fst (k x)) = trusted m) \<Longrightarrow> trusted (fst (mesh_try r m h k)) = trusted m"
  by (cases r) (simp_all add: mesh_try_def)

lemma handlers_trusted [simp]:
  "trusted (fst (handle_route_update sha c time nid t payload m h)) = trusted m"
  "trusted (fst (handle_route_query c time w payload m h)) = trusted m"
  "trusted (fst (handle_signal_forward frepr c now w payload m h)) = trusted m"
  "trusted (fst (handle_node_state c time now nid payload m h)) = trusted m"
proof -
  show "trusted (fst (handle_route_update sha c time nid t payload m h)) = trusted m"
    unfolding handle_route_update_def Let_def case_prod_unfold by (auto intro!: mesh_try_trusted)
  show "trusted (fst (handle_route_query c time w payload m h)) = trusted m"
    by (simp add: handle_route_query_def Let_def split: json.split)
  show "trusted (fst (handle_signal_forward frepr c now w payload m h)) = trusted m"
    unfolding handle_signal_forward_def Let_def by (auto intro!: mesh_try_trusted split: json.split)
  show "trusted (fst (handle_node_state c time now nid payload m h)) = trusted m"
    by (simp add: handle_node_state_def Let_def)
qed

lemma handle_node_message_trusted: "trusted (fst (handle_node_message P c time now nid w d m h)) = trusted m"
  unfolding handle_node_message_def Let_def case_prod_unfold by (simp add: mesh_try_trusted)

lemma node_frame_trusted: "trusted (fst (snd (node_frame P c time now k raw m h))) = trusted m"
  by (simp add: node_frame_def node_data_def Let_def case_prod_unfold handle_node_message_trusted
      split: option.split sum.split exn.split bool.split)

lemma dialled_trusted:
  assumes "authenticate_hello P c time m (Some t) message = Inr (Some nid)"
  shows "nid = tn_node_id t"
  using assms unfolding authenticate_hello_def Let_def
  by (auto elim!: rbindE split: if_splits option.splits)

lemma dial_hello_inv:
  assumes "mesh_inv c m" "dget (trusted m) n = Some t" "dial_hello P c time w t raw delay m h = (r, delay', m', h')"
  shows "mesh_inv c m' \<and> mesh_hub frepr c now h h' \<and> trusted m' = trusted m \<and>
    (\<forall>nid. r = Some nid \<longrightarrow> nid \<in> set (dkeys (trusted m)))"
proof -
  have n: "tn_node_id t = n" "n \<in> set (dkeys (trusted m))"
    using mesh_invD(3) [OF assms(1)] assms(2) by (auto simp: members_inv_def dest: dget_Some_key)
  consider "r = None" "m' = m" "mesh_hub frepr c now h h'"
    | ok m1 h1 where "claim_connection n w m h = (ok, m1, h1)" "m' = m1" "mesh_hub frepr c now h1 h'" "r = None \<or> r = Some n"
    using assms(3) dialled_trusted [of P c time m t] n(1)
    by (fastforce simp: dial_hello_def Let_def mh_refl mh_metrics split: sum.splits option.splits prod.splits if_splits)
  then show ?thesis
  proof cases
    case 2
    then show ?thesis
      using claim_connection_inv(1) [OF assms(1) n(2) 2(1)] claim_connection_inv(2) [OF assms(1) n(2) 2(1), of frepr now]
        claim_trusted [OF 2(1)] n(2) mh_trans by auto
  qed (use assms(1) in simp)
qed

section \<open>Every step\<close>

definition links_ok :: "server \<Rightarrow> bool" where
  "links_ok s \<longleftrightarrow> (\<forall>w k. dget (links s) w = Some k \<longrightarrow> link_node k \<in> set (dkeys (trusted (srv_mesh s))))"

lemma links_ok_same: "links_ok s \<Longrightarrow> links s' = links s \<Longrightarrow> trusted (srv_mesh s') = trusted (srv_mesh s) \<Longrightarrow> links_ok s'"
  by (simp add: links_ok_def)

lemma links_ok_add:
  "links_ok s \<Longrightarrow> links s' = dset (links s) w k \<Longrightarrow> trusted (srv_mesh s') = trusted (srv_mesh s) \<Longrightarrow>
     link_node k \<in> set (dkeys (trusted (srv_mesh s))) \<Longrightarrow> links_ok s'"
  by (auto simp: links_ok_def dget_dset split: if_splits)

text \<open>What one step keeps.\<close>

definition act_ok :: "trust_prims \<Rightarrow> (bytes \<Rightarrow> bool) \<Rightarrow> config \<Rightarrow> real \<Rightarrow> server \<Rightarrow> server \<Rightarrow> bool" where
  "act_ok P on_curve c now s s' \<longleftrightarrow>
     srv_hub_step P on_curve c now (srv_hub s) (srv_hub s') \<and> mesh_inv c (srv_mesh s') \<and> links_ok s'"

lemma act_okI:
  assumes "srv_hub_step P on_curve c now (srv_hub s) (srv_hub s')" "mesh_inv c (srv_mesh s')"
    "trusted (srv_mesh s') = trusted (srv_mesh s)" "links s' = links s" "links_ok s"
  shows "act_ok P on_curve c now s s'"
  using assms links_ok_same unfolding act_ok_def by blast

lemma act_okM:
  assumes "mesh_hub (tp_float P) c now (srv_hub s) (srv_hub s')" "mesh_inv c (srv_mesh s')"
    "trusted (srv_mesh s') = trusted (srv_mesh s)" "links s' = links s" "links_ok s"
  shows "act_ok P on_curve c now s s'"
  using act_okI [OF sh_mesh] assms by blast


lemma part_eqs: "f x = (a, b) \<Longrightarrow> a = fst (f x) \<and> b = snd (f x)"
  by simp

lemma server_act_ok:
  assumes "server_act P on_curve c now s effs out s'" and inv: "mesh_inv c (srv_mesh s)" and lk: "links_ok s"
  shows "act_ok P on_curve c now s s'"
  using assms(1)
proof cases
  case (v1 t)
  have "hub_step (hub_prims P) c now (srv_hub s) (v1_hub t)"
    using step_hub [OF v1(3)] v1(4) by (simp add: v1_part_def)
  then show ?thesis using v1 inv lk by (intro act_okI sh_v1) simp_all
next
  case (v2_refused allowed origin w sid x)
  then show ?thesis using inv lk v2_open_hub [OF v2_refused(3)] by (intro act_okI) simp_all
next
  case (v2_opened allowed origin w sid x dl)
  then show ?thesis using inv lk v2_open_hub [OF v2_opened(3)] by (intro act_okI) simp_all
next
  case (v2_turn w k x ph)
  then show ?thesis using inv lk v2_loop_top_hub [of "tp_float P" c now "srv s" now w k] by (intro act_okM) simp_all
next
  case (v2_received w k timed time raw remote m m' elapsed chal x nx)
  have "mesh_inv c m'" "trusted m' = trusted (srv_mesh s)"
    using v2_received(5,6) inv remote_descriptor_inv [OF inv, of time "mesh_target c raw"]
      pending_trusted(5) [of time "mesh_target c raw" "srv_mesh s"] by auto
  then show ?thesis
    using v2_received lk sh_v2 [of "srv s" "srv_hub s" P on_curve c now "\<lfloor>time\<rfloor>" elapsed remote chal "vc_sid k" w raw]
    by (intro act_okI) simp_all
next
  case (v2_timed_out w k x)
  then show ?thesis using inv lk by (intro act_okM) (auto simp: v2_timeout_def mh_refl mh_metrics)
next
  case (v2_disconnected w k)
  then show ?thesis using inv lk by (intro act_okM) (simp_all add: mh_refl)
next
  case (v2_registers w k tag frame time m h)
  then show ?thesis
    using lk register_local_route_inv [OF inv] register_local_route_hub register_trusted by (intro act_okM) simp_all
next
  case (v2_unregisters w k tag frame time m h)
  then show ?thesis
    using lk remove_local_route_inv [OF inv] remove_local_route_hub remove_trusted by (intro act_okM) simp_all
next
  case (v2_replies w k frame failures)
  then show ?thesis using inv lk by (intro act_okM) (simp_all add: replicate_done_hub mh_refl)
next
  case (v2_discovers w k tag local mid time acc asked m h)
  then show ?thesis
    using lk discover_begin_inv [OF inv] discover_begin_hub discover_begin_trusted by (intro act_okM) simp_all
next
  case (v2_queries w k tag local mid acc x asked open_qs results query_id ok m h)
  then show ?thesis
    using lk query_owner_inv [OF inv, of x query_id tag "srv_hub s"] query_owner_hub [of "tp_float P" c now "srv_hub s" x query_id tag "srv_mesh s"]
      pending_trusted(1) [of c x query_id tag "srv_mesh s" "srv_hub s"] by (intro act_okM) simp_all
next
  case (v2_answered w k tag local mid acc q open_qs results sent ds m)
  then show ?thesis
    using lk query_done_inv [OF inv, of sent q] pending_trusted(2) [of sent q "srv_mesh s"]
    by (intro act_okM) (simp_all add: mh_refl)
next
  case (v2_discovered w k tag local mid acc results time found m h)
  then show ?thesis
    using lk discover_end_inv [OF inv] discover_end_hub discover_end_trusted by (intro act_okM) simp_all
next
  case (v2_forwards w k tag target frame payload request_id m h)
  then show ?thesis
    using lk forward_signal_inv [OF inv, of request_id tag target frame "srv_hub s"]
      forward_signal_hub [of "tp_float P" c now "srv_hub s" request_id tag target frame "srv_mesh s"]
      pending_trusted(3) [of c request_id tag target frame "srv_mesh s" "srv_hub s"] by (intro act_okM) simp_all
next
  case (v2_not_forwarded w k tag target frame payload request_id b m h elapsed x nx)
  then show ?thesis
    using lk forward_signal_inv [OF inv, of request_id tag target frame "srv_hub s"]
      forward_signal_hub [of "tp_float P" c now "srv_hub s" request_id tag target frame "srv_mesh s"]
      pending_trusted(3) [of c request_id tag target frame "srv_mesh s" "srv_hub s"]
      finish_signal_mesh_hub [of "tp_float P" c now "srv_hub s" "(srv s)\<lparr>v2_hub := h\<rparr>" elapsed w "jget (dict_of frame) ''id''" payload b]
    by (intro act_okM) auto
next
  case (v2_forwarded w k request_id mid payload oc b m h elapsed x nx)
  then show ?thesis
    using lk forward_done_inv [OF inv, of oc request_id "srv_hub s"]
      forward_done_hub [of "tp_float P" c now "srv_hub s" oc request_id "srv_mesh s"]
      pending_trusted(4) [of oc request_id "srv_mesh s" "srv_hub s"]
      finish_signal_mesh_hub [of "tp_float P" c now "srv_hub s" "(srv s)\<lparr>v2_hub := h\<rparr>" elapsed w mid payload b]
    by (intro act_okM) auto
next
  case (v2_leaves w k)
  then show ?thesis using inv lk by (intro act_okM) (simp_all add: mh_refl)
next
  case (v2_withdraws w k tag tags time m h failures)
  then show ?thesis
    using lk remove_local_route_inv [OF inv] remove_local_route_hub remove_trusted
    by (intro act_okM) (simp_all add: replicate_done_hub)
next
  case (v2_left w k)
  then show ?thesis
    using inv lk sh_v1 [OF h_remove [of "hub_prims P" c now "srv_hub s" "vc_sid k"]]
    by (intro act_okI) (simp_all add: v2_leave_def)
next
  case (admission time slot client chunks answer x)
  then show ?thesis
    using inv lk admission_hub [of "tp_float P" c now "srv s" P on_curve now "\<lfloor>time\<rfloor>" slot client chunks]
    by (intro act_okM) simp_all
next
  case (turn isalnum hmac texts time token client chunks answer x)
  then show ?thesis
    using inv lk turn_hub [of "tp_float P" c now "srv s" P isalnum hmac texts now "\<lfloor>time\<rfloor>" token client chunks]
    by (intro act_okM) simp_all
next
  case (linked time w raw nid m h)
  then show ?thesis
    using accept_hello_inv [OF inv linked(4), of "tp_float P" now] accept_trusted [OF linked(4)] accept_LinkUp(1) [OF linked(4)]
      links_ok_add [OF lk, of s' w "new_link nid w now"]
    by (simp add: act_ok_def sh_mesh new_link_def)
next
  case (not_linked time w raw m h)
  then show ?thesis
    using lk accept_hello_inv [OF inv not_linked(4), of "tp_float P" now] accept_trusted [OF not_linked(4)]
    by (intro act_okM) simp_all
next
  case (dialled n t time w answer delay nid delay' m h)
  note d = dial_hello_inv [OF inv dialled(4,6), of "tp_float P" now]
  then show ?thesis
    using links_ok_add [OF lk, of s' w "new_link nid w now"] dialled by (simp add: act_ok_def sh_mesh new_link_def)
next
  case (not_dialled n t time w answer delay delay' m h)
  note d = dial_hello_inv [OF inv not_dialled(4,6), of "tp_float P" now]
  then show ?thesis using lk not_dialled by (intro act_okM) simp_all
next
  case (node_framed w k time raw k' m h nx)
  have k: "link_node k \<in> set (dkeys (trusted (srv_mesh s)))" using lk node_framed(2) by (simp add: links_ok_def)
  note f = node_frame_kept [OF inv k, where P = P and now = now and h = "srv_hub s" and time = time and raw = raw] node_frame_trusted [of P c time now k raw "srv_mesh s" "srv_hub s"]
  have "links_ok s'"
    by (rule links_ok_add [OF lk, of s' w k']) (use node_framed f k in simp_all)
  then show ?thesis using node_framed f by (simp add: act_ok_def mesh_kept_def sh_mesh)
next
  case (unlinked w k removed m h)
  have t: "trusted m = trusted (srv_mesh s)" using unlinked(5) by (auto simp: link_down_def Let_def)
  have "links_ok s'" using lk unlinked t by (auto simp: links_ok_def dget_dpop split: if_splits)
  then show ?thesis
    using unlinked link_down_inv(1) [OF inv unlinked(5)] link_down_inv(2) [OF inv unlinked(5), of "tp_float P" now] by (simp add: act_ok_def sh_mesh)
next
  case (topology work m h)
  then show ?thesis
    using lk topology_changed_inv(1) [OF inv topology(4)] topology_changed_inv(2) [OF inv topology(4), of "tp_float P" now] topology_trusted [OF topology(4)]
    by (intro act_okM) simp_all
next
  case (rebalances tag sid work time m h failures)
  then show ?thesis
    using lk register_local_route_inv [OF inv] register_local_route_hub register_trusted
    by (intro act_okM) (simp_all add: replicate_done_hub)
next
  case rebalanced
  then show ?thesis using inv lk by (intro act_okM) (simp_all add: topology_done_def mh_refl mh_metrics)
next
  case (ticks time incarnation m h)
  have "trusted m = trusted (srv_mesh s)"
    using ticks(3) by (auto simp: membership_tick_def case_prod_unfold)
  then show ?thesis
    using ticks lk membership_tick_inv(1) [OF inv ticks(3)] membership_tick_inv(2) [OF inv ticks(3), of "tp_float P" now] by (intro act_okM) simp_all
qed


section \<open>Sessions\<close>

text \<open>How a session can change in one step: along an edge of the V1 or of the V2 state machine.\<close>

definition srv_evolved :: "trust_prims \<Rightarrow> (bytes \<Rightarrow> bool) \<Rightarrow> config \<Rightarrow> pystr \<Rightarrow> session \<Rightarrow> session \<Rightarrow> bool" where
  "srv_evolved P on_curve c sid s s' \<longleftrightarrow> evolved (hub_prims P) c s s' \<or>
     (\<exists>m tr wall. v2_move_ok P on_curve c wall tr sid s m \<and> auth_view s' = auth_view (v2_apply P m s))"

lemma mesh_hub_views:
  "mesh_hub frepr c now h h' \<Longrightarrow> map_option auth_view (dget (sessions h') x) = map_option auth_view (dget (sessions h) x)"
  by (induction rule: mesh_hub.induct) (simp_all add: send_views)

lemma v2_frame_session:
  assumes "hub_inv c (v2_hub st)" "post_init c = Inr ()"
    "dget (sessions (v2_hub (fst (v2_frame P on_curve c now wall elapsed remote chal sid w raw st)))) x = Some s'"
  shows "\<exists>s. dget (sessions (v2_hub st)) x = Some s \<and> srv_evolved P on_curve c x s s'"
proof (cases "dget (sessions (v2_hub st)) sid")
  case None
  then show ?thesis using v2_frame_gone(1) [OF None] assms(3) evolved_same unfolding srv_evolved_def by fastforce
next
  case (Some s)
  let ?h' = "v2_hub (fst (v2_frame P on_curve c now wall elapsed remote chal sid w raw st))"
  have mv: "v2_moved P on_curve c wall (v2_trust st) sid s (v2_hub st) ?h'"
    using v2_frame_kept [OF assms(1) Some assms(2)] by (simp add: v2_kept_def)
  show ?thesis
  proof (cases "x = sid")
    case True
    then show ?thesis using mv Some assms(3) unfolding v2_moved_def srv_evolved_def by force
  next
    case False
    then have "map_option auth_view (dget (sessions (v2_hub st)) x) = Some (auth_view s')"
      using mv assms(3) unfolding v2_moved_def by (metis option.simps(9))
    then show ?thesis using evolved_same unfolding srv_evolved_def by fastforce
  qed
qed

lemma srv_hub_session:
  assumes "srv_hub_step P on_curve c now h h'" "hub_inv c h" "post_init c = Inr ()" "dget (sessions h') x = Some s'"
  shows "(\<exists>w. dget (sessions h) x = None \<and> s' = new_session w now) \<or>
    (\<exists>s. dget (sessions h) x = Some s \<and> srv_evolved P on_curve c x s s')"
  using assms(1)
proof cases
  case sh_v1
  then show ?thesis using hub_step_session [OF sh_v1 assms(2,4)] unfolding srv_evolved_def by blast
next
  case (sh_v2 st wall elapsed remote chal sid w raw)
  then show ?thesis using v2_frame_session [of c st P on_curve] assms(2-4) by blast
next
  case sh_mesh
  then have "map_option auth_view (dget (sessions h) x) = Some (auth_view s')"
    using mesh_hub_views [OF sh_mesh, of x] assms(4) by simp
  then show ?thesis using evolved_same unfolding srv_evolved_def by fastforce
qed

lemma session_ok_v2_move:
  assumes "session_ok n s" "v2_move_ok P on_curve c wall tr sid s m" "max_routes_per_session c \<le> n"
  shows "session_ok n (v2_apply P m s)"
proof (cases m)
  case (VDetaches rid)
  have "int (length (sess_routes s)) \<le> n" using assms(1) by (simp add: session_ok_def)
  then have "int (length (removeAll rid (sess_routes s))) \<le> n"
    by (rule order_trans [rotated]) (simp add: removeAll_filter_neq)
  then show ?thesis using assms(1,2) VDetaches by (auto simp: session_ok_def)
qed (use assms in \<open>auto simp: session_ok_def verify_signature_def List.insert_def split: if_splits\<close>)

lemma session_ok_srv_evolved:
  assumes "session_ok n s" "srv_evolved P on_curve c sid s s'" "max_routes_per_session c \<le> n"
    "max_v1_routes_per_session c \<le> n"
  shows "session_ok n s'"
  using assms session_ok_evolved session_ok_v2_move session_ok_view unfolding srv_evolved_def by metis

section \<open>The invariant\<close>

definition route_limit :: "config \<Rightarrow> int" where
  "route_limit c = max (max_routes_per_session c) (max_v1_routes_per_session c)"

definition srv_inv :: "config \<Rightarrow> server \<Rightarrow> bool" where
  "srv_inv c s \<longleftrightarrow> hub_inv c (srv_hub s) \<and> sessions_ok (route_limit c) (srv_hub s) \<and>
     session_count (srv_hub s) \<le> max_concurrency c \<and> mesh_inv c (srv_mesh s) \<and> links_ok s"

lemma srv_hub_inv:
  assumes "srv_hub_step P on_curve c now h h'" "hub_inv c h" "post_init c = Inr ()"
  shows "hub_inv c h'"
  using assms(1)
proof cases
  case (sh_v2 st wall elapsed remote chal sid w raw)
  then show ?thesis
    using v2_frame_kept [of c st sid _ P on_curve wall now] v2_frame_gone(2) [of st sid c] assms(2,3)
    by (cases "dget (sessions (v2_hub st)) sid") (auto simp: v2_kept_def)
qed (use assms hub_step_inv mesh_hub_inv in blast)+

lemma srv_hub_sessions_ok:
  assumes "srv_hub_step P on_curve c now h h'" "hub_inv c h" "post_init c = Inr ()" "sessions_ok (route_limit c) h"
  shows "sessions_ok (route_limit c) h'"
proof -
  have n: "max_routes_per_session c \<le> route_limit c" "max_v1_routes_per_session c \<le> route_limit c" "0 \<le> route_limit c"
    using server_config.limits_positive(2) [of c] assms(3) by (simp_all add: route_limit_def server_config_def)
  have "session_ok (route_limit c) s'" if s': "dget (sessions h') x = Some s'" for x s'
    using srv_hub_session [OF assms(1-3) s']
  proof (elim disjE exE conjE)
    fix s assume "dget (sessions h) x = Some s" "srv_evolved P on_curve c x s s'"
    then show ?thesis using assms(4) n session_ok_srv_evolved unfolding sessions_ok_def by blast
  qed (simp add: session_ok_new n)
  then show ?thesis by (simp add: sessions_ok_def)
qed

lemma srv_hub_dom:
  assumes "srv_hub_step P on_curve c now h h'" "hub_inv c h" "post_init c = Inr ()"
  shows "dom (dget (sessions h')) \<subseteq> dom (dget (sessions h)) \<or> hub_step (hub_prims P) c now h h'"
  using assms(1)
proof cases
  case (sh_v2 st wall elapsed remote chal sid w raw)
  then show ?thesis using v2_frame_session [of c st P on_curve] assms(2,3) by blast
next
  case sh_mesh
  have "dget (sessions h) x \<noteq> None" if "dget (sessions h') x = Some y" for x y
    using mesh_hub_views [OF sh_mesh, of x] that by (cases "dget (sessions h) x") simp_all
  then show ?thesis by blast
qed blast

lemma srv_hub_count:
  assumes "srv_hub_step P on_curve c now h h'" "hub_inv c h" "post_init c = Inr ()" "session_count h \<le> max_concurrency c"
  shows "session_count h' \<le> max_concurrency c"
  using srv_hub_dom [OF assms(1-3)]
proof
  assume "dom (dget (sessions h')) \<subseteq> dom (dget (sessions h))"
  then have "length (sessions h') \<le> length (sessions h)"
    using assms(2) srv_hub_inv [OF assms(1-3)] by (intro wf_length_mono) (auto dest: hub_invD(7))
  then show ?thesis using assms(4) by (simp add: session_count_def)
next
  assume "hub_step (hub_prims P) c now h h'"
  then show ?thesis using hub_step_count assms(2,4) srv_hub_inv [OF assms(1-3)] by blast
qed

lemma srv_inv_act:
  assumes "post_init c = Inr ()" "srv_inv c s" "act_ok P on_curve c now s s'"
  shows "srv_inv c s'"
  using assms srv_hub_inv srv_hub_sessions_ok srv_hub_count unfolding srv_inv_def act_ok_def by blast

lemma srv_inv_step:
  assumes "post_init c = Inr ()" "srv_inv c s" "server_step P on_curve c s effs out s'"
  shows "srv_inv c s'"
  using assms(3)
proof cases
  case (act now t)
  have "act_ok P on_curve c now s t" using server_act_ok [OF act(3)] assms(2) by (simp add: srv_inv_def)
  then have "srv_inv c t" by (rule srv_inv_act [OF assms(1,2)])
  then show ?thesis using act(1) by (simp add: srv_inv_def links_ok_def)
qed

interpretation srv: preserved "server_next P on_curve c" "\<lambda>s. post_init c = Inr () \<and> srv_inv c s" for P on_curve c
  by unfold_locales (auto intro: srv_inv_step)

lemma srv_inv_steps: "server_steps P on_curve c s s' \<Longrightarrow> post_init c = Inr () \<Longrightarrow> srv_inv c s \<Longrightarrow> srv_inv c s'"
  using srv.run_inv [OF server_steps_run] by blast

lemma new_mesh_inv:
  assumes "post_init c = Inr ()" "node_mesh_init c values = Inr m"
  shows "mesh_inv c m"
proof -
  have step: "parse_nodes (v # vs) acc = Inr tn \<Longrightarrow>
      \<exists>n t. tn_node_id t = n \<and> parse_nodes vs (dset acc n t) = Inr tn" for v vs acc tn
    by (cases v) (auto simp: Let_def split: if_splits intro!: exI [of _ "trusted_node.make _ _ _"] simp: trusted_node.make_def)
  have parsed: "parse_nodes vs acc = Inr tn \<Longrightarrow> wf_dict acc \<Longrightarrow> (\<forall>n t. dget acc n = Some t \<longrightarrow> tn_node_id t = n) \<Longrightarrow>
      wf_dict tn \<and> (\<forall>n t. dget tn n = Some t \<longrightarrow> tn_node_id t = n)" for vs acc tn
  proof (induction vs arbitrary: acc)
    case (Cons v vs)
    obtain n t where "tn_node_id t = n" "parse_nodes vs (dset acc n t) = Inr tn" using step [OF Cons.prems(1)] by blast
    then show ?case using Cons.prems(2,3) by (intro Cons.IH [of "dset acc n t"]) (simp_all add: wf_dset dget_dset)
  qed simp
  obtain tn where tn: "parse_trusted_nodes values = Inr tn" "node_id c \<notin> set (dkeys tn)" "m = new_mesh c tn"
    using assms(2) by (auto simp: node_mesh_init_def rbind_eq_Inr)
  have "wf_dict tn \<and> (\<forall>n t. dget tn n = Some t \<longrightarrow> tn_node_id t = n)"
    using tn(1) parsed [of _ "[]"] by (auto simp: parse_trusted_nodes_def split: option.splits json.splits if_splits)
  moreover have "128 \<le> node_mesh_max_route_descriptors c" "1 \<le> node_mesh_max_pending_operations c"
    using server_config.mesh_limits [of c] assms(1) by (simp_all add: server_config_def)
  ultimately show ?thesis
    using tn(2) by (intro mesh_invI)
      (auto simp: tn(3) new_mesh_def registry_inv_def cache_inv_def members_inv_def pending_inv_def
        pending_operation_count_def membership_universe_def)
qed

lemma srv_inv_new:
  assumes "post_init c = Inr ()" "node_mesh_init c values = Inr m"
  shows "srv_inv c (new_server c now tr m)"
proof -
  have "1 \<le> max_concurrency c"
    using server_config.limits_positive(4) [of c] assms(1) by (simp add: server_config_def)
  then show ?thesis
    using hub_inv_new [OF assms(1), of now] new_mesh_inv [OF assms]
    by (simp add: srv_inv_def new_server_def links_ok_def sessions_ok_def session_count_def) (simp add: new_hub_def)
qed

end
