(* ===== verification/Server_History.thy ===== *)
theory Server_History
  imports Server_Invariant
begin

text \<open>
  What the server remembers along a run: live entries of the replay cache stay, session ids are
  never reused, the sequence numbers a session has sent only grow; and the abstract protocol of a
  session, which every step of the server follows.
\<close>

section \<open>The replay cache\<close>

lemma keeps_seen_trans: "keeps_seen now h h' \<Longrightarrow> keeps_seen now h' h'' \<Longrightarrow> keeps_seen now h h''"
  by (simp add: keeps_seen_def)

lemma mesh_hub_seen:
  "mesh_hub frepr c now h h' \<Longrightarrow> post_init c = Inr () \<Longrightarrow> hub_inv c h \<Longrightarrow> keeps_seen now h h'"
proof (induction rule: mesh_hub.induct)
  case (mh_mark h h' k ttl)
  have "hub_inv c h'" using mesh_hub_inv mh_mark by blast
  then show ?case using mh_mark keeps_seen_mark keeps_seen_trans by blast
next
  case (mh_send h h' sid data ok h'' effs)
  then show ?case using send_seen keeps_seen_same keeps_seen_trans by metis
qed (simp_all add: keeps_seen_def)

lemma srv_hub_seen:
  assumes "srv_hub_step P on_curve c now h h'" "hub_inv c h" "post_init c = Inr ()"
  shows "keeps_seen now h h'"
  using assms(1)
proof cases
  case sh_v1
  then show ?thesis using hub_step_seen [OF sh_v1 assms(2)] by (simp add: keeps_seen_def)
qed (use assms v2_frame_seen mesh_hub_seen in blast)+

lemma server_step_hub:
  assumes "server_step P on_curve c s effs out s'" "srv_inv c s"
  shows "srv_hub_step P on_curve c (srv_clock s') (srv_hub s) (srv_hub s')" "srv_clock s \<le> srv_clock s'"
    "issued s' = issued s @ new_ids (srv_hub s) (srv_hub s')"
    "set (new_ids (srv_hub s) (srv_hub s')) \<inter> set (issued s) = {}"
proof -
  have "srv_hub_step P on_curve c (srv_clock s') (srv_hub s) (srv_hub s') \<and> srv_clock s \<le> srv_clock s' \<and>
    issued s' = issued s @ new_ids (srv_hub s) (srv_hub s') \<and> set (new_ids (srv_hub s) (srv_hub s')) \<inter> set (issued s) = {}"
    using assms(1)
  proof cases
    case (act now t)
    then show ?thesis using server_act_ok [OF act(3)] assms(2) by (simp add: srv_inv_def act_ok_def)
  qed
  then show "srv_hub_step P on_curve c (srv_clock s') (srv_hub s) (srv_hub s')" "srv_clock s \<le> srv_clock s'"
    "issued s' = issued s @ new_ids (srv_hub s) (srv_hub s')"
    "set (new_ids (srv_hub s) (srv_hub s')) \<inter> set (issued s) = {}" by blast+
qed

lemma steps_seen:
  assumes "server_steps P on_curve c s s'" "post_init c = Inr ()" "srv_inv c s"
    "dget (seen (srv_hub s)) k = Some e" "srv_clock s' < e"
  shows "dget (seen (srv_hub s')) k = Some e"
  using assms
proof (induction rule: server_steps.induct)
  case (more s s' effs out s'')
  have inv: "srv_inv c s'" using srv_inv_steps more by blast
  note st = server_step_hub [OF more(2) inv]
  have "dget (seen (srv_hub s')) k = Some e" using more st(2) by simp
  moreover have "keeps_seen (srv_clock s'') (srv_hub s') (srv_hub s'')"
    using srv_hub_seen [OF st(1)] inv more by (simp add: srv_inv_def)
  ultimately show ?case using more by (simp add: keeps_seen_def)
qed simp

section \<open>Sequence numbers\<close>

lemma srv_evolved_sequence:
  assumes "srv_evolved P on_curve c sid s s'"
  shows "last_signal_sequence s \<le> last_signal_sequence s'"
proof -
  have 1: "last_signal_sequence (apply_move m s) = last_signal_sequence s" for m by (cases m) simp_all
  have 2: "v2_move_ok P on_curve c wall tr sid s m \<Longrightarrow> last_signal_sequence s \<le> last_signal_sequence (v2_apply P m s)"
    for m tr wall by (cases m) (simp_all add: authentic_signal_def)
  from assms show ?thesis
    unfolding srv_evolved_def evolved_def
  proof (elim disjE exE conjE)
    fix m Q assume "auth_view s' = auth_view (keep_routes Q (apply_move m s))"
    then show ?thesis using 1 [of m] by (simp add: auth_view_def keep_routes_def)
  next
    fix m tr wall assume "v2_move_ok P on_curve c wall tr sid s m" "auth_view s' = auth_view (v2_apply P m s)"
    then show ?thesis using 2 [of wall tr m] by (simp add: auth_view_def)
  qed
qed

text \<open>Session \<open>sid\<close> has been issued and, while it lives, has sent sequence number \<open>q\<close>.\<close>

definition seq_floor :: "pystr \<Rightarrow> int \<Rightarrow> server \<Rightarrow> bool" where
  "seq_floor sid q s \<longleftrightarrow> sid \<in> set (issued s) \<and>
     (\<forall>sess. dget (sessions (srv_hub s)) sid = Some sess \<longrightarrow> q \<le> last_signal_sequence sess)"

lemma new_idsI: "dget (sessions h) sid = None \<Longrightarrow> dget (sessions h') sid = Some s \<Longrightarrow> sid \<in> set (new_ids h h')"
  by (auto simp: new_ids_def dget_None_iff dest: dget_Some_key)

lemma seq_floor_step:
  assumes "server_step P on_curve c s effs out s'" "srv_inv c s" "post_init c = Inr ()" "seq_floor sid q s"
  shows "seq_floor sid q s'"
proof -
  note st = server_step_hub [OF assms(1,2)]
  have "q \<le> last_signal_sequence sess'" if s': "dget (sessions (srv_hub s')) sid = Some sess'" for sess'
  proof (cases "dget (sessions (srv_hub s)) sid")
    case None
    then show ?thesis using st(4) new_idsI [OF None s'] assms(4) by (auto simp: seq_floor_def)
  next
    case (Some sess)
    then have "srv_evolved P on_curve c sid sess sess'"
      using srv_hub_session [OF st(1) _ assms(3) s'] assms(2) by (auto simp: srv_inv_def)
    then show ?thesis using assms(4) Some srv_evolved_sequence unfolding seq_floor_def by (meson order_trans)
  qed
  then show ?thesis using assms(4) st(3) by (simp add: seq_floor_def)
qed

interpretation floor: preserved "server_next P on_curve c" "\<lambda>s. (post_init c = Inr () \<and> srv_inv c s) \<and> seq_floor sid q s" for P on_curve c sid q
  by unfold_locales (auto intro: seq_floor_step srv_inv_step)

lemma seq_floor_steps:
  "server_steps P on_curve c s s' \<Longrightarrow> srv_inv c s \<Longrightarrow> post_init c = Inr () \<Longrightarrow> seq_floor sid q s \<Longrightarrow> seq_floor sid q s'"
  using floor.run_inv [OF server_steps_run] by blast

definition ids_issued :: "server \<Rightarrow> bool" where
  "ids_issued s \<longleftrightarrow> set (dkeys (sessions (srv_hub s))) \<subseteq> set (issued s)"

lemma ids_issued_step: "server_step P on_curve c s effs out s' \<Longrightarrow> ids_issued s \<Longrightarrow> ids_issued s'"
  by (erule server_step.cases) (auto simp: ids_issued_def new_ids_def)

interpretation ids: preserved "server_next P on_curve c" ids_issued for P on_curve c
  by unfold_locales (auto intro: ids_issued_step)

lemma ids_issued_steps: "server_steps P on_curve c s s' \<Longrightarrow> ids_issued s \<Longrightarrow> ids_issued s'"
  using ids.run_inv [OF server_steps_run] by blast

lemma ids_issued_new: "ids_issued (new_server c now tr m)"
  by (simp add: ids_issued_def new_server_def new_hub_def)

section \<open>Accepted signals\<close>

text \<open>A frame is taken as a signal: it is acknowledged, or handed to the mesh.\<close>

definition signalled :: "v2_outcome \<Rightarrow> bool" where
  "signalled r \<longleftrightarrow> (\<exists>w f. SendFrame w f \<in> set (fst (snd r)) \<and> jget (dict_of f) ''type'' = JStr (u ''SIGNAL_ACK'')) \<or>
     (\<exists>tag target out payload. snd (snd r) = Forward tag target out payload)"

lemma frame_types [simp]:
  "jget (dict_of (v2_frame_of p t mid payload)) ''type'' = JStr (u t)"
  "jget (dict_of (v2_error_frame code mid)) ''type'' = JStr (u ''ERROR'')"
  by (simp_all add: v2_frame_of_def v2_error_frame_def make_error_def dict_of_def jget_def)

lemma not_signalled [simp]:
  "\<not> signalled (v2_error w code mid st)" "\<not> signalled (st, [], VRaise e)" "\<not> signalled (st, [], Register tag f)"
  "\<not> signalled (st, [], Unregister tag f)" "\<not> signalled (st, [], Discover tag ds mid)"
  by (simp_all add: signalled_def)

lemma v2_try_signalled [simp]: "signalled (v2_try r st k) \<longleftrightarrow> (\<exists>x. r = Inr x \<and> signalled (k x))"
  by (cases r) (simp_all add: v2_try_def)

lemma one_frame_signalled [simp]:
  "signalled (st, [SendFrame w f], VContinue) \<longleftrightarrow> jget (dict_of f) ''type'' = JStr (u ''SIGNAL_ACK'')"
  "signalled (st, [SendFrame w f, CloseSocket w' code r], VContinue) \<longleftrightarrow> jget (dict_of f) ''type'' = JStr (u ''SIGNAL_ACK'')"
  by (auto simp: signalled_def)

lemma v2_handlers_not_signalled:
  "\<not> signalled (v2_hello P on_curve c wall chal sid w d s st)" "\<not> signalled (v2_prove P c now sid w d s st)"
  "\<not> signalled (v2_ping now sid w d st)" "\<not> signalled (v2_attach c now sid w d st)" "\<not> signalled (v2_detach sid d st)"
  "\<not> signalled (v2_discover now sid w d s st)"
proof -
  show "\<not> signalled (v2_hello P on_curve c wall chal sid w d s st)"
    unfolding v2_hello_def Let_def by (simp add: case_prod_unfold)
  show "\<not> signalled (v2_prove P c now sid w d s st)"
    unfolding v2_prove_def Let_def case_prod_unfold by (simp split: option.split list.split)
  show "\<not> signalled (v2_ping now sid w d st)"
    unfolding v2_ping_def case_prod_unfold by (simp add: dict_of_def jget_def)
  show "\<not> signalled (v2_attach c now sid w d st)"
    unfolding v2_attach_def case_prod_unfold Let_def by (simp split: sum.split exn.split)
  show "\<not> signalled (v2_detach sid d st)" "\<not> signalled (v2_discover now sid w d s st)"
    by (simp_all add: v2_detach_def v2_discover_def Let_def case_prod_unfold)
qed

text \<open>
  What holds of a signal that was taken: the sender has authenticated it, the recipient is known
  under the key it is encrypted to, its number is recorded, and only the sender's and the
  recipient's entries may have changed.
\<close>

definition signal_taken ::
  "trust_prims \<Rightarrow> int \<Rightarrow> (pystr \<times> json) list option \<Rightarrow> pystr \<Rightarrow> (pystr \<times> json) list \<Rightarrow> hub \<Rightarrow> hub \<Rightarrow> bool" where
  "signal_taken P wall remote sid payload h h' \<longleftrightarrow>
     (\<exists>s. dget (sessions h) sid = Some s \<and> authentic_signal P wall sid s payload) \<and>
     (\<exists>x. recipient remote payload h = Some x \<and> jget x ''keyId'' = jget payload ''keyId'') \<and>
     map_option last_signal_sequence (dget (sessions h') sid) = Some (int_of (jget payload ''sequence'')) \<and>
     (\<forall>y. y \<notin> {sid, jstr (jget payload ''toSessionId'')} \<longrightarrow> dget (sessions h') y = dget (sessions h) y)"

lemma signal_taken_cong: "sessions h = sessions g \<Longrightarrow> signal_taken P wall remote sid payload h h' = signal_taken P wall remote sid payload g h'"
  by (simp add: signal_taken_def recipient_def peer_descriptor_def)

lemma recipient_relay_marked:
  assumes "dget (sessions h) sid = Some s"
  shows "recipient remote payload (relay_marked c now sid payload s h) = recipient remote payload h"
proof -
  have "peer_descriptor x (relay_marked c now sid payload s h) = peer_descriptor x h" for x
    using assms by (simp add: peer_descriptor_def dget_dset)
  then show ?thesis by (simp add: recipient_def)
qed

lemma send_others: "send_session frepr c sid data h = Inr (ok, h', effs) \<Longrightarrow> x \<noteq> sid \<Longrightarrow> dget (sessions h') x = dget (sessions h) x"
  by (drule send_session_cases) (auto simp: dget_dset)

lemma v2_relay_signalled:
  assumes "signalled (v2_relay P c now elapsed remote sid w mid payload s st)" "dget (sessions (v2_hub st)) sid = Some s"
    and auth: "accepted c now sid payload s (v2_hub st) \<Longrightarrow> authentic_signal P wall sid s payload"
  shows "signal_taken P wall remote sid payload (v2_hub st) (v2_hub (fst (v2_relay P c now elapsed remote sid w mid payload s st)))"
proof -
  let ?h = "relay_marked c now sid payload s (v2_hub st)"
  let ?h' = "v2_hub (fst (v2_relay P c now elapsed remote sid w mid payload s st))"
  have a: "accepted c now sid payload s (v2_hub st)"
    using assms by (auto simp: v2_relay_eq Let_def split: if_splits)
  have x: "\<exists>x. recipient remote payload ?h = Some x \<and> jget x ''keyId'' = jget payload ''keyId''"
    using assms(1) by (auto simp: v2_relay_eq Let_def split: if_splits option.splits)
  have "sessions ?h' = sessions ?h \<or>
      (\<exists>ok effs g. send_session (tp_float P) c (jstr (jget payload ''toSessionId'')) (signal_out mid payload) ?h = Inr (ok, g, effs) \<and>
         sessions ?h' = sessions g)"
    using a by (auto simp: v2_relay_eq Let_def accepted_def split: sum.split)
  then have "map_option last_signal_sequence (dget (sessions ?h') sid) = Some (int_of (jget payload ''sequence'')) \<and>
      (\<forall>y. y \<notin> {sid, jstr (jget payload ''toSessionId'')} \<longrightarrow> dget (sessions ?h') y = dget (sessions (v2_hub st)) y)"
  proof (elim disjE exE conjE)
    fix ok effs g
    assume *: "send_session (tp_float P) c (jstr (jget payload ''toSessionId'')) (signal_out mid payload) ?h = Inr (ok, g, effs)"
      "sessions ?h' = sessions g"
    show ?thesis
      using send_views [OF *(1), of sid] send_others [OF *(1)] *(2) by (auto simp: dget_dset auth_view_def)
  qed (simp add: dget_dset)
  then show ?thesis
    using a auth x assms(2) recipient_relay_marked [OF assms(2)] by (auto simp: signal_taken_def)
qed

lemma v2_signal_signalled:
  assumes "signalled (v2_signal P c now wall elapsed remote sid w d s st)" "proven s" "dget (sessions (v2_hub st)) sid = Some s"
  shows "signal_taken P wall remote sid (payload_of d) (v2_hub st) (v2_hub (fst (v2_signal P c now wall elapsed remote sid w d s st)))"
proof -
  let ?r = "v2_signal P c now wall elapsed remote sid w d s st"
  let ?st = "st\<lparr>v2_hub := snd (limit now sid ''SIGNAL_V2'' (v2_hub st)),
    signal_limiter := snd (try_consume now 1 (signal_limiter st))\<rparr>"
  have r: "?r = v2_relay P c now elapsed remote sid w (jget d ''id'') (payload_of d) s ?st \<and>
      (accepted c now sid (payload_of d) s (v2_hub ?st) \<longrightarrow> authentic_signal P wall sid s (payload_of d))"
    using assms(1,2)
    by (auto simp: v2_signal_def Let_def case_prod_unfold authentic_signal_def accepted_def simp del: try_consume_simps
        split: sum.splits option.splits if_splits)
  then have "signal_taken P wall remote sid (payload_of d) (v2_hub ?st) (v2_hub (fst ?r))"
    using v2_relay_signalled [of P c now elapsed remote sid w "jget d ''id''" "payload_of d" s ?st wall] assms(1,3) by simp
  then show ?thesis using signal_taken_cong [of "v2_hub ?st" "v2_hub st"] by simp
qed

lemma v2_handle_signalled:
  assumes "signalled (v2_handle P on_curve c now wall elapsed remote chal sid w d st)"
  shows "signal_taken P wall remote sid (payload_of d) (v2_hub st)
    (v2_hub (fst (v2_handle P on_curve c now wall elapsed remote chal sid w d st)))"
  using assms v2_signal_signalled v2_handlers_not_signalled
  by (auto simp: v2_handle_def Let_def split: option.splits if_splits)

lemma v2_frame_signalled:
  assumes "signalled (v2_frame P on_curve c now wall elapsed remote chal sid w raw st)"
  obtains d where "decode_v2 c raw = Some d"
    "signal_taken P wall remote sid (payload_of d) (v2_hub st)
       (v2_hub (fst (v2_frame P on_curve c now wall elapsed remote chal sid w raw st)))"
proof -
  have "v2_frame P on_curve c now wall elapsed remote chal sid w raw st =
      v2_message P on_curve c now wall elapsed remote chal sid w raw (v2_charged now sid st)"
    using assms by (auto simp: v2_frame_eq signalled_def v2_error_def split: option.splits if_splits)
  moreover from this assms obtain d where "decode_v2 c raw = Some d"
    "v2_message P on_curve c now wall elapsed remote chal sid w raw (v2_charged now sid st) =
       v2_handle P on_curve c now wall elapsed remote chal sid w d (v2_charged now sid st)"
    by (auto simp: v2_message_def decode_v2_def split: sum.splits exn.splits)
  moreover have "signal_taken P wall remote sid p (v2_hub (v2_charged now sid st)) h' = signal_taken P wall remote sid p (v2_hub st) h'"
    for p h' by (rule signal_taken_cong) simp
  ultimately show ?thesis using that assms v2_handle_signalled by metis
qed

section \<open>The abstract protocol of a session\<close>

text \<open>What the rest of the server may know of a session: it is new, has a challenge, or holds a key.\<close>

datatype stage = Fresh | Challenged bytes "bytes option" | Trusted bytes

inductive lifecycle :: "(bytes \<Rightarrow> nat \<Rightarrow> nat \<Rightarrow> bytes \<Rightarrow> bool) \<Rightarrow> stage option \<Rightarrow> stage option \<Rightarrow> bool" for verify where
  unchanged: "lifecycle verify x x"
| connects: "lifecycle verify None (Some Fresh)"
| greets: "lifecycle verify (Some Fresh) (Some (Challenged chal key))"
| proves: "verify_signature verify key chal sig \<Longrightarrow>
    lifecycle verify (Some (Challenged chal (Some key))) (Some (Trusted key))"
| closes: "lifecycle verify (Some x) None"

definition session_stage :: "session \<Rightarrow> stage" where
  "session_stage s = (if proven s then Trusted (the (public_key_raw s))
     else case challenge s of None \<Rightarrow> Fresh | Some chal \<Rightarrow> Challenged chal (public_key_raw s))"

definition server_stage :: "server \<Rightarrow> pystr \<Rightarrow> stage option" where
  "server_stage s sid = map_option session_stage (dget (sessions (srv_hub s)) sid)"

lemma session_stage_view: "auth_view s' = auth_view s \<Longrightarrow> session_stage s' = session_stage s"
  by (simp add: auth_view_def session_stage_def split: option.split)

lemma srv_evolved_lifecycle:
  assumes "srv_evolved P on_curve c sid s s'"
  shows "lifecycle (tp_verify P) (Some (session_stage s)) (Some (session_stage s'))"
  using assms unfolding srv_evolved_def evolved_def
proof (elim disjE exE conjE)
  fix m Q
  assume m: "move_ok (hub_prims P) c s m" "auth_view s' = auth_view (keep_routes Q (apply_move m s))"
  have "lifecycle (tp_verify P) (Some (session_stage s)) (Some (session_stage (keep_routes Q (apply_move m s))))"
    using m(1) by (cases m) (auto simp: session_stage_def keep_routes_def hub_prims_def intro: lifecycle.intros split: option.split)
  then show ?thesis using session_stage_view [OF m(2)] by simp
next
  fix m tr wall
  assume m: "v2_move_ok P on_curve c wall tr sid s m" "auth_view s' = auth_view (v2_apply P m s)"
  have "lifecycle (tp_verify P) (Some (session_stage s)) (Some (session_stage (v2_apply P m s)))"
    using m(1) by (cases m) (auto simp: session_stage_def intro: lifecycle.intros split: option.split)
  then show ?thesis using session_stage_view [OF m(2)] by simp
qed

lemma srv_hub_lifecycle:
  assumes "srv_hub_step P on_curve c now h h'" "hub_inv c h" "post_init c = Inr ()"
  shows "lifecycle (tp_verify P) (map_option session_stage (dget (sessions h) sid)) (map_option session_stage (dget (sessions h') sid))"
proof (cases "dget (sessions h') sid")
  case None
  then show ?thesis by (cases "dget (sessions h) sid") (auto intro: lifecycle.intros)
next
  case (Some s')
  from srv_hub_session [OF assms this] show ?thesis
  proof (elim disjE exE conjE)
    fix w assume "dget (sessions h) sid = None" "s' = new_session w now"
    then show ?thesis using Some by (simp add: session_stage_def new_session_def lifecycle.connects)
  next
    fix s assume "dget (sessions h) sid = Some s" "srv_evolved P on_curve c sid s s'"
    then show ?thesis using Some srv_evolved_lifecycle by simp
  qed
qed

end
