(* ===== verification/V1_Properties.thy ===== *)
theory V1_Properties
  imports V1_System
begin

text \<open>
  The properties of the V1 endpoint over single frames, with a concrete hub of two proven sessions
  on one route as their common example.
\<close>

section \<open>An example\<close>

definition ex_prims :: prims where
  "ex_prims = \<lparr>float_repr = (\<lambda>_. u ''0''), sha256 = (\<lambda>b. b), ec_verify = (\<lambda>_ _ _ _. True)\<rparr>"

definition ex_session :: "nat \<Rightarrow> session" where
  "ex_session w = (new_session w 0)\<lparr>proven := True, public_key_raw := Some [4], sess_routes := [u ''r'']\<rparr>"

definition ex_hub :: hub where
  "ex_hub = (new_hub default_config 0)
     \<lparr>sessions := [(u ''a'', ex_session 1), (u ''b'', ex_session 2)],
      routes := [(u ''r'', [(u ''a'', 90), (u ''b'', 90)])]\<rparr>"

definition ex_signal :: "(pystr \<times> json) list" where
  "ex_signal = [(u ''protocol'', JStr (u ''particle-signal/1'')), (u ''type'', JStr (u ''SIGNAL'')),
     (u ''payload'', JDict [(u ''routeId'', JStr (u ''r''))])]"

definition ex_text :: pystr where
  \<open>ex_text = u ''{"protocol":"particle-signal/1","type":"SIGNAL","payload":{"routeId":"r"}}''\<close>

lemma ex_loads: "json_loads ex_text = Inr (JDict ex_signal)"
  by (simp add: json_eval ex_text_def ex_signal_def u_def)

lemma decode_v1_Inr:
  assumes "post_init c = Inr ()"
  shows "decode_v1 c raw = Inr v \<longleftrightarrow>
    (\<exists>n. utf8_len raw = Some n \<and> int n \<le> max_frame_bytes c) \<and> json_loads raw = Inr v \<and>
    int (depth v) \<le> max_json_depth c \<and> int (nodes v) \<le> max_json_nodes c \<and>
    all_strings (string_fits (max_frame_bytes c)) v \<and> validate_v1_message v = Inr ()"
proof -
  have "0 \<le> max_json_depth c"
    using server_config.limits_positive(5) [of c] assms by (simp add: server_config_def)
  then show ?thesis by (auto simp: decode_v1_def rbind_eq_Inr loads_strict_text)
qed

lemma ascii_fits: "list_all (\<lambda>ch. of_char ch < (128 :: nat)) s \<Longrightarrow> string_fits n (u s) \<longleftrightarrow> int (length s) \<le> n"
  using utf8_len_ascii [of "u s"] by (simp add: string_fits_def u_def list.pred_map comp_def)

lemma default_limits [simp]:
  "max_frame_bytes default_config = 65536" "max_json_depth default_config = 16"
  "max_json_nodes default_config = 512" "max_fanout default_config = 16" "max_hops default_config = 3"
  "max_dedupe_entries default_config = 65536" "dedupe_window_seconds default_config = 120"
  "max_concurrency default_config = 128" "outbound_queue_bytes default_config = 262144"
  "outbound_queue_frames default_config = 64" "max_v1_routes_per_session default_config = 8"
  "message_global_burst default_config = 2048" "message_global_per_second default_config = 1024"
  by (simp_all add: default_config_def)

lemmas validate_eval = validate_v1_message_def validate_envelope_def jget_def str_in_def
  KNOWN_PROTOCOLS_def PROTOCOL_VERSIONS_def MESSAGE_TYPES_def check_message_id_def v1_expected_protocol_def
  v1_payload_check_def bounded_text_def payload_of_def raise_if_def jstr_def valid_ttl_def Let_def
  MAX_ROUTE_ID_BYTES_def

lemma ex_validate: "validate_v1_message (JDict ex_signal) = Inr ()"
proof -
  have "utf8_len (u ''r'') = Some 1" by (simp add: utf8_len_ascii u_def)
  then show ?thesis by (simp add: validate_eval ex_signal_def)
qed

lemma ex_decode: "decode_v1 default_config ex_text = Inr (JDict ex_signal)"
proof -
  have "utf8_len ex_text = Some (length ex_text)"
    by (rule utf8_len_ascii) (simp add: ex_text_def u_def)
  moreover have "length ex_text \<le> 65536" by (simp add: ex_text_def)
  moreover have "all_strings (string_fits 65536) (JDict ex_signal)"
    by (simp add: ex_signal_def ascii_fits)
  ultimately show ?thesis
    by (simp add: decode_v1_Inr default_post_init ex_loads ex_validate) (simp add: ex_signal_def)
qed

lemma ex_hub_inv: "hub_inv default_config ex_hub" "0 < n \<Longrightarrow> sessions_ok n ex_hub" "session_count ex_hub = 2"
proof -
  have s: "dget (sessions ex_hub) x = (if x = u ''a'' then Some (ex_session 1)
      else if x = u ''b'' then Some (ex_session 2) else None)" for x
    by (simp add: ex_hub_def)
  have r: "lease ex_hub y x = (if y = u ''r'' \<and> (x = u ''a'' \<or> x = u ''b'') then Some 90 else None)" for y x
    by (simp add: ex_hub_def lease_def)
  have "in_session ex_hub x y \<longleftrightarrow> (x = u ''a'' \<or> x = u ''b'') \<and> y = u ''r''" for x y
    by (auto simp: in_session_def s ex_session_def)
  moreover have "tables_ok ex_hub"
    unfolding tables_ok_def s by (auto simp: ex_hub_def ex_session_def new_session_def split: if_splits)
  ultimately have ri: "routes_inv ex_hub" by (auto simp: routes_inv_def r)
  have "queues_inv default_config ex_hub"
    by (auto simp: queues_inv_def s) (simp_all add: ex_hub_def ex_session_def new_session_def queue_ok_def
        in_flight_def dict_sum_def new_hub_def)
  then show "hub_inv default_config ex_hub"
    using ri hub_inv_new [OF default_post_init, of 0] by (simp add: hub_inv_def seen_inv_def ex_hub_def)
  assume "0 < n"
  then have "session_ok n (ex_session w)" for w
    by (simp add: session_ok_def ex_session_def new_session_def)
  then show "sessions_ok n ex_hub" by (simp add: sessions_ok_def s)
qed (simp add: session_count_def ex_hub_def)

text \<open>The example signal is relayed to the other subscriber.\<close>

lemma ex_key: "\<exists>key. v1_dedupe_key ex_prims (payload_of ex_signal) (u ''r'') (u ''SIGNAL'') = Inr key"
  unfolding v1_dedupe_key_def
  by (rule content_hash_ok [of "float_repr ex_prims"]) (auto simp: ex_prims_def payload_of_def jget_def ex_signal_def)

lemma ex_fields: "jstr (jget ex_signal ''type'') = u ''SIGNAL''"
  "jstr (jget (payload_of ex_signal) ''routeId'') = u ''r''" "v1_ttl default_config (payload_of ex_signal) = JInt 3"
  by (simp_all add: ex_signal_def jget_def jstr_def payload_of_def v1_ttl_def)

lemma limit_fresh:
  "dget (rate_limiter h) (sid, opn) = None \<Longrightarrow> 1 \<le> fst (op_limits opn) \<Longrightarrow> fst (limit now sid opn h)"
  using op_limits_nonneg(2) [of opn]
  by (simp add: limit_def limiter_check_def registry_bucket_def new_bucket_def case_prod_unfold)

lemma ex_relay:
  "\<exists>h' effs. v1_frame ex_prims default_config 1 [] (u ''a'') 1 ex_text ex_hub =
     (h', effs, RelayTo [u ''b''] (v1_outgoing default_config ex_signal))"
proof -
  obtain key where key: "v1_dedupe_key ex_prims (payload_of ex_signal) (u ''r'') (u ''SIGNAL'') = Inr key"
    using ex_key by blast
  have u: "utf8_len ex_text = Some (length ex_text)" "length ex_text \<le> 65536"
    using utf8_len_ascii [of ex_text] by (simp_all add: ex_text_def u_def)
  have m: "fst (limit 1 (u ''a'') ''MESSAGE'' ex_hub)"
    by (rule limit_fresh) (simp_all add: ex_hub_def new_hub_def op_limits_def DEFAULTS_def)
  have g: "fst (try_consume 1 1 (global_message_limiter ex_hub))"
    by (simp add: ex_hub_def new_hub_def new_bucket_def)
  let ?h = "charged 1 (u ''a'') ex_hub"
  have sig: "fst (limit 1 (u ''a'') ''SIGNAL'' ?h)"
    by (rule limit_fresh) (simp_all add: charged_def limit_def limiter_check_def case_prod_unfold ex_hub_def
        new_hub_def op_limits_def DEFAULTS_def)
  let ?h1 = "snd (limit 1 (u ''a'') ''SIGNAL'' ?h)"
  have e: "seen ?h1 = []" "routes ?h1 = [(u ''r'', [(u ''a'', 90), (u ''b'', 90)])]"
    "dget (sessions ?h1) (u ''a'') = Some (ex_session 1)"
    by (simp_all add: ex_hub_def new_hub_def)
  have "v1_relay default_config 1 (u ''a'') ex_signal (u ''r'') key ?h1 =
      (snd (check_and_mark_seen default_config 1 key 120 ?h1), [], RelayTo [u ''b''] (v1_outgoing default_config ex_signal))"
    using e by (simp add: v1_relay_def case_prod_unfold mark_accepted_iff hop_exhausted_def ex_fields int_value_def
        route_subscribers_def)
  then have "handle_route_message ex_prims default_config 1 (u ''a'') 1 ex_signal (u ''SIGNAL'') ?h =
      (snd (check_and_mark_seen default_config 1 key 120 ?h1), [], RelayTo [u ''b''] (v1_outgoing default_config ex_signal))"
    using sig key e by (simp add: handle_route_message_def Let_def case_prod_unfold ex_fields ex_session_def)
  then have "v1_dispatch ex_prims default_config 1 [] (u ''a'') 1 ex_signal (ex_session 1) ?h =
      (snd (check_and_mark_seen default_config 1 key 120 ?h1), [], RelayTo [u ''b''] (v1_outgoing default_config ex_signal))"
    by (simp add: v1_dispatch_def Let_def ex_fields ex_session_def)
  moreover have "dget (sessions ?h) (u ''a'') = Some (ex_session 1)" by (simp add: ex_hub_def)
  ultimately show ?thesis
    using u m g by (simp add: v1_frame_eq v1_message_def ex_decode del: try_consume_simps)
qed

section \<open>Lemmas on single frames\<close>

lemma distinct_subscribers: "tables_ok h \<Longrightarrow> distinct (route_subscribers now r ex h)"
  using tables_ok_wf [of h] by (auto simp: subscribers_table wf_tables_def)

lemma hub_inv_lease_session:
  assumes "routes_inv h" "lease h r x = Some e"
  obtains t where "dget (sessions h) x = Some t" "r \<in> set (sess_routes t)"
proof -
  have "in_session h x r" using assms unfolding routes_inv_def by force
  then show ?thesis using that by (auto simp: in_session_def)
qed







section \<open>Properties\<close>

text \<open>A frame makes no session proven but the sender's own, and that one only when it was
  unproven with an outstanding challenge and the frame's signature over that challenge verifies
  under the key the session announced.\<close>

theorem v1_proof_needs_signature:
  "{x. (\<exists>s'. dget (sessions (fst (v1_frame P c now chal sid w raw h))) x = Some s' \<and> proven s') \<and>
       (\<nexists>s. dget (sessions h) x = Some s \<and> proven s)}
   \<subseteq> {x. x = sid \<and> (\<exists>s key ch sig. dget (sessions h) sid = Some s \<and> \<not> proven s \<and> challenge s = Some ch \<and>
         public_key_raw s = Some key \<and> verify_signature (ec_verify P) key ch sig)}"
proof (intro subsetI, elim CollectE conjE exE)
  fix x s'
  assume s': "dget (sessions (fst (v1_frame P c now chal sid w raw h))) x = Some s'" "proven s'"
    and no: "\<nexists>s. dget (sessions h) x = Some s \<and> proven s"
  show "x \<in> {x. x = sid \<and> (\<exists>s key ch sig. dget (sessions h) sid = Some s \<and> \<not> proven s \<and> challenge s = Some ch \<and>
         public_key_raw s = Some key \<and> verify_signature (ec_verify P) key ch sig)}"
  proof (cases "dget (sessions h) sid")
    case None
    then show ?thesis using s' no v1_frame_gone [OF None] by auto
  next
    case (Some s)
    obtain m where m: "move_ok P c s m" "dget (sessions (fst (v1_frame P c now chal sid w raw h))) sid = Some (apply_move m s)"
      "\<And>y. y \<noteq> sid \<Longrightarrow> dget (sessions (fst (v1_frame P c now chal sid w raw h))) y = dget (sessions h) y"
      using v1_frame_moved [OF Some, of P c now chal w raw] unfolding moved_def by blast
    have "x = sid" using m(3) s' no by metis
    with m(1,2) s' no Some show ?thesis by (cases m) auto
  qed
qed

text \<open>C11: A relayed message comes from a proven session attached to its route and goes, at most
  \<^verbatim>\<open>max_fanout\<close> times, to distinct sessions other than the sender, each of which is alive and
  has an unexpired lease on that route.\<close>

theorem v1_relay_audience:
  assumes "hub_inv c h" "v1_frame P c now chal sid w raw h = (h', effs, RelayTo subs out)"
  shows "\<exists>s d. dget (sessions h) sid = Some s \<and> proven s \<and> decode_v1 c raw = Inr (JDict d) \<and>
    route_of d \<in> set (sess_routes s) \<and> out = v1_outgoing c d \<and>
    distinct subs \<and> length subs \<le> nat (max_fanout c) \<and> sid \<notin> set subs \<and>
    (\<forall>x \<in> set subs. \<exists>t e. dget (sessions h) x = Some t \<and> route_of d \<in> set (sess_routes t) \<and>
       lease h (route_of d) x = Some e \<and> now < e)"
proof -
  obtain s d key where d: "decode_v1 c raw = Inr (JDict d)" and r: "relayed P c now sid h s d key subs"
    and out: "out = v1_outgoing c d" using v1_frame_relay [OF assms(2)] .
  note inv = hub_invD(1,6) [OF assms(1)]
  have subs: "subs = take (nat (max_fanout c)) (route_subscribers now (route_of d) (Some sid) h)"
    using r by (simp add: relayed_def)
  have live: "\<exists>t e. dget (sessions h) x = Some t \<and> route_of d \<in> set (sess_routes t) \<and>
       lease h (route_of d) x = Some e \<and> now < e \<and> x \<noteq> sid" if "x \<in> set subs" for x
  proof -
    have "x \<in> set (route_subscribers now (route_of d) (Some sid) h)"
      using that subs by (auto dest: in_set_takeD)
    then obtain e where "lease h (route_of d) x = Some e" "now < e" "x \<noteq> sid"
      using set_subscribers [OF inv(2)] by auto
    then show ?thesis using hub_inv_lease_session [OF inv(1)] by metis
  qed
  have "distinct subs" "length subs \<le> nat (max_fanout c)"
    using subs distinct_subscribers [OF inv(2)] by simp_all
  moreover have "dget (sessions h) sid = Some s" "proven s" "route_of d \<in> set (sess_routes s)"
    using r by (simp_all add: relayed_def)
  ultimately show ?thesis using d out live by blast
qed

theorem v1_relay_audience_witness:
  "\<exists>h' effs. v1_frame ex_prims default_config 1 [] (u ''a'') 1 ex_text ex_hub =
      (h', effs, RelayTo [u ''b''] (v1_outgoing default_config ex_signal)) \<and> u ''a'' \<notin> set [u ''b'']"
proof -
  obtain h' effs where f: "v1_frame ex_prims default_config 1 [] (u ''a'') 1 ex_text ex_hub =
      (h', effs, RelayTo [u ''b''] (v1_outgoing default_config ex_signal))" using ex_relay by blast
  from v1_relay_audience [OF ex_hub_inv(1) f] f show ?thesis by blast
qed



text \<open>The hop count of a relayed message whose \<^verbatim>\<open>ttl\<close> is absent or a number is between 1
  and 16 and goes out decremented by one, so a message crosses at most 16 relays.\<close>

theorem v1_hop_limit:
  assumes "post_init c = Inr ()" "v1_frame P c now chal sid w raw h = (h', effs, RelayTo subs out)"
    and "decode_v1 c raw = Inr (JDict d)" "dget (payload_of d) (u ''ttl'') \<noteq> Some JNull"
  shows "\<exists>i od. out = JDict od \<and> v1_ttl c (payload_of d) = JInt i \<and> 1 \<le> i \<and> i \<le> 16 \<and>
    v1_ttl c (payload_of od) = JInt (i - 1)"
proof -
  obtain s key where r: "relayed P c now sid h s d key subs" and out: "out = v1_outgoing c d"
    using v1_frame_relay [OF assms(2)] assms(3) by (metis Inr_inject json.inject(6))
  have "validate_v1_message (JDict d) = Inr ()"
    using assms(3) by (simp add: decode_v1_Inr [OF assms(1)])
  then obtain t where "jget d ''type'' = JStr t"
    "t \<in> u ` {''SIGNAL'', ''FORWARD'', ''PUBLISH''} \<longrightarrow> valid_ttl (jget (payload_of d) ''ttl'')"
    by (rule v1_validated)
  then have "valid_ttl (jget (payload_of d) ''ttl'')"
    using r by (auto simp: relayed_def jstr_def)
  moreover have "1 \<le> max_hops c" "max_hops c \<le> 16"
    using server_config.limits_positive(8,9) [of c] assms(1) by (simp_all add: server_config_def)
  ultimately obtain i where i: "v1_ttl c (payload_of d) = JInt i" "i \<le> 16"
    using assms(4) by (auto simp: v1_ttl_def jget_def valid_ttl_def split: option.splits json.splits)
  moreover have "1 \<le> i"
    using r i by (auto simp: relayed_def hop_exhausted_def int_value_def)
  ultimately show ?thesis
    unfolding out v1_outgoing_def Let_def
    by (auto simp: int_value_def payload_of_def jget_def dget_dset v1_ttl_def)
qed

theorem v1_hop_limit_witness:
  "\<exists>od. v1_outgoing default_config ex_signal = JDict od \<and> v1_ttl default_config (payload_of od) = JInt 2"
proof -
  obtain h' effs where f: "v1_frame ex_prims default_config 1 [] (u ''a'') 1 ex_text ex_hub =
      (h', effs, RelayTo [u ''b''] (v1_outgoing default_config ex_signal))" using ex_relay by blast
  have "dget (payload_of ex_signal) (u ''ttl'') \<noteq> Some JNull"
    by (simp add: ex_signal_def payload_of_def jget_def)
  from v1_hop_limit [OF default_post_init f ex_decode this] show ?thesis by (auto simp: ex_fields)
qed

text \<open>A message with an explicit \<^verbatim>\<open>"ttl": null\<close> is valid, is never hop-exhausted and is
  relayed unchanged: the hop limit does not apply to it.\<close>

definition ex_null_ttl :: "(pystr \<times> json) list" where
  "ex_null_ttl = [(u ''protocol'', JStr (u ''particle-signal/1'')), (u ''type'', JStr (u ''SIGNAL'')),
     (u ''payload'', JDict [(u ''routeId'', JStr (u ''r'')), (u ''ttl'', JNull)])]"

theorem v1_null_ttl_unlimited:
  "validate_v1_message (JDict ex_null_ttl) = Inr () \<and>
   \<not> hop_exhausted (v1_ttl c (payload_of ex_null_ttl)) \<and> v1_outgoing c ex_null_ttl = JDict ex_null_ttl"
proof (intro conjI)
  have "utf8_len (u ''r'') = Some 1" by (simp add: utf8_len_ascii u_def)
  then show "validate_v1_message (JDict ex_null_ttl) = Inr ()" by (simp add: validate_eval ex_null_ttl_def)
  show "\<not> hop_exhausted (v1_ttl c (payload_of ex_null_ttl))"
    by (simp add: ex_null_ttl_def payload_of_def jget_def v1_ttl_def hop_exhausted_def int_value_def)
  show "v1_outgoing c ex_null_ttl = JDict ex_null_ttl"
    by (simp add: ex_null_ttl_def payload_of_def jget_def v1_ttl_def v1_outgoing_def int_value_def Let_def)
qed

end
