(* ===== verification/Server_Properties.thy ===== *)
theory Server_Properties
  imports Server_History V1_Properties
begin

text \<open>
  The properties of the whole server, over every run of \<^const>\<open>server_steps\<close>: any interleaving of V1
  and V2 connections, links to other nodes, HTTP requests, queue writers, time-outs, disconnects
  and cleanup.
\<close>

section \<open>An example\<close>

definition ex_server :: server where
  "ex_server = new_server default_config 0 ex_trust (new_mesh default_config [])"

definition ex_opened :: server where
  "ex_opened = ex_server\<lparr>srv := on_hub (create_session 1 7 (u ''a'')) (srv ex_server),
     v2_conns := [(7, \<lparr>vc_sid = u ''a'', vc_deadline = 11, vc_phase = VTop\<rparr>)], srv_clock := 1, issued := [u ''a'']\<rparr>"

lemma ex_mesh_init: "node_mesh_init default_config (Some (JList [])) = Inr (new_mesh default_config [])"
  by (simp add: node_mesh_init_def parse_trusted_nodes_def raise_if_def)

lemma ex_opened_sessions: "sessions (srv_hub ex_opened) = [(u ''a'', new_session 7 1)]"
  by (simp add: ex_opened_def ex_server_def new_server_def create_session_def new_hub_def on_hub_def)

lemma ex_open_step: "server_step ex_tp (\<lambda>_. True) default_config ex_server [] [] ex_opened"
proof -
  let ?x = "on_hub (create_session 1 7 (u ''a'')) (srv ex_server)"
  have "v2_open default_config 1 None None 7 (u ''a'') (srv ex_server) = Inr (?x, [], Opened (u ''a'') 11)"
    by (simp add: v2_open_def origin_allowed_def ex_server_def new_server_def session_count_def new_hub_def)
      (simp add: default_config_def)
  from v2_opened [OF this, where P = ex_tp and on_curve = "\<lambda>_. True" and incoming = "\<lambda>_ _. True"]
  have "server_act ex_tp (\<lambda>_. True) default_config 1 ex_server [] []
      (ex_server\<lparr>srv := ?x, v2_conns := [(7, \<lparr>vc_sid = u ''a'', vc_deadline = 11, vc_phase = VTop\<rparr>)]\<rparr>)"
    by (simp add: ex_server_def new_server_def new_hub_def)
  from server_step.act [OF _ this] show ?thesis
    by (simp add: ex_opened_def new_ids_def ex_server_def new_server_def new_hub_def create_session_def on_hub_def)
qed

lemma ex_run: "server_steps ex_tp (\<lambda>_. True) default_config (new_server default_config 0 ex_trust (new_mesh default_config [])) ex_opened"
  using server_steps.more [OF server_steps.none ex_open_step] by (simp add: ex_server_def)

section \<open>Runs\<close>

lemma reachable_inv:
  "post_init c = Inr () \<Longrightarrow> node_mesh_init c values = Inr m \<Longrightarrow>
     server_steps P on_curve c (new_server c now tr m) s \<Longrightarrow> srv_inv c s"
  using srv_inv_new srv_inv_steps by blast


text \<open>C1: Every state the server can reach satisfies its invariant: the hub's tables, queues, replay
  cache and limiters are consistent, only proven sessions hold routes, the session limit is kept,
  and the registry, descriptor cache, membership, pending operations and links of the mesh are
  consistent and within their limits.\<close>

theorem server_reachable_inv:
  assumes "post_init c = Inr ()" "node_mesh_init c values = Inr m"
    and "server_steps P on_curve c (new_server c now tr m) s"
  shows "srv_inv c s"
  using assms by (rule reachable_inv)

theorem server_reachable_inv_witness: "srv_inv default_config ex_opened"
  by (rule server_reachable_inv [OF default_post_init ex_mesh_init ex_run])

text \<open>C5: Memory is bounded in every reachable state: sessions, replay cache, queued bytes (which are
  exactly what the queues hold), mesh route descriptors, cached descriptors and pending mesh
  operations stay within the configured limits.\<close>

theorem server_memory_bound:
  assumes "post_init c = Inr ()" "node_mesh_init c values = Inr m"
    and "server_steps P on_curve c (new_server c now tr m) s"
  shows "session_count (srv_hub s) \<le> max_concurrency c \<and>
    int (length (seen (srv_hub s))) \<le> max_dedupe_entries c \<and>
    outbound_queued_bytes (srv_hub s) = dict_sum outbound_bytes (sessions (srv_hub s)) \<and>
    outbound_queued_bytes (srv_hub s) \<in> {0..max_concurrency c * outbound_queue_bytes c} \<and>
    dict_sum (int \<circ> length) (route_registry (srv_mesh s)) \<le> node_mesh_max_route_descriptors c \<and>
    int (length (descriptor_cache (srv_mesh s))) \<le> node_mesh_max_route_descriptors c \<and>
    int (length (pending_queries (srv_mesh s)) + length (pending_acks (srv_mesh s))) \<le> node_mesh_max_pending_operations c"
proof -
  have inv: "srv_inv c s" using assms by (rule reachable_inv)
  then have q: "queues_inv c (srv_hub s)" and n: "session_count (srv_hub s) \<le> max_concurrency c"
    and s: "seen_inv c (srv_hub s)" and m: "mesh_inv c (srv_mesh s)" by (simp_all add: srv_inv_def hub_inv_def)
  have "0 \<le> outbound_queue_bytes c"
    using server_config.frame_fits_queue [of c] server_config.frame_positive [of c] assms(1)
    by (simp add: server_config_def)
  then have "session_count (srv_hub s) * outbound_queue_bytes c \<le> max_concurrency c * outbound_queue_bytes c"
    by (rule mult_right_mono [OF n])
  with queues_inv_total [OF q] queues_invD(3) [OF q] n s m show ?thesis
    by (simp add: seen_inv_def mesh_inv_def registry_inv_def cache_inv_def pending_inv_def pending_operation_count_def)
qed

theorem server_memory_bound_witness:
  "outbound_queued_bytes (srv_hub ex_opened) \<in> {0..128 * 262144}"
  using server_memory_bound [OF default_post_init ex_mesh_init ex_run] by simp

text \<open>C6: In every reachable state, whoever holds a lease on a route is a live session that lists the
  route, has proved possession of its key, has no open challenge and is within the route limit;
  and a session lists no route it has no lease on.\<close>

theorem server_leases_proven:
  assumes "post_init c = Inr ()" "node_mesh_init c values = Inr m"
    and "server_steps P on_curve c (new_server c now tr m) s"
  shows "(\<exists>e. lease (srv_hub s) rid sid = Some e) \<longleftrightarrow>
    (\<exists>sess key. dget (sessions (srv_hub s)) sid = Some sess \<and> rid \<in> set (sess_routes sess) \<and> proven sess \<and>
       challenge sess = None \<and> public_key_raw sess = Some key \<and> key \<noteq> [] \<and>
       int (length (sess_routes sess)) \<le> max (max_routes_per_session c) (max_v1_routes_per_session c))"
proof -
  have inv: "srv_inv c s" using assms by (rule reachable_inv)
  then have "(lease (srv_hub s) rid sid \<noteq> None) = in_session (srv_hub s) sid rid"
    unfolding srv_inv_def hub_inv_def routes_inv_def by blast
  moreover have "dget (sessions (srv_hub s)) sid = Some sess \<Longrightarrow> session_ok (route_limit c) sess" for sess
    using inv by (simp add: srv_inv_def sessions_ok_def)
  ultimately show ?thesis by (force simp: in_session_def session_ok_def route_limit_def)
qed

theorem server_leases_proven_witness: "\<not> (\<exists>e. lease (srv_hub ex_opened) (u ''r'') (u ''a'') = Some e)"
  using server_leases_proven [where rid = "u ''r''" and sid = "u ''a''", OF default_post_init ex_mesh_init ex_run]
  by (simp add: ex_opened_sessions new_session_def)

text \<open>C2: Refinement: seen through \<^const>\<open>server_stage\<close>, every step of the server is a step of the
  abstract session protocol for every session id: connect, greet once, prove with a signature of
  the challenge under the greeted key, close. Nothing else changes what a session has proved.\<close>

theorem server_refines_lifecycle:
  assumes "post_init c = Inr ()" "node_mesh_init c values = Inr m"
    and "server_steps P on_curve c (new_server c now tr m) s" "server_step P on_curve c s effs out s'"
  shows "lifecycle (tp_verify P) (server_stage s sid) (server_stage s' sid)"
proof -
  have inv: "srv_inv c s" using assms(1-3) by (rule reachable_inv)
  show ?thesis
    using srv_hub_lifecycle [OF server_step_hub(1) [OF assms(4) inv] _ assms(1)] inv
    by (simp add: srv_inv_def server_stage_def)
qed

theorem server_refines_lifecycle_witness: "lifecycle (tp_verify ex_tp) None (Some Fresh)"
  using server_refines_lifecycle [where sid = "u ''a''", OF default_post_init ex_mesh_init server_steps.none ex_open_step [unfolded ex_server_def]]
  by (simp add: server_stage_def ex_opened_sessions session_stage_def new_session_def)
    (simp add: new_server_def new_hub_def)

text \<open>C3: No V1 replay: after a message has been relayed, a message with the same type and payload is
  not relayed again within the dedupe window, whoever sends it and whatever the V1, V2 and mesh
  coroutines do in between.\<close>

theorem server_no_replay:
  assumes "post_init c = Inr ()" "srv_inv c s" "srv_inv c s1"
    and "v1_frame (hub_prims P) c t chal sid w raw (srv_hub s) = (srv_hub s1, effs, RelayTo subs out)"
    and "decode_v1 c raw = Inr (JDict d)" "server_steps P on_curve c s1 s2"
    and "srv_clock s2 \<le> now" "now < t + dedupe_window_seconds c"
    and "decode_v1 c raw2 = Inr (JDict d2)" "payload_of d2 = payload_of d" "msg_type d2 = msg_type d"
  shows "snd (snd (v1_frame (hub_prims P) c now chal2 sid2 w2 raw2 (srv_hub s2))) \<noteq> RelayTo subs2 out2"
proof
  assume again: "snd (snd (v1_frame (hub_prims P) c now chal2 sid2 w2 raw2 (srv_hub s2))) = RelayTo subs2 out2"
  have inv0: "hub_inv c (srv_hub s)" using assms(2) by (simp add: srv_inv_def)
  obtain key where key: "v1_dedupe_key (hub_prims P) (payload_of d) (route_of d) (msg_type d) = Inr key"
    "dget (seen (srv_hub s1)) key = Some (t + dedupe_window_seconds c)"
  proof (rule v1_frame_relay [OF assms(4)])
    fix sess d' key
    assume *: "decode_v1 c raw = Inr (JDict d')" "relayed (hub_prims P) c t sid (srv_hub s) sess d' key subs"
      "seen (srv_hub s1) = seen (snd (check_and_mark_seen c t key (dedupe_window_seconds c) (srv_hub s)))"
    have "0 < dedupe_window_seconds c"
      using server_config.times_positive(2) [of c] assms(1) by (simp add: server_config_def)
    then have "dget (seen (srv_hub s1)) key = Some (t + dedupe_window_seconds c)"
      using dedupe.recorded [OF hub_invD(3) [OF inv0]] * by (simp add: relayed_def)
    then show thesis using that * assms(5) by (simp add: relayed_def)
  qed
  have inv2: "srv_inv c s2" using srv_inv_steps assms(1,3,6) by blast
  have "dget (seen (srv_hub s2)) key = Some (t + dedupe_window_seconds c)"
    using steps_seen [OF assms(6,1,3) key(2)] assms(7,8) by simp
  then have "\<not> fst (check_and_mark_seen c now key (dedupe_window_seconds c) (srv_hub s2))"
    using dedupe.blocked [of c "srv_hub s2" key _ now] inv2 assms(8) by (simp add: srv_inv_def hub_inv_def)
  moreover obtain h2 es where "v1_frame (hub_prims P) c now chal2 sid2 w2 raw2 (srv_hub s2) = (h2, es, RelayTo subs2 out2)"
    using again by (metis prod.collapse)
  then obtain sess2 d' key' where "decode_v1 c raw2 = Inr (JDict d')"
    "relayed (hub_prims P) c now sid2 (srv_hub s2) sess2 d' key' subs2"
    by (rule v1_frame_relay)
  then have "v1_dedupe_key (hub_prims P) (payload_of d) (route_of d) (msg_type d) = Inr key'"
    "fst (check_and_mark_seen c now key' (dedupe_window_seconds c) (srv_hub s2))"
    using assms(9-11) by (simp_all add: relayed_def)
  ultimately show False using key(1) by simp
qed

text \<open>The server with the two V1 sessions of the example hub, and primitives that agree with \<^const>\<open>ex_prims\<close>.\<close>

definition ex_tp1 :: trust_prims where
  "ex_tp1 = \<lparr>tp_float = (\<lambda>_. u ''0''), tp_sha256 = (\<lambda>b. b), tp_verify = (\<lambda>_ _ _ _. True), tp_sign = (\<lambda>_. (7, 9))\<rparr>"

lemma ex_hub_prims: "hub_prims ex_tp1 = ex_prims"
  by (simp add: hub_prims_def ex_tp1_def ex_prims_def)

lemma ex_server_inv:
  assumes "hub_inv default_config h" "sessions_ok 8 h" "session_count h \<le> 128"
  shows "srv_inv default_config (set_hub h ex_server)"
proof -
  have "route_limit default_config \<ge> 8" by (simp add: route_limit_def)
  then have "sessions_ok (route_limit default_config) h"
    using assms(2) by (fastforce simp: sessions_ok_def session_ok_def)
  moreover have "srv_inv default_config ex_server"
    unfolding ex_server_def by (rule srv_inv_new [OF default_post_init ex_mesh_init])
  ultimately show ?thesis using assms(1,3) by (simp add: srv_inv_def links_ok_def)
qed

theorem server_no_replay_witness:
  "snd (snd (v1_frame (hub_prims ex_tp1) default_config 100 [] (u ''b'') 2 ex_text
     (fst (v1_frame (hub_prims ex_tp1) default_config 1 [] (u ''a'') 1 ex_text ex_hub)))) \<noteq> RelayTo [u ''a''] JNull"
proof -
  obtain h' effs where f: "v1_frame ex_prims default_config 1 [] (u ''a'') 1 ex_text ex_hub =
      (h', effs, RelayTo [u ''b''] (v1_outgoing default_config ex_signal))" using ex_relay by blast
  have hs: "hub_step ex_prims default_config 1 ex_hub h'"
    using h_frame [of ex_prims default_config 1 ex_hub "[]" "u ''a''" 1 ex_text] f by simp
  have h': "hub_inv default_config h'" using hub_step_inv [OF default_post_init hs ex_hub_inv(1)] .
  have n: "session_count h' \<le> 128"
    using hub_step_count [OF hs ex_hub_inv(1) h'] ex_hub_inv(3) by simp
  have i0: "srv_inv default_config (set_hub ex_hub ex_server)" by (rule ex_server_inv) (simp_all add: ex_hub_inv)
  have i1: "srv_inv default_config (set_hub h' ex_server)"
    by (rule ex_server_inv [OF h' _ n])
      (rule hub_step_sessions_ok [OF hs ex_hub_inv(1) ex_hub_inv(2) default_post_init], simp_all)
  show ?thesis
    using server_no_replay [OF default_post_init i0 i1, of ex_tp1 1 "[]" "u ''a''" 1 ex_text effs "[u ''b'']"
        "v1_outgoing default_config ex_signal" ex_signal "\<lambda>_. True" "set_hub h' ex_server" 100 ex_text ex_signal "[]" "u ''b''" 2
        "[u ''a'']" JNull]
      f ex_decode server_steps.none [of ex_tp1] by (simp add: ex_hub_prims ex_server_def new_server_def set_hub_def)
qed




end
