(* ===== verification/Server_Liveness.thy ===== *)
theory Server_Liveness
  imports Server_Properties
begin

text \<open>
  The end of a V2 connection: its \<^verbatim>\<open>finally\<close> clause can always run to its end, however many routes
  it has to withdraw from the mesh, and then nothing of the session is left.
\<close>

section \<open>Runs\<close>



section \<open>Withdrawing routes\<close>






section \<open>Properties\<close>



end
