(* ===== verification/Json_Roundtrip.thy ===== *)
theory Json_Roundtrip
  imports Canonical Strict_Json
begin

text \<open>
  \<^verbatim>\<open>json.dumps\<close> and \<^verbatim>\<open>json.loads\<close> are inverse on values without floats: decoding the
  text of a value gives the value back. Hence the canonical bytes that are signed and hashed
  determine the value up to the order of keys.
\<close>

section \<open>Strings and numbers\<close>

lemma hex4_control: "c < 32 \<Longrightarrow> hex4 (48 # 48 # hex_digit (c div 16) # hex_digit (c mod 16) # r) = Some c"
proof -
  have "\<forall>c \<in> set [0..<32]. hex4 (48 # 48 # hex_digit (c div 16) # hex_digit (c mod 16) # r) = Some c"
    by (simp add: upt_rec hex4_def hex_digit_def is_hex_def hexval_def)
  then show "c < 32 \<Longrightarrow> ?thesis" by simp
qed

lemma scan_str_escape: "scan_str (escape_char c @ s) = push_char c (scan_str s)"
  by (auto simp: escape_char_def simple_escape_def hex4_control)

lemma scan_str_dump: "scan_str (concat (map escape_char s) @ 34 # r) = Some (s, r)"
  by (induction s) (simp_all add: scan_str_escape)

lemma is_digit_add [simp]: "is_digit (48 + n) \<longleftrightarrow> n < 10"
  by (auto simp: is_digit_def)

lemma dump_nat_digits: "list_all is_digit (dump_nat n)"
  by (induction n rule: dump_nat.induct) (subst dump_nat.simps, simp)

lemma dump_nat_nonempty: "dump_nat n \<noteq> []"
  by (subst dump_nat.simps) simp

lemma dump_nat_hd: "hd (dump_nat n) = 48 \<Longrightarrow> n = 0"
proof (induction n rule: dump_nat.induct)
  case (1 n)
  then show ?case
    by (cases "n < 10") (simp_all add: dump_nat.simps [of n] hd_append dump_nat_nonempty)
qed

lemma dump_nat_zero: "dump_nat 0 = [48]"
  by (simp add: dump_nat.simps)

lemma digits_val_dump: "digits_val (dump_nat n) = n"
proof (induction n rule: dump_nat.induct)
  case (1 n)
  then show ?case
    by (cases "n < 10") (simp_all add: dump_nat.simps [of n] digits_val_def)
qed

text \<open>What may follow a value: nothing, a comma or a closing bracket.\<close>

definition stops :: "pystr \<Rightarrow> bool" where
  "stops r \<longleftrightarrow> r = [] \<or> hd r \<in> {44, 93, 125}"

lemma stops_simps [simp]: "stops []" "stops (44 # r)" "stops (93 # r)" "stops (125 # r)"
  by (simp_all add: stops_def)

lemma stops_scan:
  assumes "stops r"
  shows "takeWhile is_digit r = []" "scan_frac r = (None, r)" "scan_exp r = (None, r)"
proof -
  have "r = [] \<or> (\<exists>s. r = 44 # s \<or> r = 93 # s \<or> r = 125 # s)" using assms by (cases r) (auto simp: stops_def)
  then show "takeWhile is_digit r = []" "scan_frac r = (None, r)" "scan_exp r = (None, r)"
    by (auto simp: is_digit_def scan_frac_def scan_exp_def)
qed

lemma scan_int_dump:
  assumes "stops r"
  shows "scan_int (dump_nat n @ r) = Some (dump_nat n, r)"
proof (cases "n = 0")
  case False
  obtain d ds where d: "dump_nat n = d # ds" by (cases "dump_nat n") (simp_all add: dump_nat_nonempty)
  have all: "\<forall>x \<in> set (d # ds). is_digit x" using dump_nat_digits [of n] by (simp add: d list_all_iff)
  have "d \<noteq> 48" using dump_nat_hd [of n] False by (auto simp: d)
  moreover have "takeWhile is_digit ((d # ds) @ r) = d # ds" "dropWhile is_digit ((d # ds) @ r) = r"
    using all stops_scan(1) [OF assms] takeWhile_dropWhile_id [of is_digit r]
    by (simp_all add: takeWhile_append2 dropWhile_append2)
  ultimately show ?thesis using all by (simp add: scan_int_def d)
qed (simp add: scan_int_def dump_nat_zero)

lemma digit_not_literal:
  assumes "is_digit d"
  shows "\<not> has_prefix ''null'' (d # s)" "\<not> has_prefix ''true'' (d # s)" "\<not> has_prefix ''false'' (d # s)"
    "\<not> has_prefix ''NaN'' (d # s)" "\<not> has_prefix ''Infinity'' (d # s)" "\<not> has_prefix ''-Infinity'' (d # s)"
    "\<not> has_prefix ''-Infinity'' (45 # d # s)"
  using assms by (auto simp: has_prefix_def is_digit_def u_def)

lemma minus_not_literal:
  "\<not> has_prefix ''null'' (45 # s)" "\<not> has_prefix ''true'' (45 # s)" "\<not> has_prefix ''false'' (45 # s)"
  "\<not> has_prefix ''NaN'' (45 # s)" "\<not> has_prefix ''Infinity'' (45 # s)"
  by (auto simp: has_prefix_def u_def)

lemma scan_atom_nat:
  assumes "stops r" "length (dump_nat n) \<le> 4300"
  shows "scan_atom (dump_nat n @ r) = Done (JInt (int n)) r" "scan_atom (45 # dump_nat n @ r) = Done (JInt (- int n)) r"
proof -
  obtain d ds where d: "dump_nat n = d # ds" by (cases "dump_nat n") (simp_all add: dump_nat_nonempty)
  have dig: "is_digit d" using dump_nat_digits [of n] by (simp add: d)
  then have "d \<noteq> 45" by (auto simp: is_digit_def)
  then show "scan_atom (dump_nat n @ r) = Done (JInt (int n)) r" "scan_atom (45 # dump_nat n @ r) = Done (JInt (- int n)) r"
    using scan_int_dump [OF assms(1), of n] digits_val_dump [of n] stops_scan(2,3) [OF assms(1)] assms(2)
    by (simp_all add: scan_atom_def d digit_not_literal [OF dig] minus_not_literal scan_number_def make_number_def)
qed

lemma scan_atom_int:
  assumes "stops r" "length (dump_nat (nat \<bar>i\<bar>)) \<le> 4300"
  shows "scan_atom (dump_int i @ r) = Done (JInt i) r"
  using scan_atom_nat [OF assms] by (cases "i < 0") (simp_all add: dump_int_def)

section \<open>Values\<close>

text \<open>No floats, and integers within the limit of 4300 digits that CPython puts on conversions.\<close>

fun exact :: "json \<Rightarrow> bool" where
  "exact (JInt i) \<longleftrightarrow> length (dump_nat (nat \<bar>i\<bar>)) \<le> 4300"
| "exact (JFloat _) \<longleftrightarrow> False"
| "exact (JList xs) \<longleftrightarrow> list_all exact xs"
| "exact (JDict kvs) \<longleftrightarrow> list_all (\<lambda>(k, v). exact v) kvs"
| "exact _ \<longleftrightarrow> True"

abbreviation dump_member :: "(real \<Rightarrow> pystr) \<Rightarrow> pystr \<times> json \<Rightarrow> pystr" where
  "dump_member frepr \<equiv> \<lambda>(k, v). dump_str k @ 58 # dumps frepr v"

lemma dumps_firstE:
  assumes "exact v"
  obtains c s where "dumps frepr v = c # s" "\<not> is_ws c" "c \<notin> {93, 125, 65279}"
proof (cases v)
  case (JInt i)
  obtain d ds where d: "dump_nat (nat \<bar>i\<bar>) = d # ds" by (cases "dump_nat (nat \<bar>i\<bar>)") (simp_all add: dump_nat_nonempty)
  then have "is_digit d" using dump_nat_digits [of "nat \<bar>i\<bar>"] by simp
  then show ?thesis using that JInt d by (cases "i < 0") (auto simp: dump_int_def is_ws_def is_digit_def)
next
  case (JBool b)
  then show ?thesis using that by (cases b) (simp_all add: is_ws_def u_def)
qed (use that assms in \<open>auto simp: dump_str_def is_ws_def u_def split: if_splits\<close>)

lemma dumps_first: "exact v \<Longrightarrow> \<exists>c s. dumps frepr v = c # s \<and> \<not> is_ws c \<and> c \<noteq> 93 \<and> c \<noteq> 65279"
  by (rule dumps_firstE [of v frepr]) auto

lemma scan_literals:
  "scan_atom (u ''null'' @ r) = Done JNull r" "scan_atom (u ''true'' @ r) = Done (JBool True) r"
  "scan_atom (u ''false'' @ r) = Done (JBool False) r"
  by (simp_all add: scan_atom_def has_prefix_def u_def)

lemma scan_dumps:
  "(\<forall>v r. exact v \<longrightarrow> unique_keys v \<longrightarrow> stops r \<longrightarrow> scan_value n (dumps frepr v @ r) \<in> {Fuel, Done v r}) \<and>
   (\<forall>vs r. vs \<noteq> [] \<longrightarrow> list_all exact vs \<longrightarrow> list_all unique_keys vs \<longrightarrow>
      scan_elems n (join_comma (map (dumps frepr) vs) @ 93 # r) \<in> {Fuel, Done vs r}) \<and>
   (\<forall>kvs r. kvs \<noteq> [] \<longrightarrow> list_all (\<lambda>(k, v). exact v) kvs \<longrightarrow> list_all (\<lambda>(k, v). unique_keys v) kvs \<longrightarrow>
      scan_members n (join_comma (map (dump_member frepr) kvs) @ 125 # r) \<in> {Fuel, Done kvs r})"
proof (induction n)
  case (Suc n)
  have ws: "\<not> is_ws 93" "\<not> is_ws 125" "\<not> is_ws 44" "\<not> is_ws 58" "\<not> is_ws 34" by (simp_all add: is_ws_def)
  have val: "exact v \<Longrightarrow> unique_keys v \<Longrightarrow> stops r \<Longrightarrow> scan_value n (dumps frepr v @ r) = Fuel \<or> scan_value n (dumps frepr v @ r) = Done v r"
    for v r using Suc by blast
  have elems: "vs \<noteq> [] \<Longrightarrow> list_all exact vs \<Longrightarrow> list_all unique_keys vs \<Longrightarrow>
      scan_elems n (join_comma (map (dumps frepr) vs) @ 93 # r) \<in> {Fuel, Done vs r}" for vs r using Suc by blast
  have members: "kvs \<noteq> [] \<Longrightarrow> list_all (\<lambda>(k, v). exact v) kvs \<Longrightarrow> list_all (\<lambda>(k, v). unique_keys v) kvs \<Longrightarrow>
      scan_members n (join_comma (map (dump_member frepr) kvs) @ 125 # r) \<in> {Fuel, Done kvs r}" for kvs r using Suc by blast
  have "scan_elems (Suc n) (join_comma (map (dumps frepr) vs) @ 93 # r) \<in> {Fuel, Done vs r}"
    if h: "vs \<noteq> []" "list_all exact vs" "list_all unique_keys vs" for vs r
  proof -
    obtain v ws where vs: "vs = v # ws" using h(1) by (cases vs) auto
    show ?thesis
    proof (cases ws)
      case Nil
      then show ?thesis using val [of v "93 # r"] h ws by (auto simp: vs)
    next
      case (Cons w xs)
      let ?r = "join_comma (map (dumps frepr) ws) @ 93 # r"
      obtain c s where "dumps frepr w = c # s" "\<not> is_ws c" using dumps_first [of w frepr] h(2) by (auto simp: vs Cons)
      then have "skip_ws ?r = ?r" by (cases xs) (simp_all add: Cons)
      moreover have "scan_elems n ?r \<in> {Fuel, Done ws r}" using h by (intro elems) (simp_all add: vs Cons)
      ultimately show ?thesis using val [of v "44 # ?r"] h ws by (auto simp: vs Cons map_scan_def)
    qed
  qed
  moreover have "scan_members (Suc n) (join_comma (map (dump_member frepr) kvs) @ 125 # r) \<in> {Fuel, Done kvs r}"
    if h: "kvs \<noteq> []" "list_all (\<lambda>(k, v). exact v) kvs" "list_all (\<lambda>(k, v). unique_keys v) kvs" for kvs r
  proof -
    obtain k v rest where kvs: "kvs = (k, v) # rest" using h(1) by (cases kvs) auto
    obtain c s where c: "dumps frepr v = c # s" "\<not> is_ws c" using dumps_first [of v frepr] h(2) by (auto simp: kvs)
    show ?thesis
    proof (cases rest)
      case Nil
      then show ?thesis using val [of v "125 # r"] h ws c by (auto simp: kvs dump_str_def scan_str_dump)
    next
      case (Cons x xs)
      let ?r = "join_comma (map (dump_member frepr) rest) @ 125 # r"
      have "\<exists>t. ?r = 34 # t" by (cases xs; cases x) (simp_all add: Cons dump_str_def)
      then have "skip_ws ?r = ?r" using ws by auto
      moreover have "scan_members n ?r \<in> {Fuel, Done rest r}" using h by (intro members) (simp_all add: kvs Cons)
      ultimately show ?thesis
        using val [of v "44 # ?r"] h ws c by (auto simp: kvs Cons dump_str_def scan_str_dump map_scan_def)
    qed
  qed
  moreover have "scan_value (Suc n) (dumps frepr v @ r) \<in> {Fuel, Done v r}"
    if v: "exact v" "unique_keys v" "stops r" for v r
  proof (cases v)
    case (JInt i)
    then obtain c s where "dumps frepr v = c # s" "c \<notin> {34, 91, 123}"
      using dump_nat_digits [of "nat \<bar>i\<bar>"] dump_nat_nonempty [of "nat \<bar>i\<bar>"]
      by (cases "dump_nat (nat \<bar>i\<bar>)"; cases "i < 0") (auto simp: dump_int_def is_digit_def)
    then show ?thesis using scan_atom_int [OF v(3), of i] v JInt by simp
  next
    case (JList vs)
    show ?thesis
    proof (cases vs)
      case (Cons w ws)
      let ?s = "join_comma (map (dumps frepr) vs) @ 93 # r"
      obtain c s where "dumps frepr w = c # s" "\<not> is_ws c" "c \<noteq> 93"
        using dumps_first [of w frepr] v(1) by (auto simp: JList Cons)
      then have "\<exists>t. ?s = c # t \<and> \<not> is_ws c \<and> c \<noteq> 93" by (cases ws) (simp_all add: Cons)
      moreover have "scan_elems n ?s \<in> {Fuel, Done vs r}" using v by (intro elems) (simp_all add: JList Cons)
      ultimately show ?thesis by (auto simp: JList map_scan_def)
    qed (use ws in \<open>simp add: JList\<close>)
  next
    case (JDict kvs)
    show ?thesis
    proof (cases kvs)
      case (Cons x xs)
      let ?s = "join_comma (map (dump_member frepr) kvs) @ 125 # r"
      have "\<exists>t. ?s = 34 # t" by (cases xs; cases x) (simp_all add: Cons dump_str_def)
      moreover have "scan_members n ?s \<in> {Fuel, Done kvs r}" using v by (intro members) (simp_all add: JDict Cons)
      ultimately show ?thesis using v ws by (auto simp: JDict unique_object_def)
    qed (use ws in \<open>simp add: JDict\<close>)
  qed (use v scan_literals [of r] in \<open>auto simp: dump_str_def scan_str_dump u_def split: if_splits\<close>)
  ultimately show ?case by blast
qed simp

lemma json_loads_dumps:
  assumes "exact v" "unique_keys v"
  shows "json_loads (dumps frepr v) = Inr v"
proof -
  obtain c s where c: "dumps frepr v = c # s" "\<not> is_ws c" "c \<noteq> 65279" using dumps_first [OF assms(1)] by blast
  have "scan_value (Suc (2 * length (c # s))) (c # s) \<in> {Fuel, Done v []}"
    using scan_dumps [of "Suc (2 * length (c # s))" frepr] assms stops_simps(1) c(1) by (metis append_Nil2)
  moreover have "scan_value (Suc (2 * length (c # s))) (c # s) \<noteq> Fuel"
    using json_loads_scan [of "c # s"] c(2) by simp
  ultimately show ?thesis using c by (simp add: json_loads_def del: scan_value.simps)
qed

section \<open>Canonical texts\<close>

lemma wf_sort_key: "wf_dict (sort_key fst d) = wf_dict d"
  by (simp add: distinct_map)

lemma unique_keys_sort_keys: "unique_keys v \<Longrightarrow> unique_keys (sort_keys v)"
proof (induction v rule: sort_keys.induct)
  case (2 kvs)
  have "wf_dict (map (\<lambda>(k, v). (k, sort_keys v)) kvs) = wf_dict kvs" by (simp add: comp_def case_prod_unfold)
  then show ?case using 2 by (auto simp: wf_sort_key list_all_iff)
qed (auto simp: list_all_iff)

lemma exact_sort_keys: "exact v \<Longrightarrow> exact (sort_keys v)"
  by (induction v rule: sort_keys.induct) (force simp: list_all_iff)+

text \<open>Texts of code points, as every Python string is.\<close>

abbreviation code_points :: "pystr \<Rightarrow> bool" where
  "code_points s \<equiv> list_all (\<lambda>c. c \<le> 1114111) s"

lemma code_points_join: "code_points (join_comma ss) \<longleftrightarrow> list_all code_points ss"
  by (induction ss rule: join_comma.induct) auto

lemma code_points_dump_nat: "code_points (dump_nat n)"
  using dump_nat_digits [of n] by (rule list.pred_mono_strong) (simp add: is_digit_def)

lemma hex_digit_le: "hex_digit n \<le> n + 87"
  by (simp add: hex_digit_def)

lemma code_points_escape: "c \<le> 1114111 \<Longrightarrow> code_points (escape_char c)"
  using hex_digit_le [of "c div 16"] hex_digit_le [of "c mod 16"] div_le_dividend [of c 16] mod_less_eq_dividend [of c 16]
  by (auto simp: escape_char_def)

lemma code_points_dump_str: "code_points s \<Longrightarrow> code_points (dump_str s)"
  using code_points_escape by (fastforce simp: dump_str_def list_all_iff)

lemma code_points_u: "code_points (u s)"
proof -
  have "(of_char ch :: nat) < 256" for ch :: char by (rule nat_of_char_less_256)
  then have "of_char ch \<le> (1114111 :: nat)" for ch :: char by (rule less_imp_le [OF less_trans]) simp
  then show ?thesis by (simp add: u_def list_all_iff)
qed

lemma code_points_dumps: "exact v \<Longrightarrow> all_strings code_points v \<Longrightarrow> code_points (dumps frepr v)"
proof (induction frepr v rule: dumps.induct)
  case (7 frepr kvs)
  have "code_points (dump_str k @ 58 # dumps frepr v)" if kv: "(k, v) \<in> set kvs" for k v
  proof -
    have "exact v" "all_strings code_points v" "code_points k"
      using 7(2,3) kv unfolding exact.simps all_strings.simps list_all_iff [of _ kvs] by blast+
    then show ?thesis using 7(1) [OF kv refl] code_points_dump_str [of k] by simp
  qed
  then have "list_all (\<lambda>(k, v). code_points (dump_str k @ 58 # dumps frepr v)) kvs"
    unfolding list_all_iff [of _ kvs] by blast
  then show ?case by (simp add: code_points_join list.pred_map comp_def case_prod_unfold)
next
  case (6 frepr xs)
  then have "list_all (\<lambda>x. code_points (dumps frepr x)) xs" by (simp add: list_all_iff)
  then show ?case by (simp add: code_points_join list.pred_map comp_def)
qed (simp_all add: code_points_u code_points_dump_str dump_int_def code_points_dump_nat)

lemma canonical_decodes:
  assumes "exact v" "unique_keys v" "all_strings code_points v" "canonical_json_bytes frepr v = Inr b"
  shows "map_option json_loads (utf8_decode b) = Some (Inr (sort_keys v))"
proof -
  have "code_points (dumps frepr (sort_keys v))"
    using assms by (simp add: code_points_dumps exact_sort_keys all_strings_sort_keys)
  then have "utf8_decode b = Some (dumps frepr (sort_keys v))"
    using assms(4) utf8_decode_encode by (auto simp: canonical_json_bytes_def split: option.splits)
  then show ?thesis using assms(1,2) by (simp add: json_loads_dumps exact_sort_keys unique_keys_sort_keys)
qed

section \<open>Properties\<close>

text \<open>C14: Round trip: a value without floats whose objects have distinct keys is written by
  \<^verbatim>\<open>json.dumps\<close> as a text that the strict decoder accepts, within its limits, and decodes to
  the same value.\<close>

theorem json_roundtrip:
  assumes "exact v" "unique_keys v" "utf8_len (dumps frepr v) = Some n" "int n \<le> max_bytes"
    "int (depth v) \<le> max_depth" "int (nodes v) \<le> max_nodes" "all_strings (string_fits max_string) v" "0 \<le> max_depth"
  shows "loads_strict (Text (dumps frepr v)) max_bytes max_depth max_nodes max_string = Inr v"
  using assms json_loads_dumps [OF assms(1,2), of frepr] by (simp add: loads_strict_text)

text \<open>C15: Canonical bytes bind the value: two values without floats that have the same canonical bytes
  are equal up to the order of object keys, so a signature or hash of the bytes is one of the value.\<close>

theorem canonical_injective:
  assumes "exact v" "unique_keys v" "all_strings code_points v" "canonical_json_bytes frepr v = Inr b"
    and "exact v'" "unique_keys v'" "all_strings code_points v'" "canonical_json_bytes frepr v' = Inr b"
  shows "sort_keys v = sort_keys v'"
  using canonical_decodes [OF assms(1-4)] canonical_decodes [OF assms(5-8)] by simp

definition ex_value :: json where
  "ex_value = JDict [(u ''b'', JList [JInt (- 12), JNull]), (u ''a'', JStr [34, 10, 233, 1])]"

definition ex_swapped :: json where
  "ex_swapped = JDict [(u ''a'', JStr [34, 10, 233, 1]), (u ''b'', JList [JInt (- 12), JNull])]"

lemmas dump_eval = dump_str_def escape_char_def dump_int_def dump_nat.simps hex_digit_def

lemma ex_dump: "dumps (\<lambda>_. []) ex_value =
    u ''{'' @ [34, 98, 34, 58] @ u ''[-12,null],'' @ [34, 97, 34, 58, 34, 92, 34, 92, 110, 233, 92, 117, 48, 48, 48, 49, 34, 125]"
  by (simp add: ex_value_def dump_eval u_def)

theorem json_roundtrip_witness: "loads_strict (Text (dumps (\<lambda>_. []) ex_value)) 100 4 10 100 = Inr ex_value"
proof -
  have "utf8_len (dumps (\<lambda>_. []) ex_value) = Some 35"
    unfolding ex_dump by (simp add: utf8_len_alt is_surrogate_def utf8_cp_def u_def)
  then show ?thesis
    using json_roundtrip [of ex_value "\<lambda>_. []" 35 100 4 10 100]
    by (simp add: ex_value_def dump_eval string_fits_def utf8_len_alt is_surrogate_def utf8_cp_def u_def)
qed

theorem canonical_injective_witness: "sort_keys ex_value = sort_keys ex_swapped"
proof -
  have same: "canonical_json_bytes (\<lambda>_. []) ex_value = canonical_json_bytes (\<lambda>_. []) ex_swapped"
    by (simp add: canonical_json_bytes_def ex_value_def ex_swapped_def u_def)
  have "all_strings encodable ex_value" by (simp add: ex_value_def is_surrogate_def)
  then have "encodable (dumps (\<lambda>_. []) (sort_keys ex_value))" by (simp add: dumps_encodable all_strings_sort_keys)
  then obtain b where "canonical_json_bytes (\<lambda>_. []) ex_value = Inr b"
    by (auto simp: utf8_encode_def encodable_def list_ex_iff canonical_json_bytes_def)
  then show ?thesis
    using canonical_injective [of ex_value "\<lambda>_. []" b ex_swapped] same
    by (simp add: ex_value_def ex_swapped_def dump_nat.simps u_def)
qed

end
