(* ===== verification/V2_Properties.thy ===== *)
theory V2_Properties
  imports Server_History Json_Roundtrip V1_Properties
begin

text \<open>
  The properties of the V2 endpoint over single requests and frames: what an accepted signal
  guarantees and when a signal is accepted, what HELLO demands, and how admissions are limited.
\<close>

section \<open>An example\<close>

text \<open>
  Two proven V2 sessions on one route, and a signal from the first to the second as it comes over
  the wire.
\<close>

abbreviation zeros :: "nat \<Rightarrow> pystr" where
  "zeros n \<equiv> hex (replicate n 0)"

definition ex_v2_session :: "nat \<Rightarrow> session" where
  "ex_v2_session w = (new_session w 0)\<lparr>proven := True, public_key_raw := Some (replicate 65 0), sess_routes := [zeros 32],
     session_protocol := 2, identity_key_hex := Some (zeros 65), identity_key_id := Some (zeros 32),
     encryption_key_hex := Some (zeros 65), encryption_key_id := Some (zeros 32)\<rparr>"

definition ex_v2_hub :: hub where
  "ex_v2_hub = (new_hub default_config 0)
     \<lparr>sessions := [(u ''a'', ex_v2_session 1), (u ''b'', ex_v2_session 2)],
      routes := [(zeros 32, [(u ''a'', 90), (u ''b'', 90)])]\<rparr>"

definition ex_v2_state :: v2_state where
  "ex_v2_state = \<lparr>v2_hub = ex_v2_hub, v2_trust = ex_trust,
     signal_limiter = new_bucket (real_of_int (signal_global_burst default_config)) (signal_global_per_second default_config) 0,
     admission_lim = new_admission_limiter 1 1 1 1 0, turn_lim = new_admission_limiter 1 1 1 1 0\<rparr>"

definition ex_v2_payload :: "(pystr \<times> json) list" where
  "ex_v2_payload = [(u ''routeTag'', JStr (zeros 32)), (u ''fromSessionId'', JStr (u ''a'')),
     (u ''toSessionId'', JStr (u ''b'')), (u ''messageId'', JStr (u ''m'')), (u ''sequence'', JInt 1),
     (u ''expiresAt'', JInt 100), (u ''keyId'', JStr (zeros 32)), (u ''senderKeyId'', JStr (zeros 32)),
     (u ''senderIdentityKeyHex'', JStr (zeros 65)), (u ''encHex'', JStr (zeros 65)),
     (u ''ciphertextHex'', JStr (zeros 16)), (u ''signatureHex'', JStr (zeros 64))]"

definition ex_v2_signal :: "(pystr \<times> json) list" where
  "ex_v2_signal = [(u ''protocol'', JStr (u ''particle-signal/2'')), (u ''type'', JStr (u ''SIGNAL'')),
     (u ''id'', JStr (u ''i'')), (u ''payload'', JDict ex_v2_payload)]"

definition ex_v2_text :: pystr where
  "ex_v2_text = dumps (\<lambda>_. []) (JDict ex_v2_signal)"

definition ex_v2_prims :: trust_prims where
  "ex_v2_prims = \<lparr>tp_float = (\<lambda>_. []), tp_sha256 = (\<lambda>b. b), tp_verify = (\<lambda>_ _ _ _. True), tp_sign = (\<lambda>_. (7, 9))\<rparr>"

lemma dump_plain: "list_all (\<lambda>c. 32 \<le> c \<and> c \<noteq> 34 \<and> c \<noteq> 92) s \<Longrightarrow> dump_str s = 34 # s @ [34]"
proof -
  assume "list_all (\<lambda>c. 32 \<le> c \<and> c \<noteq> 34 \<and> c \<noteq> 92) s"
  then have "concat (map escape_char s) = s" by (induction s) (auto simp: escape_char_def)
  then show ?thesis by (simp add: dump_str_def)
qed

lemma dump_hex: "dump_str (hex bs) = 34 # hex bs @ [34]"
  by (rule dump_plain, rule list.pred_mono_strong [OF hex_lower]) (auto simp: is_lower_hex_def)

lemma hex_fits: "string_fits n (hex bs) \<longleftrightarrow> int (2 * length bs) \<le> n"
  using utf8_len_ascii [OF hex_ascii] by (simp add: string_fits_def)

lemma utf8_len_hex: "utf8_len (hex bs) = Some (2 * length bs)"
  using utf8_len_ascii [OF hex_ascii] by simp

lemma ex_v2_ascii: "list_all (\<lambda>c. c < 128) ex_v2_text" "length ex_v2_text \<le> 65536"
  unfolding ex_v2_text_def ex_v2_signal_def ex_v2_payload_def
  by (simp_all add: dump_hex hex_ascii dump_plain dump_int_def dump_nat.simps u_def)

lemma ex_v2_validate: "validate_v2_message (JDict ex_v2_signal) = Inr ()"
proof -
  have l: "utf8_len (u ''a'') = Some 1" "utf8_len (u ''b'') = Some 1" "utf8_len (u ''m'') = Some 1" "utf8_len (u ''i'') = Some 1"
    by (simp_all add: utf8_len_ascii u_def)
  show ?thesis
    unfolding validate_v2_message_def v2_payload_check_def v2_signal_check_def ex_v2_signal_def ex_v2_payload_def
    by (simp add: validate_eval l utf8_len_hex hex_field_def route_tag_field_def keys_are_def SIGNAL_FIELDS_def
        v2_expected_protocol_def hex_lower valid_sequence_def is_int_def MAX_ID_BYTES_def)
qed

lemma ex_v2_loads: "loads_strict (Text ex_v2_text) 65536 16 512 65536 = Inr (JDict ex_v2_signal)"
proof -
  have "json_loads ex_v2_text = Inr (JDict ex_v2_signal)"
    unfolding ex_v2_text_def
    by (rule json_loads_dumps) (simp_all add: ex_v2_signal_def ex_v2_payload_def dump_nat.simps)
  moreover have "utf8_len ex_v2_text = Some (length ex_v2_text)" using ex_v2_ascii(1) by (rule utf8_len_ascii)
  moreover have "all_strings (string_fits 65536) (JDict ex_v2_signal)"
    by (simp add: ex_v2_signal_def ex_v2_payload_def ascii_fits hex_fits)
  ultimately show ?thesis
    using ex_v2_ascii(2) by (simp add: loads_strict_text) (simp add: ex_v2_signal_def ex_v2_payload_def)
qed

lemma ex_v2_decode: "decode_v2 default_config ex_v2_text = Some ex_v2_signal"
  by (simp add: decode_v2_def ex_v2_loads ex_v2_validate dict_of_def)

section \<open>Signals\<close>

lemma subscriber_other: "t \<in> set (route_subscribers now rid (Some sid) h) \<Longrightarrow> t \<noteq> sid"
  by (auto simp: route_subscribers_def split: option.splits)

lemma mark_hub [simp]:
  "routes (snd (check_and_mark_seen c now k ttl h)) = routes h" "sessions (snd (check_and_mark_seen c now k ttl h)) = sessions h"
  by simp_all

lemma v2_relay_delivers:
  assumes s: "dget (sessions (v2_hub st)) sid = Some s" and "accepted c now sid payload s (v2_hub st)"
    and sub: "jstr (jget payload ''toSessionId'') \<in> set (route_subscribers now (jstr (jget payload ''routeTag'')) (Some sid) (v2_hub st))"
    and t: "dget (sessions (v2_hub st)) (jstr (jget payload ''toSessionId'')) = Some t" "proven t" "session_protocol t = 2"
      "json_opt (encryption_key_id t) = jget payload ''keyId''"
    and room: "utf8_len (dumps (tp_float P) (signal_out mid payload)) = Some n" "\<not> queue_full c t"
      "outbound_bytes t + int n \<le> outbound_queue_bytes c"
  shows "snd (v2_relay P c now elapsed remote sid w mid payload s st) = ([SendFrame w (signal_ack mid payload True)], VContinue)"
    "\<exists>t'. dget (sessions (v2_hub (fst (v2_relay P c now elapsed remote sid w mid payload s st)))) (jstr (jget payload ''toSessionId'')) = Some t' \<and>
       outbound_queue t' = outbound_queue t @ [(signal_out mid payload, n)]"
proof -
  let ?target = "jstr (jget payload ''toSessionId'')"
  let ?h1 = "relay_marked c now sid payload s (v2_hub st)"
  have ne: "?target \<noteq> sid" using sub by (rule subscriber_other)
  have "recipient remote payload ?h1 = peer_descriptor ?target (v2_hub st)"
    using t unfolding recipient_relay_marked [OF s] by (simp add: recipient_def peer_descriptor_def)
  then have d: "\<exists>x. recipient remote payload ?h1 = Some x \<and> jget x ''keyId'' = jget payload ''keyId''"
    using t by (simp add: peer_descriptor_def jget_def)
  have sub1: "?target \<in> set (route_subscribers now (jstr (jget payload ''routeTag'')) (Some sid) ?h1)"
    using sub by (simp add: route_subscribers_def)
  have "dget (sessions ?h1) ?target = Some t" using t(1) ne by (simp add: dget_dset)
  then obtain h2 t' where send: "send_session (tp_float P) c ?target (signal_out mid payload) ?h1 = Inr (True, h2, [])"
      "dget (sessions h2) ?target = Some t'" "outbound_queue t' = outbound_queue t @ [(signal_out mid payload, n)]"
    using room by (auto simp: send_session_def Let_def dget_dset)
  show "snd (v2_relay P c now elapsed remote sid w mid payload s st) = ([SendFrame w (signal_ack mid payload True)], VContinue)"
    "\<exists>t'. dget (sessions (v2_hub (fst (v2_relay P c now elapsed remote sid w mid payload s st)))) ?target = Some t' \<and>
       outbound_queue t' = outbound_queue t @ [(signal_out mid payload, n)]"
    using assms(2) d sub1 send by (auto simp: v2_relay_eq Let_def accepted_def)
qed

lemma v2_signal_relays:
  assumes "authentic_signal P wall sid s (payload_of d)" "fst (limit now sid ''SIGNAL_V2'' (v2_hub st))"
    "fst (try_consume now 1 (signal_limiter st))"
  shows "v2_signal P c now wall elapsed remote sid w d s st =
    v2_relay P c now elapsed remote sid w (jget d ''id'') (payload_of d) s
      (st\<lparr>v2_hub := snd (limit now sid ''SIGNAL_V2'' (v2_hub st)), signal_limiter := snd (try_consume now 1 (signal_limiter st))\<rparr>)"
  using assms
  by (auto simp: v2_signal_def Let_def case_prod_unfold authentic_signal_def simp del: try_consume_simps)

lemma v2_handle_delivers:
  assumes "dget (sessions (v2_hub st)) sid = Some s" "jget d ''type'' = JStr (u ''SIGNAL'')"
    "authentic_signal P wall sid s (payload_of d)" "fst (limit now sid ''SIGNAL_V2'' (v2_hub st))"
    "fst (try_consume now 1 (signal_limiter st))"
    "fst (check_and_mark_seen c now (replay_key sid (payload_of d)) (dedupe_window_seconds c) (v2_hub st))"
    and target: "jget (payload_of d) ''toSessionId'' = JStr target"
      "target \<in> set (route_subscribers now (jstr (jget (payload_of d) ''routeTag'')) (Some sid) (v2_hub st))"
      "dget (sessions (v2_hub st)) target = Some t" "proven t" "session_protocol t = 2"
      "json_opt (encryption_key_id t) = jget (payload_of d) ''keyId''"
    and room: "utf8_len (dumps (tp_float P) (signal_out (jget d ''id'') (payload_of d))) = Some n" "\<not> queue_full c t"
      "outbound_bytes t + int n \<le> outbound_queue_bytes c"
  shows "snd (v2_handle P on_curve c now wall elapsed remote chal sid w d st) =
      ([SendFrame w (signal_ack (jget d ''id'') (payload_of d) True)], VContinue) \<and>
    (\<exists>t'. dget (sessions (v2_hub (fst (v2_handle P on_curve c now wall elapsed remote chal sid w d st)))) target = Some t' \<and>
       outbound_queue t' = outbound_queue t @ [(signal_out (jget d ''id'') (payload_of d), n)])"
proof -
  let ?st = "st\<lparr>v2_hub := snd (limit now sid ''SIGNAL_V2'' (v2_hub st)), signal_limiter := snd (try_consume now 1 (signal_limiter st))\<rparr>"
  have h: "v2_handle P on_curve c now wall elapsed remote chal sid w d st =
      v2_relay P c now elapsed remote sid w (jget d ''id'') (payload_of d) s ?st"
    using assms(1-3) v2_signal_relays [OF assms(3-5), of c elapsed remote w]
    by (simp add: v2_handle_def authentic_signal_def jstr_def)
  have "fst (check_and_mark_seen c now k ttl (v2_hub ?st)) = fst (check_and_mark_seen c now k ttl (v2_hub st))" for k ttl
    by (rule mark_seen_cong) simp
  then have acc: "accepted c now sid (payload_of d) s (v2_hub ?st)"
    using assms(3,6) by (simp add: accepted_def authentic_signal_def)
  have jt: "jstr (jget (payload_of d) ''toSessionId'') = target" using target(1) by (simp add: jstr_def)
  have sub: "jstr (jget (payload_of d) ''toSessionId'') \<in>
      set (route_subscribers now (jstr (jget (payload_of d) ''routeTag'')) (Some sid) (v2_hub ?st))"
    using target(2) unfolding jt by (simp add: route_subscribers_def)
  have "dget (sessions (v2_hub ?st)) sid = Some s" "dget (sessions (v2_hub ?st)) (jstr (jget (payload_of d) ''toSessionId'')) = Some t"
    using assms(1) target(3) jt by simp_all
  note r = v2_relay_delivers [OF this(1) acc sub this(2) target(4-6) room, of elapsed remote w]
  from r(1) r(2) [unfolded jt] show ?thesis unfolding h by blast
qed

lemma ex_v2_fields:
  "payload_of ex_v2_signal = ex_v2_payload" "jget ex_v2_signal ''id'' = JStr (u ''i'')" "jget ex_v2_signal ''type'' = JStr (u ''SIGNAL'')"
  "signal_out (JStr (u ''i'')) ex_v2_payload = JDict ex_v2_signal"
  by (simp_all add: ex_v2_signal_def payload_of_def jget_def signal_out_def)

lemma ex_v2_payload_fields:
  "jget ex_v2_payload ''routeTag'' = JStr (zeros 32)" "jget ex_v2_payload ''toSessionId'' = JStr (u ''b'')"
  "jget ex_v2_payload ''keyId'' = JStr (zeros 32)" "jget ex_v2_payload ''sequence'' = JInt 1"
  "jget ex_v2_payload ''expiresAt'' = JInt 100" "jget ex_v2_payload ''signatureHex'' = JStr (zeros 64)"
  "sender_bound (u ''a'') ex_v2_payload (ex_v2_session 1)"
  by (simp_all add: ex_v2_payload_def jget_def sender_bound_def ex_v2_session_def json_opt_def)

lemma ex_v2_authentic: "authentic_signal ex_v2_prims 0 (u ''a'') (ex_v2_session 1) ex_v2_payload"
proof -
  have "all_strings encodable (JDict (signed_fields ex_v2_payload))"
    by (simp add: signed_fields_def ex_v2_payload_def ascii_encodable hex_ascii)
  moreover have "encodable (tp_float ex_v2_prims x)" for x by (simp add: ex_v2_prims_def)
  ultimately obtain key where "content_hash_hex (tp_float ex_v2_prims) id (JDict (signed_fields ex_v2_payload)) = Inr key"
    using content_hash_ok by blast
  then obtain b where "canonical_json_bytes (tp_float ex_v2_prims) (JDict (signed_fields ex_v2_payload)) = Inr b"
    by (auto simp: content_hash_hex_def rbind_eq_Inr)
  then show ?thesis
    using ex_v2_payload_fields(7)
    by (simp add: authentic_signal_def ex_v2_payload_fields(1-6) jstr_def int_of_def)
      (simp add: ex_v2_session_def new_session_def ex_v2_prims_def verify_signature_def)
qed

lemma ex_v2_limits:
  "fst (limit 1 (u ''a'') ''SIGNAL_V2'' (v2_hub ex_v2_state))" "fst (limit 1 (u ''a'') ''MESSAGE'' (v2_hub ex_v2_state))"
  "fst (limit 1 (u ''a'') ''SIGNAL_V2'' (charged 1 (u ''a'') (v2_hub ex_v2_state)))"
  "fst (try_consume 1 1 (signal_limiter ex_v2_state))" "fst (try_consume 1 1 (global_message_limiter (v2_hub ex_v2_state)))"
proof -
  have r: "rate_limiter (v2_hub ex_v2_state) = []" by (simp add: ex_v2_state_def ex_v2_hub_def new_hub_def)
  have o: "1 \<le> fst (op_limits ''SIGNAL_V2'')" "1 \<le> fst (op_limits ''MESSAGE'')" by (simp_all add: op_limits_def DEFAULTS_def)
  show "fst (limit 1 (u ''a'') ''SIGNAL_V2'' (v2_hub ex_v2_state))" "fst (limit 1 (u ''a'') ''MESSAGE'' (v2_hub ex_v2_state))"
    using o r by (auto intro: limit_fresh)
  show "fst (limit 1 (u ''a'') ''SIGNAL_V2'' (charged 1 (u ''a'') (v2_hub ex_v2_state)))"
    by (rule limit_fresh [OF _ o(1)]) (simp add: charged_def limit_def limiter_check_def case_prod_unfold r)
qed (simp_all add: ex_v2_state_def ex_v2_hub_def new_hub_def new_bucket_def default_config_def)

lemma ex_v2_seen: "fst (check_and_mark_seen default_config 1 k 120 ex_v2_hub)"
  by (simp add: check_and_mark_seen_def prune_dedupe_def ex_v2_hub_def new_hub_def Let_def)

lemma ex_v2_hub_sessions:
  "dget (sessions ex_v2_hub) (u ''a'') = Some (ex_v2_session 1)" "dget (sessions ex_v2_hub) (u ''b'') = Some (ex_v2_session 2)"
  "u ''b'' \<in> set (route_subscribers 1 (zeros 32) (Some (u ''a'')) ex_v2_hub)" "v2_hub ex_v2_state = ex_v2_hub"
  "\<not> queue_full default_config (ex_v2_session 2)" "outbound_bytes (ex_v2_session 2) = 0" "proven (ex_v2_session 2)"
  "session_protocol (ex_v2_session 2) = 2" "json_opt (encryption_key_id (ex_v2_session 2)) = JStr (zeros 32)"
  by (simp_all add: ex_v2_hub_def route_subscribers_def ex_v2_state_def queue_full_def ex_v2_session_def new_session_def json_opt_def)

lemma ex_v2_text_len: "utf8_len (dumps (tp_float ex_v2_prims) (JDict ex_v2_signal)) = Some (length ex_v2_text)"
  using utf8_len_ascii [OF ex_v2_ascii(1)] by (simp add: ex_v2_text_def ex_v2_prims_def)

lemma ex_v2_taken: "signalled (v2_frame ex_v2_prims (\<lambda>_. True) default_config 1 0 0 None [] (u ''a'') 1 ex_v2_text ex_v2_state)"
proof -
  let ?st = "v2_charged 1 (u ''a'') ex_v2_state"
  have "v2_frame ex_v2_prims (\<lambda>_. True) default_config 1 0 0 None [] (u ''a'') 1 ex_v2_text ex_v2_state =
      v2_handle ex_v2_prims (\<lambda>_. True) default_config 1 0 0 None [] (u ''a'') 1 ex_v2_signal ?st"
    using ex_v2_ascii(2) utf8_len_ascii [OF ex_v2_ascii(1)] ex_v2_limits(2,5)
    by (simp add: v2_frame_eq v2_message_def ex_v2_loads ex_v2_validate dict_of_def del: try_consume_simps)
  moreover have "fst (check_and_mark_seen default_config 1 k 120 (v2_hub ?st))" for k
    using ex_v2_seen [of k] mark_seen_cong(1) [of "v2_hub ?st" ex_v2_hub] by (simp add: ex_v2_hub_sessions(4))
  moreover have "route_subscribers 1 r x (v2_hub ?st) = route_subscribers 1 r x ex_v2_hub" for r x
    by (simp add: route_subscribers_def ex_v2_hub_sessions(4))
  moreover have "fst (try_consume 1 1 (signal_limiter ?st))" using ex_v2_limits(4) by (simp add: v2_charged_def)
  ultimately show ?thesis
    using v2_handle_delivers [of ?st "u ''a''" "ex_v2_session 1" ex_v2_signal ex_v2_prims 0 1 default_config "u ''b''"
        "ex_v2_session 2" "length ex_v2_text" "\<lambda>_. True" 0 None "[]" 1] ex_v2_authentic ex_v2_limits(3) ex_v2_ascii(2)
    by (simp add: ex_v2_fields ex_v2_payload_fields ex_v2_hub_sessions ex_v2_text_len jstr_def signalled_def signal_ack_def
        del: try_consume_simps dumps.simps)
qed

section \<open>HELLO\<close>

lemma p256_hex: "is_p256_point on_curve v \<longleftrightarrow> (\<exists>s b. v = JStr s \<and> length s = 130 \<and> fromhex s = Some b \<and> length b = 65 \<and> on_curve b)"
  by (auto simp: is_p256_point_def is_hex_bytes_def jstr_def split: json.splits option.splits)

lemma v2_hello_session:
  assumes "dget (sessions (v2_hub st)) sid = Some s" "challenge s = None" "\<not> proven s"
    and "jget (payload_of d) ''identityKeyHex'' = JStr ik" "is_p256_point on_curve (JStr ik)" "fromhex ik = Some key"
    and "jget (payload_of d) ''encryptionKeyHex'' = JStr ek" "is_p256_point on_curve (JStr ek)"
    and "verify_admission P (v2_trust st) (jget (payload_of d) ''grant'') ik wall = Inr True"
  shows "dget (sessions (v2_hub (fst (v2_hello P on_curve c wall chal sid w d s st)))) sid =
    Some (v2_apply P (VHello chal key ik ek (jget (payload_of d) ''grant'')) s)"
proof -
  obtain eb where "fromhex ek = Some eb" using assms(8) by (auto simp: p256_hex)
  then show ?thesis
    using assms
    by (auto simp: v2_hello_def Let_def set_v2_identity_def jstr_def dget_dset v2_try_def on_hub_def
        split: sum.split dest: with_manifest_hub)
qed

lemma v2_hello_refused:
  assumes "\<not> (challenge s = None \<and> \<not> proven s \<and> is_p256_point on_curve (jget (payload_of d) ''identityKeyHex'') \<and>
      is_p256_point on_curve (jget (payload_of d) ''encryptionKeyHex'') \<and>
      verify_admission P (v2_trust st) (jget (payload_of d) ''grant'') (jstr (jget (payload_of d) ''identityKeyHex'')) wall = Inr True)"
  shows "sessions (v2_hub (fst (v2_hello P on_curve c wall chal sid w d s st))) = sessions (v2_hub st)"
  using assms by (auto simp: v2_hello_def Let_def v2_try_def split: sum.split)

section \<open>Admissions\<close>








section \<open>Request bodies\<close>

lemma read_body_eq:
  assumes "int (length body) \<le> maximum"
  shows "read_body maximum body chunks =
    (if int (length (body @ concat chunks)) \<le> maximum then Some (body @ concat chunks) else None)"
  using assms by (induction chunks arbitrary: body) auto

section \<open>Peers\<close>

definition keyed_by :: "('v \<Rightarrow> 'k) \<Rightarrow> ('k, 'v) dict \<Rightarrow> bool" where
  "keyed_by f d \<longleftrightarrow> wf_dict d \<and> map f (dvalues d) = dkeys d"

lemma keyed_by_dset: "keyed_by f d \<Longrightarrow> keyed_by f (dset d (f x) x)"
  unfolding keyed_by_def
proof (elim conjE, intro conjI)
  show "map f (dvalues d) = dkeys d \<Longrightarrow> map f (dvalues (dset d (f x) x)) = dkeys (dset d (f x) x)"
    by (induction d) auto
qed (rule wf_dset)

lemma keyed_by_fold:
  "keyed_by f d \<Longrightarrow> keyed_by f (fold (\<lambda>x acc. dset acc (f x) x) xs d) \<and>
     set (dkeys (fold (\<lambda>x acc. dset acc (f x) x) xs d)) = set (dkeys d) \<union> f ` set xs"
proof (induction xs arbitrary: d)
  case (Cons x xs)
  have "set (dkeys (dset d (f x) x)) = insert (f x) (set (dkeys d))" by (rule dkeys_dset)
  with Cons.IH [OF keyed_by_dset [OF Cons.prems]] show ?case unfolding fold_Cons comp_def by auto
qed simp

section \<open>Properties\<close>

text \<open>C9: A V2 frame is taken as a signal only if it decodes to a message that its session has
  authenticated: the session is proven and attached to the route, the message names it and its
  key, has not expired, has a new sequence number and verifies under its key; the recipient is
  known under the encryption key the message names; and no session but the sender and the
  recipient changes.\<close>

theorem v2_signal_safe:
  assumes "signalled (v2_frame P on_curve c now wall elapsed remote chal sid w raw st)"
  shows "\<exists>d. decode_v2 c raw = Some d \<and> signal_taken P wall remote sid (payload_of d) (v2_hub st)
    (v2_hub (fst (v2_frame P on_curve c now wall elapsed remote chal sid w raw st)))"
  using assms by (rule v2_frame_signalled) blast

theorem v2_signal_safe_witness:
  "signal_taken ex_v2_prims 0 None (u ''a'') ex_v2_payload ex_v2_hub
     (v2_hub (fst (v2_frame ex_v2_prims (\<lambda>_. True) default_config 1 0 0 None [] (u ''a'') 1 ex_v2_text ex_v2_state)))"
  using v2_signal_safe [OF ex_v2_taken] by (simp add: ex_v2_decode ex_v2_fields ex_v2_hub_sessions(4))

text \<open>C10: A signal that its session has authenticated, within the rate limits and not seen before, is put at
  the end of the queue of the recipient, when that is a proven V2 session on the route with room in
  its queue, and the sender gets the acknowledgement that it was delivered.\<close>

theorem v2_signal_delivered:
  assumes "dget (sessions (v2_hub st)) sid = Some s" "jget d ''type'' = JStr (u ''SIGNAL'')"
    "authentic_signal P wall sid s (payload_of d)" "fst (limit now sid ''SIGNAL_V2'' (v2_hub st))"
    "fst (try_consume now 1 (signal_limiter st))"
    "fst (check_and_mark_seen c now (replay_key sid (payload_of d)) (dedupe_window_seconds c) (v2_hub st))"
    and target: "jget (payload_of d) ''toSessionId'' = JStr target"
      "target \<in> set (route_subscribers now (jstr (jget (payload_of d) ''routeTag'')) (Some sid) (v2_hub st))"
      "dget (sessions (v2_hub st)) target = Some t" "proven t" "session_protocol t = 2"
      "json_opt (encryption_key_id t) = jget (payload_of d) ''keyId''"
    and room: "utf8_len (dumps (tp_float P) (signal_out (jget d ''id'') (payload_of d))) = Some n" "\<not> queue_full c t"
      "outbound_bytes t + int n \<le> outbound_queue_bytes c"
  shows "snd (v2_handle P on_curve c now wall elapsed remote chal sid w d st) =
      ([SendFrame w (signal_ack (jget d ''id'') (payload_of d) True)], VContinue) \<and>
    (\<exists>t'. dget (sessions (v2_hub (fst (v2_handle P on_curve c now wall elapsed remote chal sid w d st)))) target = Some t' \<and>
       outbound_queue t' = outbound_queue t @ [(signal_out (jget d ''id'') (payload_of d), n)])"
  using assms by (rule v2_handle_delivers)

theorem v2_signal_delivered_witness:
  "snd (v2_handle ex_v2_prims (\<lambda>_. True) default_config 1 0 0 None [] (u ''a'') 1 ex_v2_signal ex_v2_state) =
     ([SendFrame 1 (signal_ack (JStr (u ''i'')) ex_v2_payload True)], VContinue)"
  using v2_signal_delivered [of ex_v2_state "u ''a''" "ex_v2_session 1" ex_v2_signal ex_v2_prims 0 1 default_config "u ''b''"
      "ex_v2_session 2" "length ex_v2_text" "\<lambda>_. True" 0 None "[]" 1] ex_v2_authentic ex_v2_limits(1,4) ex_v2_seen ex_v2_ascii(2)
  by (simp add: ex_v2_fields ex_v2_payload_fields ex_v2_hub_sessions ex_v2_text_len jstr_def del: try_consume_simps dumps.simps)

text \<open>C28: What HELLO does, exactly: on a session with neither proof nor challenge, with two points of the
  curve as keys and a grant that verifies for the identity key, the session gets the challenge and
  the keys; in every other case no session changes.\<close>

theorem v2_hello_exact:
  assumes "dget (sessions (v2_hub st)) sid = Some s" "jget d ''type'' = JStr (u ''HELLO'')"
    and "ik = jget (payload_of d) ''identityKeyHex''" "ek = jget (payload_of d) ''encryptionKeyHex''"
      "grant = jget (payload_of d) ''grant''"
  shows "if challenge s = None \<and> \<not> proven s \<and> is_p256_point on_curve ik \<and> is_p256_point on_curve ek \<and>
        verify_admission P (v2_trust st) grant (jstr ik) wall = Inr True
    then \<exists>key. fromhex (jstr ik) = Some key \<and>
      dget (sessions (v2_hub (fst (v2_handle P on_curve c now wall elapsed remote chal sid w d st)))) sid =
        Some (v2_apply P (VHello chal key (jstr ik) (jstr ek) grant) s)
    else sessions (v2_hub (fst (v2_handle P on_curve c now wall elapsed remote chal sid w d st))) = sessions (v2_hub st)"
proof -
  have h: "v2_handle P on_curve c now wall elapsed remote chal sid w d st = v2_hello P on_curve c wall chal sid w d s st"
    using assms(1,2) by (simp add: v2_handle_def jstr_def)
  show ?thesis
    unfolding h assms(3-5)
    using v2_hello_refused [of s on_curve d P st wall c chal sid w] v2_hello_session [OF assms(1)]
    by (auto simp: p256_hex jstr_def)
qed

text \<open>A grant from the node opens a session of its key.\<close>

theorem v2_hello_exact_witness:
  "\<exists>grant. issue_admission ex_tp ex_trust (zeros 65) (u ''n'') 100 = Inr grant \<and>
     map_option challenge (dget (sessions (v2_hub (fst (v2_handle ex_tp (\<lambda>_. True) default_config 1 105 0 None [7] (u ''a'') 1
       [(u ''type'', JStr (u ''HELLO'')), (u ''payload'', JDict [(u ''grant'', grant), (u ''identityKeyHex'', JStr (zeros 65)),
          (u ''encryptionKeyHex'', JStr (zeros 65))])]
       (ex_v2_state\<lparr>v2_hub := create_session 0 1 (u ''a'') (new_hub default_config 0)\<rparr>))))) (u ''a'')) = Some (Some [7])"
proof -
  let ?st = "ex_v2_state\<lparr>v2_hub := create_session 0 1 (u ''a'') (new_hub default_config 0)\<rparr>"
  obtain nb where n: "utf8_encode (u ''n'') = Some nb" by (simp add: utf8_encode_def u_def is_surrogate_def)
  obtain grant where g: "issue_admission ex_tp ex_trust (zeros 65) (u ''n'') 100 = Inr grant"
    using n sign_object_ok [OF ex_trust_ok(4)] by (fastforce simp: issue_admission_def ex_trust_def default_config_def)
  have v: "verify_admission ex_tp ex_trust grant (zeros 65) 105 = Inr True"
    using verify_issued [OF ex_trust_ok(1,2,3) g, of 105] by (simp add: ex_trust_def default_config_def)
  let ?d = "[(u ''type'', JStr (u ''HELLO'')), (u ''payload'', JDict [(u ''grant'', grant), (u ''identityKeyHex'', JStr (zeros 65)),
          (u ''encryptionKeyHex'', JStr (zeros 65))])]"
  have s: "dget (sessions (v2_hub ?st)) (u ''a'') = Some (new_session 1 0)"
    by (simp add: create_session_def new_hub_def)
  have d: "jget ?d ''type'' = JStr (u ''HELLO'')" "jget (payload_of ?d) ''identityKeyHex'' = JStr (zeros 65)"
    "jget (payload_of ?d) ''encryptionKeyHex'' = JStr (zeros 65)" "jget (payload_of ?d) ''grant'' = grant"
    by (simp_all add: jget_def payload_of_def)
  have "\<exists>key. dget (sessions (v2_hub (fst (v2_handle ex_tp (\<lambda>_. True) default_config 1 105 0 None [7] (u ''a'') 1 ?d ?st)))) (u ''a'') =
      Some (v2_apply ex_tp (VHello [7] key (zeros 65) (zeros 65) grant) (new_session 1 0))"
    using v2_hello_exact [OF s d(1) refl refl refl, of "\<lambda>_. True" ex_tp 105 default_config 1 0 None "[7]" 1, unfolded d] v
    by (auto simp: p256_hex jstr_def new_session_def ex_v2_state_def)
  then show ?thesis using g by auto
qed



text \<open>Reading a request body chunk by chunk gives the concatenation of the chunks if that is within the
  limit and 413 otherwise, whatever the sizes of the chunks.\<close>

theorem read_body_exact:
  "0 \<le> maximum \<Longrightarrow> read_body maximum [] chunks =
    (if int (length (concat chunks)) \<le> maximum then Some (concat chunks) else None)"
  using read_body_eq [of "[]" maximum chunks] by simp

theorem read_body_exact_witness: "read_body 4 [] [[1, 2], [3], [4, 5]] = None"
  using read_body_exact [of 4 "[[1, 2], [3], [4, 5]]"] by simp

text \<open>The peers of a discovery are distinct, never the asking session, and every other session that was found
  is among them, before the fan-out limit cuts the list.\<close>

theorem merge_peers_exact:
  "distinct (map (\<lambda>p. jget p ''sessionId'') (merge_peers sid items)) \<and>
   set (map (\<lambda>p. jget p ''sessionId'') (merge_peers sid items)) = (\<lambda>p. jget p ''sessionId'') ` set items - {JStr sid}"
proof -
  let ?f = "\<lambda>p :: (pystr \<times> json) list. jget p ''sessionId''"
  let ?d = "fold (\<lambda>item acc. dset acc (?f item) item) (filter (\<lambda>item. ?f item \<noteq> JStr sid) items) []"
  have "keyed_by ?f ([] :: (json \<times> (pystr \<times> json) list) list)" by (simp add: keyed_by_def)
  from keyed_by_fold [OF this, of "filter (\<lambda>item. ?f item \<noteq> JStr sid) items"]
  have "wf_dict ?d" "map ?f (dvalues ?d) = dkeys ?d" "set (dkeys ?d) = ?f ` set (filter (\<lambda>item. ?f item \<noteq> JStr sid) items)"
    by (simp_all add: keyed_by_def)
  moreover have "?f ` set (filter (\<lambda>item. ?f item \<noteq> JStr sid) items) = ?f ` set items - {JStr sid}" by auto
  ultimately show ?thesis unfolding merge_peers_def by (simp only: simp_thms)
qed

text \<open>A frame of a V2 connection whose session the cleanup has removed in the meantime raises a
  \<^verbatim>\<open>KeyError\<close>, which ends the connection, whatever the frame asks.\<close>

theorem v2_pruned_session_raises:
  "dget (sessions (v2_hub st)) sid = None \<Longrightarrow>
     v2_handle P on_curve c now wall elapsed remote chal sid w d st = (st, [], VRaise KeyError)"
  by (simp add: v2_handle_def)

theorem v2_pruned_session_raises_witness:
  "v2_handle ex_v2_prims (\<lambda>_. True) default_config 1 0 0 None [] (u ''gone'') 1 ex_v2_signal ex_v2_state = (ex_v2_state, [], VRaise KeyError)"
  by (rule v2_pruned_session_raises) (simp add: ex_v2_state_def ex_v2_hub_def)

end
