(* ===== verification/Mesh_Properties.thy ===== *)
theory Mesh_Properties
  imports V2_Properties
begin

text \<open>
  The properties of the mesh between nodes: what a peer must show to be linked, what a linked peer
  can change, and that signals and registrations that cross nodes arrive and are acknowledged
  truthfully.
\<close>

section \<open>Registry entries\<close>

definition entry :: "mesh \<Rightarrow> pystr \<Rightarrow> pystr \<times> pystr \<Rightarrow> descriptor option" where
  "entry m tag key = dget (dget_default [] (route_registry m) tag) key"

lemma entry_cong: "route_registry m' = route_registry m \<Longrightarrow> entry m' tag key = entry m tag key"
  by (simp add: entry_def)

lemma default_dset: "dget_default [] (dset reg tag r) tag' = (if tag' = tag then r else dget_default [] reg tag')"
  by (simp add: dget_default_def dict_simps)

lemma default_put: "dget_default [] (put_route tag r reg) tag' = (if tag' = tag then r else dget_default [] reg tag')"
  by (auto simp: put_route_def dget_default_def dict_simps)

lemma default_dpop: "dget_default [] reg tag = [] \<Longrightarrow> dget_default [] (dpop reg tag) tag' = dget_default [] reg tag'"
  by (auto simp: dget_default_def dict_simps)

lemma apply_route_entry:
  assumes "jget d ''nodeId'' = JStr nid"
  shows "entry (fst (apply_route_message c time t tag d m h)) tag' key = entry m tag' key \<or> tag' = tag \<and> fst key = nid"
proof (cases "jget d ''sessionId''")
  case (JStr sid)
  define old where "old = dget_default [] (route_registry m) tag"
  have empty: "dget (route_registry m) tag = Some [] \<Longrightarrow> old = []" by (simp add: old_def dget_default_def)
  have pop: "dget (dpop old (nid, sid)) key = dget old key \<or> fst key = nid" by (cases key) (simp add: dict_simps)
  have set: "dget (dset old (nid, sid) d) key = dget old key \<or> fst key = nid" by (cases key) (simp add: dict_simps)
  show ?thesis
  proof (cases "t = ''ROUTE_REMOVE''")
    case True
    then show ?thesis
      using assms JStr pop
      by (simp add: apply_route_message_def entry_def Let_def default_put old_def split: option.split)
  next
    case False
    then show ?thesis
      using assms JStr set empty unfolding apply_route_message_def
      by (simp add: entry_def Let_def default_dset default_dpop old_def)
  qed
qed (simp_all add: apply_route_message_def)


lemma filter_routes_default:
  "registry_inv c m \<Longrightarrow> dget_default [] (route_registry (filter_routes keep m)) tag =
     filter (\<lambda>(key, d). keep tag d) (dget_default [] (route_registry m) tag)"
  by (simp add: dget_default_def [of _ "route_registry (filter_routes keep m)"] filter_routes_registry(1) Let_def)

lemma prune_default:
  assumes "mesh_inv c m"
  shows "dget_default [] (route_registry (mesh_prune_routes time m)) tag =
    filter (\<lambda>(key, d). \<not> desc_expired time d) (dget_default [] (route_registry m) tag)"
proof -
  let ?gone = "map fst (filter (\<lambda>(sid, d). desc_expired time d) (descriptor_cache m))"
  let ?m = "m\<lparr>descriptor_cache := fold (\<lambda>k d. dpop d k) ?gone (descriptor_cache m),
              session_nodes := fold (\<lambda>k d. dpop d k) ?gone (session_nodes m)\<rparr>"
  have "registry_inv c ?m" using mesh_invD(1) [OF assms] by (simp add: registry_inv_def)
  from filter_routes_default [OF this, of "\<lambda>tag d. \<not> desc_expired time d" tag]
  show ?thesis by (simp add: mesh_prune_routes_def Let_def)
qed

lemma prune_entry:
  assumes "mesh_inv c m"
  shows "entry (mesh_prune_routes time m) tag key =
    (case entry m tag key of None \<Rightarrow> None | Some d \<Rightarrow> if desc_expired time d then None else Some d)"
proof -
  have "wf_dict (dget_default [] (route_registry m) tag)"
    using registry_route [OF mesh_invD(1) [OF assms], of tag] by (auto simp: route_ok_def)
  then show ?thesis unfolding entry_def prune_default [OF assms] by (simp add: dget_filter split: option.split)
qed

section \<open>What a peer can change\<close>

text \<open>
  Between two states of the mesh, every entry of the registry is the same, or has expired, or
  belongs to the peer and to a route this node owns.
\<close>

definition confined :: "(bytes \<Rightarrow> bytes) \<Rightarrow> config \<Rightarrow> real \<Rightarrow> pystr \<Rightarrow> mesh \<Rightarrow> mesh \<Rightarrow> bool" where
  "confined sha c time nid m m' \<longleftrightarrow>
     (\<forall>tag key. entry m' tag key = entry m tag key \<or>
        (\<exists>d. entry m tag key = Some d \<and> desc_expired time d \<and> entry m' tag key = None) \<or>
        fst key = nid \<and> (\<exists>owners. owners_for sha c tag m = Inr owners \<and> node_id c \<in> set owners))"

lemma confined_same: "route_registry m' = route_registry m \<Longrightarrow> confined sha c time nid m m'"
  by (simp add: confined_def entry_def)

lemma confined_prune: "mesh_inv c m \<Longrightarrow> confined sha c time nid m (mesh_prune_routes time m)"
  by (auto simp: confined_def prune_entry split: option.split)

lemma confined_try:
  "(\<And>x. r = Inr x \<Longrightarrow> confined sha c time nid m (fst (k x))) \<Longrightarrow> confined sha c time nid m (fst (mesh_try r m h k))"
  by (cases r) (simp_all add: mesh_try_def confined_same)

lemma route_update_confined: "confined sha c time nid m (fst (handle_route_update sha c time nid t payload m h))"
proof -
  have "confined sha c time nid m (fst (apply_route_message c time t tag d m h))"
    if "owners_for sha c tag m = Inr owners" "node_id c \<in> set owners" "jget d ''nodeId'' = JStr nid" for tag d owners
    using that apply_route_entry [OF that(3)] unfolding confined_def by blast
  then show ?thesis
    unfolding handle_route_update_def Let_def case_prod_unfold
    by (auto simp: confined_same intro!: confined_try)
qed

lemma node_message_confined:
  assumes "mesh_inv c m"
  shows "confined (tp_sha256 P) c time nid m (fst (handle_node_message P c time now nid w d m h))"
proof -
  have forward: "confined (tp_sha256 P) c time nid m (fst (handle_signal_forward (tp_float P) c now w (payload_of d) m h))"
    unfolding handle_signal_forward_def Let_def
    by (intro confined_try) (auto simp: confined_same mesh_try_def split: json.split sum.split)
  have settle: "confined (tp_sha256 P) c time nid m (fst (mesh_try r m h (\<lambda>x. (f x m, h, [], [], None))))"
    if "\<And>x. route_registry (f x m) = route_registry m" for r :: "'a result" and f
    using that by (intro confined_try) (simp add: confined_same)
  have state: "route_registry (fst (handle_node_state c time now nid (payload_of d) m h)) = route_registry m"
    by (simp add: handle_node_state_def Let_def)
  show ?thesis
    unfolding handle_node_message_def Let_def case_prod_unfold
    using forward state assms
      settle [of "\<lambda>x m. m\<lparr>pending_queries := x\<rparr>"] settle [of "\<lambda>x m. m\<lparr>pending_acks := x\<rparr>"]
    by (auto simp: confined_same confined_prune route_update_confined handle_route_query_def Let_def split: json.split)
qed

section \<open>Signals between nodes\<close>

lemma forward_sends:
  assumes "forward_signal c rid tag target envelope m h = (None, m', h', out)"
  shows "\<exists>w. out = [MeshSend w ''SIGNAL_FORWARD'' [(u ''requestId'', JStr rid), (u ''routeTag'', JStr tag),
      (u ''targetSessionId'', JStr target), (u ''envelope'', envelope)]] \<and> dget (pending_acks m') rid = Some None"
  using assms by (auto simp: forward_signal_def dict_simps split: option.splits if_splits)

definition ack_payload :: "pystr \<Rightarrow> bool \<Rightarrow> (pystr \<times> json) list" where
  "ack_payload rid delivered = [(u ''requestId'', JStr rid), (u ''delivered'', JBool delivered)]"

lemma ack_settles:
  assumes "dget (pending_acks m) rid = Some None"
  shows "fst (forward_done AckReceived rid
    (fst (handle_node_message P c time now nid w (dict_of (node_message ''ACK'' mid (ack_payload rid delivered))) m h)) h') = delivered"
  using assms
  by (simp add: handle_node_message_def node_message_def ack_payload_def dict_of_def jget_def payload_of_def is_dict_def
      mesh_try_def settle_def forward_done_def dict_simps jstr_def)

lemma forward_handled:
  assumes "handle_signal_forward frepr c now w [(u ''requestId'', JStr rid), (u ''routeTag'', JStr tag),
      (u ''targetSessionId'', JStr target), (u ''envelope'', envelope)] m h = (m', h', out, effs, None)"
  shows "\<exists>delivered. out = [MeshSend w ''ACK'' (ack_payload rid delivered)] \<and>
    (if delivered then target \<in> set (route_subscribers now tag None h) \<and>
       (\<exists>s s' n. dget (sessions h) target = Some s \<and> dget (sessions h') target = Some s' \<and>
          outbound_queue s' = outbound_queue s @ [(envelope, n)])
     else sessions h' = sessions h)"
proof -
  let ?p = "[(u ''requestId'', JStr rid), (u ''routeTag'', JStr tag), (u ''targetSessionId'', JStr target), (u ''envelope'', envelope)]"
  have f: "jget ?p ''requestId'' = JStr rid" "jget ?p ''routeTag'' = JStr tag" "jget ?p ''targetSessionId'' = JStr target"
    "jget ?p ''envelope'' = envelope" by (simp_all add: jget_def)
  obtain ok where ok: "valid_forward ?p = Inr ok"
    using assms by (auto simp: handle_signal_forward_def mesh_try_def Let_def split: sum.splits)
  show ?thesis
  proof (cases "ok \<and> target \<in> set (route_subscribers now tag None h)")
    case True
    then obtain delivered where s: "send_session frepr c target envelope h = Inr (delivered, h', effs)"
      "out = [MeshSend w ''ACK'' (ack_payload rid delivered)]"
      using assms ok unfolding handle_signal_forward_def f Let_def ack_payload_def
      by (auto simp: mesh_try_def split: sum.splits)
    from send_session_cases [OF s(1)]
    have "if delivered then \<exists>s s' n. dget (sessions h) target = Some s \<and> dget (sessions h') target = Some s' \<and>
          outbound_queue s' = outbound_queue s @ [(envelope, n)] else sessions h' = sessions h"
      by (elim disjE exE conjE) (simp_all add: dict_simps)
    with True have "if delivered then target \<in> set (route_subscribers now tag None h) \<and>
       (\<exists>s s' n. dget (sessions h) target = Some s \<and> dget (sessions h') target = Some s' \<and>
          outbound_queue s' = outbound_queue s @ [(envelope, n)]) else sessions h' = sessions h" by argo
    with s(2) show ?thesis by blast
  next
    case False
    then have "(m', h', out, effs) = (m, h, [MeshSend w ''ACK'' (ack_payload rid False)], [])"
      using assms ok unfolding handle_signal_forward_def f Let_def ack_payload_def
      by (simp add: mesh_try_def split: if_splits)
    then show ?thesis by auto
  qed
qed

lemma signal_out_valid:
  assumes "validate_v2_message (JDict d) = Inr ()" "jget d ''type'' = JStr (u ''SIGNAL'')"
  shows "validate_v2_message (signal_out (jget d ''id'') (payload_of d)) = Inr ()"
proof -
  let ?e = "[(u ''protocol'', JStr (u ''particle-signal/2'')), (u ''type'', JStr (u ''SIGNAL'')), (u ''id'', jget d ''id''),
      (u ''payload'', JDict (payload_of d))]"
  have f: "jget ?e ''protocol'' = JStr (u ''particle-signal/2'')" "jget ?e ''type'' = JStr (u ''SIGNAL'')"
    "jget ?e ''id'' = jget d ''id''" "payload_of ?e = payload_of d" "jget ?e ''payload'' = JDict (payload_of d)"
    by (simp_all add: jget_def payload_of_def)
  have id: "check_message_id (jget d ''id'') = Inr ()" and p: "v2_payload_check (u ''SIGNAL'') (payload_of d) = Inr ()"
    "v2_signal_check (payload_of d) = Inr ()"
    using assms by (auto simp: validate_v2_message_def validate_envelope_def rbind_eq_Inr Let_def jstr_def)
  have out: "signal_out (jget d ''id'') (payload_of d) = JDict ?e"
    by (simp add: signal_out_def)
  have "validate_envelope (JDict ?e) = Inr ()"
    using id by (simp add: validate_envelope_def f str_in_def raise_if_def KNOWN_PROTOCOLS_def PROTOCOL_VERSIONS_def MESSAGE_TYPES_def)
  then show ?thesis
    unfolding out validate_v2_message_def using p
    by (simp add: f jstr_def raise_if_def protocol_version_def PROTOCOL_VERSIONS_def v2_expected_protocol_def)
qed

section \<open>Registrations between nodes\<close>




section \<open>Handshakes\<close>



lemma trusted_hello:
  assumes "ecdsa_ok P (trust_public_key tr)" "trust_ok P tr" "sign_object P tr (manifest_payload tr t) = Inr manifest"
    and "signing_key_activates_at (trust_config tr) \<le> \<lfloor>time\<rfloor>" "\<lfloor>time\<rfloor> \<le> signing_key_expires_at (trust_config tr)"
    and "t \<le> \<lfloor>time\<rfloor>" "\<lfloor>time\<rfloor> \<le> t + manifest_ttl_seconds (trust_config tr)"
    and n: "dget (trusted m) (node_id (trust_config tr)) = Some n" "tn_node_id n = node_id (trust_config tr)"
      "server_key_pin n = trust_key_id tr"
    and "network_root_id c = network_root_id (trust_config tr)" "network_root_version c = network_root_version (trust_config tr)"
      "network_root_rollback_version c = network_root_rollback_version (trust_config tr)"
    and mid: "1 \<le> length mid" "length mid \<le> 64" and e: "e \<in> {None, Some n}"
  shows "authenticate_hello P c time m e (node_message ''NODE_HELLO'' mid [(u ''manifest'', manifest)]) =
    Inr (Some (node_id (trust_config tr)))"
proof -
  let ?msg = "node_message ''NODE_HELLO'' mid [(u ''manifest'', manifest)]"
  define p where "p = dict_of (manifest_payload tr t)"
  have p: "manifest_payload tr t = JDict p" using manifest_fields(2) by (simp add: p_def)
  have f: "jget p ''nodeId'' = JStr (node_id (trust_config tr))" "jget p ''networkRootId'' = JStr (network_root_id (trust_config tr))"
    "jget p ''networkRootVersion'' = JInt (network_root_version (trust_config tr))" "p \<noteq> []"
    "jget p ''networkRootRollbackVersion'' = JInt (network_root_rollback_version (trust_config tr))"
    "jget p ''issuedAt'' = JInt t" "jget p ''expiresAt'' = JInt (t + manifest_ttl_seconds (trust_config tr))"
    by (simp_all add: p_def manifest_payload_def Let_def dict_of_def jget_def)
  obtain md where md: "manifest = JDict md" "md \<noteq> []" "jget md ''payload'' = JDict p"
    using assms(3) by (auto simp: sign_object_Inr p jget_def)
  have m: "valid_node_envelope ?msg = Inr True" "jget (dict_of ?msg) ''type'' = JStr (u ''NODE_HELLO'')"
    "jget (payload_of (dict_of ?msg)) ''manifest'' = JDict md"
    using mid by (simp_all add: node_message_def valid_node_envelope_def keys_are_def jget_def str_in_def NODE_TYPES_def
        short_text_def is_dict_def dict_of_def payload_of_def md(1))
  have "parse_signed_manifest P (JDict md) (trust_key_id tr) \<lfloor>time\<rfloor> = Inr (Some (JDict p))"
    using manifest_roundtrip [OF assms(1-5)] by (simp add: md(1) p)
  moreover have "(case e of Some n \<Rightarrow> Inr (Some n) | None \<Rightarrow> trusted_entry m (jget p ''nodeId'')) = Inr (Some n)"
    using e n(1) f(1) by (auto simp: trusted_entry_def)
  moreover have "or_dict (JDict md) = Inr md" "or_dict (JDict p) = Inr p"
    using md(2) f(4) by (simp_all add: or_dict_def falsy_def)
  moreover have "dict_of (JDict p) = p" by (simp add: dict_of_def)
  ultimately show ?thesis
    using assms(6,7,11-13) n(2,3) unfolding authenticate_hello_def m
    by (simp add: md(3) f eq_int_def num_of_def le_int_def int_le_def m Let_def)
qed

section \<open>An example\<close>

text \<open>The default node with its V2 sessions, linked to node \<open>x\<close>, and that node.\<close>

definition ex_peer :: config where
  "ex_peer = default_config\<lparr>node_id := u ''x''\<rparr>"

definition ex_near :: mesh where
  "ex_near = (new_mesh default_config [(u ''x'', \<lparr>tn_node_id = u ''x'', tn_url = [], server_key_pin = zeros 32\<rparr>)])
     \<lparr>connections := [(u ''x'', 7)], session_nodes := [(u ''b'', u ''x'')]\<rparr>"

definition ex_far :: mesh where
  "ex_far = (new_mesh ex_peer [(node_id default_config,
     \<lparr>tn_node_id = node_id default_config, tn_url = [], server_key_pin = zeros 32\<rparr>)])
       \<lparr>connections := [(node_id default_config, 8)]\<rparr>"


lemma ex_ids: "node_id default_config = u ''particle-node-local''" "node_id ex_peer = u ''x''"
  by (simp_all add: default_config_def ex_peer_def)



lemma ex_far_inv: "mesh_inv ex_peer ex_far"
  by (simp add: mesh_inv_def registry_inv_def cache_inv_def members_inv_def pending_inv_def pending_operation_count_def
      membership_universe_def ex_far_def new_mesh_def ex_ids dict_sum_def) (simp add: ex_peer_def default_config_def)

lemma ex_trust_config: "trust_config ex_trust = default_config" "trust_key_id ex_trust = zeros 32"
  "signing_key_activates_at default_config \<le> 100" "100 \<le> signing_key_expires_at default_config"
  "0 \<le> manifest_ttl_seconds default_config"
  by (simp_all add: ex_trust_def default_config_def)

lemma ex_root: "network_root_id ex_peer = network_root_id default_config"
  "network_root_version ex_peer = network_root_version default_config"
  "network_root_rollback_version ex_peer = network_root_rollback_version default_config"
  by (simp_all add: ex_peer_def)

text \<open>The greeting of the default node as it comes over the wire, at a peer that is not linked yet.\<close>

definition ex_apart :: mesh where
  "ex_apart = ex_far\<lparr>connections := []\<rparr>"

lemma ex_manifest_text:
  assumes "sign_object ex_tp ex_trust (manifest_payload ex_trust 100) = Inr manifest"
  shows "exact manifest \<and> unique_keys manifest \<and> all_strings (string_fits 65536) manifest \<and> depth manifest \<le> 4 \<and> nodes manifest \<le> 100 \<and>
     list_all (\<lambda>c. c < 128) (dumps (\<lambda>_. []) manifest) \<and> length (dumps (\<lambda>_. []) manifest) \<le> 4000"
proof -
  obtain b where m: "manifest = JDict [(u ''payload'', manifest_payload ex_trust 100), (u ''keyId'', JStr (zeros 32)),
      (u ''signatureHex'', JStr (hex (raw_signature ex_tp b)))]" using assms by (auto simp: sign_object_Inr ex_trust_config(2))
  have l: "length (raw_signature ex_tp b) = 64" using raw_signature_verifies [OF ex_trust_ok(1)] by (simp add: ex_trust_def)
  have p: "exact (manifest_payload ex_trust 100)" "unique_keys (manifest_payload ex_trust 100)"
    "all_strings (string_fits 65536) (manifest_payload ex_trust 100)" "depth (manifest_payload ex_trust 100) \<le> 3"
    "nodes (manifest_payload ex_trust 100) \<le> 50"
    "list_all (\<lambda>c. c < 128) (dumps (\<lambda>_. []) (manifest_payload ex_trust 100))"
    "length (dumps (\<lambda>_. []) (manifest_payload ex_trust 100)) \<le> 3000"
    unfolding manifest_payload_def Let_def ex_trust_def default_config_def
    by (simp_all add: dump_hex hex_ascii hex_fits dump_plain dump_int_def dump_nat.simps rstrip_slash_def hex_length u_def
        hex_digit_def string_fits_def utf8_len_ascii)
  show ?thesis using p l unfolding m
    by (simp add: dump_hex hex_ascii hex_fits hex_length dump_plain u_def string_fits_def utf8_len_ascii utf8_len_hex)
qed

lemma ex_accept:
  "\<exists>raw m'. accept_hello ex_tp ex_peer 100 9 raw ex_apart ex_v2_hub = (LinkUp (node_id default_config), m', ex_v2_hub)"
proof -
  obtain manifest where s: "sign_object ex_tp ex_trust (manifest_payload ex_trust 100) = Inr manifest"
    using sign_object_ok [OF ex_trust_ok(4) ex_manifest_encodable] by blast
  note t = ex_manifest_text [OF s]
  define msg where "msg = node_message ''NODE_HELLO'' (u ''k'') [(u ''manifest'', manifest)]"
  define raw where "raw = dumps (\<lambda>_. []) msg"
  have d: "dget (trusted ex_apart) (node_id default_config) =
      Some \<lparr>tn_node_id = node_id default_config, tn_url = [], server_key_pin = zeros 32\<rparr>"
    by (simp add: ex_apart_def ex_far_def new_mesh_def)
  have a: "authenticate_hello ex_tp ex_peer 100 ex_apart None msg = Inr (Some (node_id default_config))"
    using trusted_hello [OF ex_trust_ok(1,2) s, of 100 ex_apart _ ex_peer "u ''k''" None] d ex_root
    by (simp add: ex_trust_config msg_def)
  have "exact msg" "unique_keys msg" "all_strings (string_fits 65536) msg" "depth msg \<le> 6" "nodes msg \<le> 200"
    using t by (simp_all add: msg_def node_message_def protocol_version_def PROTOCOL_VERSIONS_def ascii_fits)
  moreover have ascii: "list_all (\<lambda>c. c < 128) raw" "length raw \<le> 65536"
    using t by (simp_all add: raw_def msg_def node_message_def protocol_version_def PROTOCOL_VERSIONS_def dump_plain u_def)
  moreover have "utf8_len raw = Some (length raw)" using ascii(1) by (rule utf8_len_ascii)
  ultimately have decoded: "loads_strict (Text raw) 65536 16 512 65536 = Inr msg"
    using json_loads_dumps [of msg "\<lambda>_. []"] by (simp add: loads_strict_text raw_def [symmetric])
  moreover have "max_frame_bytes ex_peer = 65536" "max_json_depth ex_peer = 16" "max_json_nodes ex_peer = 512"
    by (simp_all add: ex_peer_def default_config_def)
  moreover have "node_id default_config < node_id ex_peer" by (simp add: ex_ids u_def)
  moreover have "claim_connection n 9 ex_apart ex_v2_hub = (True, ex_apart\<lparr>connections := dset [] n 9\<rparr>, ex_v2_hub)" for n
    by (simp add: claim_connection_def ex_apart_def)
  ultimately show ?thesis
    using a ascii utf8_len_ascii [OF ascii(1)] by (intro exI [of _ raw]) (simp add: accept_hello_def not_le)
qed

section \<open>Properties\<close>

text \<open>C18: A linked peer cannot touch the registrations of others: whatever frame it sends, an entry of the
  registry is kept, or has expired, or is one of the peer's own on a route this node owns.\<close>

theorem peer_confined:
  assumes "mesh_inv c m"
  shows "confined (tp_sha256 P) c time (link_node k) m (fst (snd (node_frame P c time now k raw m h)))"
proof -
  have "confined (tp_sha256 P) c time (link_node k) m (fst (node_data P c time now (k\<lparr>message_bucket := b\<rparr>) data m h))" for b data
    using node_message_confined [OF assms]
    by (simp add: node_data_def case_prod_unfold confined_same split: sum.split bool.split)
  then show ?thesis
    by (simp add: node_frame_def Let_def case_prod_unfold confined_same split: option.split sum.split exn.split)
qed

theorem peer_confined_witness:
  "confined (\<lambda>b. b) ex_peer 0 (node_id default_config) ex_far
     (fst (snd (node_frame ex_v2_prims ex_peer 0 0 (new_link (node_id default_config) 8 0) ex_v2_text ex_far ex_v2_hub)))"
  using peer_confined [OF ex_far_inv, of ex_v2_prims 0 "new_link (node_id default_config) 8 0" 0 ex_v2_text ex_v2_hub]
  by (simp add: new_link_def) (simp add: ex_v2_prims_def)



text \<open>C19: Whoever is linked has proved who it is: an accepted link belongs to a trusted node with a smaller id
  whose manifest, signed with the pinned key and valid now, was in the first frame; no other link
  is disturbed and an existing one of that node is not taken over.\<close>

theorem link_authenticated:
  assumes "accept_hello P c time w raw m h = (LinkUp nid, m', h')"
  shows "\<exists>message. loads_strict (Text raw) (max_frame_bytes c) (max_json_depth c) (max_json_nodes c) (max_frame_bytes c) = Inr message \<and>
    peer_proof P c time m message nid \<and> nid < node_id c \<and> m' = m\<lparr>connections := dset (connections m) nid w\<rparr> \<and>
    dget (connections m) nid \<in> {None, Some w}"
proof -
  obtain message where "loads_strict (Text raw) (max_frame_bytes c) (max_json_depth c) (max_json_nodes c) (max_frame_bytes c) = Inr message"
    "authenticate_hello P c time m None message = Inr (Some nid)" "nid < node_id c" "claim_connection nid w m h = (True, m', h')"
    using assms by (auto simp: accept_hello_def not_le split: option.splits if_splits sum.splits exn.splits prod.splits)
  then show ?thesis
    using authenticated_proof by (fastforce simp: claim_connection_def split: option.splits if_splits)
qed

theorem link_authenticated_witness:
  "\<exists>raw m'. accept_hello ex_tp ex_peer 100 9 raw ex_apart ex_v2_hub = (LinkUp (node_id default_config), m', ex_v2_hub) \<and>
     dget (connections m') (node_id default_config) = Some 9"
proof -
  obtain raw m' where a: "accept_hello ex_tp ex_peer 100 9 raw ex_apart ex_v2_hub = (LinkUp (node_id default_config), m', ex_v2_hub)"
    using ex_accept by blast
  from link_authenticated [OF a] have "dget (connections m') (node_id default_config) = Some 9" by (auto simp: dict_simps)
  with a show ?thesis by blast
qed

text \<open>C16: The answer to a forwarded signal is true end to end: the node that receives the forwarded frame
  acknowledges delivery exactly when it has appended the envelope to the queue of a live local
  subscriber of the route, and the sending node, on receiving that acknowledgement, reports just
  that to the client.\<close>

theorem forward_acknowledged:
  assumes "forward_signal ca rid tag target envelope ma ha = (None, ma1, ha1, out)" "MeshSend v t payload \<in> set out"
    and "handle_signal_forward frepr cb now w payload mb hb = (mb1, hb1, answer, effs, None)"
  shows "\<exists>delivered. answer = [MeshSend w ''ACK'' (ack_payload rid delivered)] \<and>
    fst (forward_done AckReceived rid (fst (handle_node_message P ca time now' nid w'
      (dict_of (node_message ''ACK'' mid (ack_payload rid delivered))) ma1 ha2)) ha3) = delivered \<and>
    (if delivered then target \<in> set (route_subscribers now tag None hb) \<and>
       (\<exists>s s' n. dget (sessions hb) target = Some s \<and> dget (sessions hb1) target = Some s' \<and>
          outbound_queue s' = outbound_queue s @ [(envelope, n)])
     else sessions hb1 = sessions hb)"
proof -
  have p: "payload = [(u ''requestId'', JStr rid), (u ''routeTag'', JStr tag), (u ''targetSessionId'', JStr target), (u ''envelope'', envelope)]"
    and a: "dget (pending_acks ma1) rid = Some None" using forward_sends [OF assms(1)] assms(2) by auto
  show ?thesis using forward_handled [OF assms(3) [unfolded p]] ack_settles [OF a] by blast
qed

theorem forward_acknowledged_witness:
  "fst (forward_done AckReceived (u ''r'') (fst (handle_node_message ex_v2_prims default_config 0 0 (u ''x'') 7
     (dict_of (node_message ''ACK'' (u ''k'') (ack_payload (u ''r'') True)))
     (fst (snd (forward_signal default_config (u ''r'') (zeros 32) (u ''b'') (JDict ex_v2_signal) ex_near ex_v2_hub))) ex_v2_hub)) ex_v2_hub)"
proof -
  let ?p = "[(u ''requestId'', JStr (u ''r'')), (u ''routeTag'', JStr (zeros 32)), (u ''targetSessionId'', JStr (u ''b'')),
      (u ''envelope'', JDict ex_v2_signal)]"
  obtain ma1 where a: "forward_signal default_config (u ''r'') (zeros 32) (u ''b'') (JDict ex_v2_signal) ex_near ex_v2_hub =
      (None, ma1, ex_v2_hub, [MeshSend 7 ''SIGNAL_FORWARD'' ?p])"
    by (simp add: forward_signal_def ex_near_def new_mesh_def ex_ids pending_operation_count_def) (simp add: default_config_def)
  have v: "valid_forward ?p = Inr True"
    using ex_v2_validate ex_v2_fields ex_v2_payload_fields by (simp add: valid_forward_def jget_def [of ?p])
  have "utf8_len (dumps (\<lambda>_. []) (JDict ex_v2_signal)) = Some (length ex_v2_text)"
    using ex_v2_text_len by (simp add: ex_v2_prims_def del: dumps.simps)
  moreover have "\<not> queue_full ex_peer (ex_v2_session 2)" "int (length ex_v2_text) \<le> outbound_queue_bytes ex_peer"
    using ex_v2_hub_sessions(5) ex_v2_ascii(2) by (simp_all add: queue_full_def ex_peer_def default_config_def)
  ultimately obtain h1 where x: "send_session (\<lambda>_. []) ex_peer (u ''b'') (JDict ex_v2_signal) ex_v2_hub = Inr (True, h1, [])"
    using ex_v2_hub_sessions(2,6) by (simp add: send_session_def Let_def del: dumps.simps)
  have "u ''b'' \<in> set (route_subscribers 1 (zeros 32) None ex_v2_hub)" by (simp add: route_subscribers_def ex_v2_hub_def)
  then have "handle_signal_forward (\<lambda>_. []) ex_peer 1 8 ?p ex_far ex_v2_hub =
      (ex_far, h1, [MeshSend 8 ''ACK'' (ack_payload (u ''r'') True)], [], None)"
    using v x by (simp add: handle_signal_forward_def mesh_try_def Let_def jget_def ack_payload_def)
  from forward_acknowledged [OF a _ this, of 7 "''SIGNAL_FORWARD''" ex_v2_prims 0 0 "u ''x''" 7 "u ''k''" ex_v2_hub ex_v2_hub]
  show ?thesis by (auto simp: a ack_payload_def)
qed

text \<open>C30: What one node forwards another accepts: a signal that passed the validation of the endpoint, as the
  server repackages it for the mesh, is a well-formed forwarded signal for the same route and
  recipient.\<close>

theorem forwarded_signal_typed:
  assumes "validate_v2_message (JDict d) = Inr ()" "jget d ''type'' = JStr (u ''SIGNAL'')"
  shows "valid_forward [(u ''requestId'', rid), (u ''routeTag'', jget (payload_of d) ''routeTag''),
      (u ''targetSessionId'', jget (payload_of d) ''toSessionId''),
      (u ''envelope'', signal_out (jget d ''id'') (payload_of d))] = Inr True"
proof -
  obtain e where e: "signal_out (jget d ''id'') (payload_of d) = JDict e" "jget e ''type'' = JStr (u ''SIGNAL'')" "payload_of e = payload_of d"
    by (simp add: signal_out_def jget_def payload_of_def)
  then show ?thesis using signal_out_valid [OF assms] by (simp add: valid_forward_def jget_def [of "_ # _"])
qed

theorem forwarded_signal_typed_witness:
  "valid_forward [(u ''requestId'', JStr (u ''r'')), (u ''routeTag'', JStr (zeros 32)), (u ''targetSessionId'', JStr (u ''b'')),
      (u ''envelope'', JDict ex_v2_signal)] = Inr True"
  using forwarded_signal_typed [OF ex_v2_validate, of "JStr (u ''r'')"] by (simp add: ex_v2_fields ex_v2_payload_fields)



end
