(* ===== verification/Hub_Properties.thy ===== *)
theory Hub_Properties
  imports Hub_Dedupe
begin

text \<open>
  The properties of the hub's operations, each over every hub that satisfies the invariant.
\<close>

section \<open>An example\<close>

definition ex_pair :: hub where
  "ex_pair = (new_hub default_config 0)
     \<lparr>sessions := [(u ''a'', (new_session 1 0)\<lparr>sess_routes := [u ''r'']\<rparr>),
                   (u ''b'', (new_session 2 0)\<lparr>sess_routes := [u ''r'']\<rparr>)],
      routes := [(u ''r'', [(u ''a'', 10), (u ''b'', 90)])]\<rparr>"

lemma ex_pair_inv: "hub_inv default_config ex_pair"
proof -
  have s: "dget (sessions ex_pair) x = (if x = u ''a'' then Some ((new_session 1 0)\<lparr>sess_routes := [u ''r'']\<rparr>)
      else if x = u ''b'' then Some ((new_session 2 0)\<lparr>sess_routes := [u ''r'']\<rparr>) else None)" for x
    by (simp add: ex_pair_def)
  have r: "lease ex_pair y x = (if y = u ''r'' then if x = u ''a'' then Some 10 else if x = u ''b'' then Some 90
      else None else None)" for y x
    by (simp add: ex_pair_def lease_def)
  have "in_session ex_pair x y \<longleftrightarrow> (x = u ''a'' \<or> x = u ''b'') \<and> y = u ''r''" for x y
    by (auto simp: in_session_def s)
  moreover have "tables_ok ex_pair"
    unfolding tables_ok_def s by (auto simp: ex_pair_def split: if_splits)
  ultimately have ri: "routes_inv ex_pair" by (auto simp: routes_inv_def r)
  have "queues_inv default_config ex_pair"
    by (auto simp: queues_inv_def s) (simp_all add: ex_pair_def new_session_def queue_ok_def
        in_flight_def dict_sum_def new_hub_def default_config_def)
  then show ?thesis
    using ri hub_inv_new [OF default_post_init, of 0] by (simp add: hub_inv_def seen_inv_def ex_pair_def)
qed

section \<open>Properties\<close>

text \<open>C32: Pruning routes forgets exactly the leases that have run out, on both sides of the
  bookkeeping, drops the routes that become empty, and changes neither the set nor the order of
  the subscribers of any route from then on.\<close>

theorem prune_routes_exact:
  assumes "hub_inv c h" "now \<le> t"
  shows "hub_inv c (fst (prune_routes now h)) \<and>
    (\<forall>r x. lease (fst (prune_routes now h)) r x =
       (case lease h r x of None \<Rightarrow> None | Some e \<Rightarrow> if now < e then Some e else None)) \<and>
    (\<forall>r. dget (routes (fst (prune_routes now h))) r \<noteq> Some []) \<and>
    (\<forall>r ex. route_subscribers t r ex (fst (prune_routes now h)) = route_subscribers t r ex h)"
proof -
  have ok: "tables_ok h" by (rule hub_invD(6) [OF assms(1)])
  have "hub_inv c (fst (prune_routes now h))" by (rule hub_inv_prune_routes [OF assms(1)])
  moreover from hub_invD(6) [OF this] have "dget (routes (fst (prune_routes now h))) r \<noteq> Some []" for r
    unfolding tables_ok_def by blast
  ultimately show ?thesis
    using lease_prune [OF ok] subscribers_prune [OF ok assms(2)] by simp
qed

theorem prune_routes_exact_witness:
  "lease (fst (prune_routes 10 ex_pair)) (u ''r'') (u ''a'') = None \<and>
   lease (fst (prune_routes 10 ex_pair)) (u ''r'') (u ''b'') = Some 90"
  using prune_routes_exact [OF ex_pair_inv, of 10 10] by (simp add: lease_def ex_pair_def)

text \<open>Removing a session leaves nothing of it behind (no table entry, no lease on any route,
  no rate-limiter bucket, no queued bytes) and touches no other session's leases or queues.\<close>

theorem remove_session_complete:
  assumes "hub_inv c h"
  shows "hub_inv c (remove_session sid h) \<and>
    (\<forall>x. dget (sessions (remove_session sid h)) x = (if x = sid then None else dget (sessions h) x)) \<and>
    (\<forall>r x. lease (remove_session sid h) r x = (if x = sid then None else lease h r x)) \<and>
    outbound_queued_bytes (remove_session sid h) = dict_sum outbound_bytes (dpop (sessions h) sid) \<and>
    (sid \<in> set (dkeys (sessions h)) \<longrightarrow> (\<forall>opn. dget (rate_limiter (remove_session sid h)) (sid, opn) = None))"
proof -
  have inv: "hub_inv c (remove_session sid h)" by (rule hub_inv_remove [OF assms])
  have s: "sessions (remove_session sid h) = dpop (sessions h) sid"
  proof (cases "dget (sessions h) sid")
    case None
    then show ?thesis by (simp add: remove_session_None dpop_notin dget_None_iff)
  qed (rule remove_session_frame)
  have "dget (rate_limiter (remove_session sid h)) (sid, opn) = None" if k: "sid \<in> set (dkeys (sessions h))" for opn
  proof -
    obtain v where "dget (sessions h) sid = Some v" using in_dkeys_dget [OF k] by blast
    then show ?thesis by (simp add: remove_session_frame dget_drop_session)
  qed
  then show ?thesis
    using inv dget_remove_session lease_remove_session [OF hub_invD(1) [OF assms]]
      queues_invD(3) [OF hub_invD(2) [OF inv]] s by (simp add: dget_dpop)
qed

theorem remove_session_complete_witness:
  "lease (remove_session (u ''a'') ex_pair) (u ''r'') (u ''a'') = None \<and>
   lease (remove_session (u ''a'') ex_pair) (u ''r'') (u ''b'') = Some 90"
  using remove_session_complete [OF ex_pair_inv, of "u ''a''"] by (simp add: lease_def ex_pair_def)

text \<open>A replay-cache key is accepted exactly when it is not remembered with an expiry in the
  future and there is room: a remembered key may always be renewed once it has run out, a new one
  needs fewer than \<^verbatim>\<open>max_dedupe_entries\<close> unexpired entries.\<close>

theorem check_and_mark_seen_exact:
  assumes "seen_inv c h"
  shows "fst (check_and_mark_seen c now k ttl h) \<longleftrightarrow>
    (case dget (seen h) k of
       Some e \<Rightarrow> e \<le> now
     | None \<Rightarrow> int (length (filter (\<lambda>(k, e). now < e) (seen h))) < max_dedupe_entries c)"
  using assms by (intro mark_accepted_iff) (simp add: seen_inv_def)

theorem check_and_mark_seen_exact_witness:
  "fst (check_and_mark_seen default_config 7 (u ''k'') 5 (ex_pair\<lparr>seen := [(u ''k'', 7)]\<rparr>))"
  using check_and_mark_seen_exact [of default_config "ex_pair\<lparr>seen := [(u ''k'', 7)]\<rparr>" 7 "u ''k''" 5]
  by (simp add: seen_inv_def default_config_def)

text \<open>Once a key has been accepted it is refused until its window has passed, whatever marks
  and prunes happen in between, in any order.\<close>

theorem no_replay_in_window:
  assumes "seen_inv c h" "0 < ttl" "fst (check_and_mark_seen c t k ttl h)"
    and "\<forall>p \<in> set ops. op_time p < t + ttl" "t' < t + ttl"
  shows "\<not> fst (check_and_mark_seen c t' k ttl'
      (fold (dedupe.step c) ops (snd (check_and_mark_seen c t k ttl h))))"
  using assms by (rule dedupe.no_replay)

theorem no_replay_in_window_witness:
  "\<not> fst (check_and_mark_seen default_config 9 (u ''k'') 10
      (fst (prune_dedupe 8 (snd (check_and_mark_seen default_config 0 (u ''k'') 10 (new_hub default_config 0))))))"
  using no_replay_in_window [of default_config "new_hub default_config 0" 10 0 "u ''k''" "[Prune 8]" 9 10]
  by (simp add: seen_inv_def new_hub_def mark_accepted_iff default_config_def)

text \<open>Under an accepted configuration a session whose queue is empty always gets a frame of up
  to \<^verbatim>\<open>max_frame_bytes\<close> bytes: it is queued behind nothing, its bytes are counted on the
  session and on the hub, a writer is running for it, and no socket is closed.\<close>

theorem send_to_idle_session:
  assumes "post_init c = Inr ()" "hub_inv c h" "dget (sessions h) sid = Some s"
    and "outbound_queue s = []" "in_flight s = 0"
    and "utf8_len (dumps frepr data) = Some n" "int n \<le> max_frame_bytes c"
  shows "\<exists>h' s'. send_session frepr c sid data h = Inr (True, h', []) \<and> hub_inv c h' \<and>
    dget (sessions h') sid = Some s' \<and> outbound_queue s' = [(data, n)] \<and> outbound_bytes s' = int n \<and>
    outbound_queued_bytes h' = outbound_queued_bytes h + int n \<and> writer_task s' \<notin> {NoWriter, WriterDone}"
proof -
  have q: "queue_ok c s" by (rule queues_invD(1) [OF hub_invD(2) [OF assms(2)] assms(3)])
  have b: "outbound_bytes s = 0" using q assms(4,5) by (simp add: queue_ok_def)
  have lim: "1 \<le> outbound_queue_frames c" "max_frame_bytes c \<le> outbound_queue_bytes c"
    using server_config.frames_positive [of c] server_config.frame_fits_queue [of c] assms(1)
    by (simp_all add: server_config_def)
  obtain h' where h': "send_session frepr c sid data h = Inr (True, h', [])"
    and s': "dget (sessions h') sid = Some (s\<lparr>outbound_queue := [(data, n)], outbound_bytes := int n,
        writer_task := (case writer_task s of Writing f \<Rightarrow> Writing f | _ \<Rightarrow> Writing None)\<rparr>)"
      "outbound_queued_bytes h' = outbound_queued_bytes h + int n"
    using assms(3,4,6,7) b lim
    by (simp add: send_session_def queue_full_def Let_def dget_dset)
  have "hub_inv c h'" by (rule hub_inv_send [OF assms(2,1) h'])
  with h' s' show ?thesis by (simp split: writer.split)
qed

theorem send_to_idle_session_witness:
  "\<exists>h'. send_session (\<lambda>_. []) default_config (u ''a'') JNull ex_pair = Inr (True, h', [])"
proof -
  have "dget (sessions ex_pair) (u ''a'') = Some ((new_session 1 0)\<lparr>sess_routes := [u ''r'']\<rparr>)"
    by (simp add: ex_pair_def)
  moreover have "utf8_len (dumps (\<lambda>_. []) JNull) = Some 4" by (simp add: utf8_len_ascii u_def)
  ultimately show ?thesis
    using send_to_idle_session [OF default_post_init ex_pair_inv, of "u ''a''" _ "\<lambda>_. []" JNull 4]
    by (auto simp: new_session_def in_flight_def default_config_def)
qed

text \<open>A frame that does not fit (queue full, or too many bytes) is dropped without any change
  to queues, routes or the replay cache, and the slow client is disconnected with code 1013.\<close>

theorem send_to_slow_session:
  assumes "dget (sessions h) sid = Some s" "utf8_len (dumps frepr data) = Some n"
    and "queue_full c s \<or> outbound_bytes s + int n > outbound_queue_bytes c"
  shows "\<exists>h'. send_session frepr c sid data h = Inr (False, h', [CloseSocket (ws s) 1013 ''slow client'']) \<and>
    sessions h' = sessions h \<and> routes h' = routes h \<and> seen h' = seen h \<and>
    outbound_queued_bytes h' = outbound_queued_bytes h"
  using assms by (simp add: send_session_def)

theorem send_to_slow_session_witness:
  "\<exists>h'. send_session (\<lambda>_. []) (default_config\<lparr>outbound_queue_bytes := 3\<rparr>) (u ''a'') JNull ex_pair =
     Inr (False, h', [CloseSocket 1 1013 ''slow client''])"
proof -
  have "dget (sessions ex_pair) (u ''a'') = Some ((new_session 1 0)\<lparr>sess_routes := [u ''r'']\<rparr>)"
    by (simp add: ex_pair_def)
  moreover have "utf8_len (dumps (\<lambda>_. []) JNull) = Some 4" by (simp add: utf8_len_ascii u_def)
  ultimately show ?thesis
    using send_to_slow_session [of ex_pair "u ''a''" _ "\<lambda>_. []" JNull 4 "default_config\<lparr>outbound_queue_bytes := 3\<rparr>"]
    by (auto simp: new_session_def)
qed

end
