(* ===== verification/Operations.thy ===== *)
theory Operations
  imports Health V2_Routes
begin

text \<open>
  What operators see of the server: the Prometheus text of \<^verbatim>\<open>app/metrics.py\<close>, its loop over the
  process probes, and the endpoints \<^verbatim>\<open>/metrics\<close>, \<^verbatim>\<open>/status\<close> and \<^verbatim>\<open>/v2/manifest\<close> of
  \<^verbatim>\<open>app/v2.py\<close>. The text of a number (\<^verbatim>\<open>:g\<close>) is a parameter; what the probes measure is an
  argument. Shown: histograms are cumulative, \<^verbatim>\<open>/metrics\<close> is closed to the outside, the loop
  neither stalls nor drifts, and a ready node is responsive.
\<close>

section \<open>Prometheus text\<close>

text \<open>Metric names are literals of the source, so \<^verbatim>\<open>isalnum\<close> and \<^verbatim>\<open>lower\<close> are needed on ASCII only.\<close>

definition is_alnum :: "nat \<Rightarrow> bool" where
  "is_alnum ch \<longleftrightarrow> 48 \<le> ch \<and> ch \<le> 57 \<or> 65 \<le> ch \<and> ch \<le> 90 \<or> 97 \<le> ch \<and> ch \<le> 122"

definition metric_name :: "string \<Rightarrow> pystr" where
  "metric_name name = map (\<lambda>ch. if is_alnum ch \<or> ch = 95 then ch else 95) (lower_ascii (u name))"

definition histogram_boundaries :: "string \<Rightarrow> real list" where
  "histogram_boundaries name =
     (if substring (u ''cpu_percent'') (u name) then [5, 10, 25, 50, 80, 100, 200]
      else if drop (length name - 8) name = ''_seconds''
      then [1 / 1000, 1 / 200, 1 / 100, 1 / 40, 1 / 20, 1 / 10, 1 / 4, 1 / 2, 1]
      else [1, 5, 10, 25, 50, 100, 250, 500, 1000])"

text \<open>The counts of the \<^verbatim>\<open>_bucket\<close> lines of a series.\<close>

definition bucket_counts :: "string \<Rightarrow> real list \<Rightarrow> (real \<times> nat) list" where
  "bucket_counts name values = map (\<lambda>b. (b, length (filter (\<lambda>v. v \<le> b) values))) (histogram_boundaries name)"

definition series_lines :: "(real \<Rightarrow> pystr) \<Rightarrow> string \<Rightarrow> real list \<Rightarrow> pystr list" where
  "series_lines fmt name values =
     (let metric = u ''particle_'' @ metric_name name; n = dump_nat (length values)
      in map (\<lambda>(b, k). metric @ u ''_bucket{le='' @ [34] @ fmt b @ [34] @ u ''} '' @ dump_nat k) (bucket_counts name values) @
         [metric @ u ''_bucket{le='' @ [34] @ u ''+Inf'' @ [34] @ u ''} '' @ n,
          metric @ u ''_count '' @ n,
          metric @ u ''_sum '' @ fmt (sum_list values)])"

definition by_name :: "(string, 'v) dict \<Rightarrow> (string \<times> 'v) list" where
  "by_name d = sort_key (u \<circ> fst) d"

definition prometheus_lines :: "(real \<Rightarrow> pystr) \<Rightarrow> metrics \<Rightarrow> pystr list" where
  "prometheus_lines fmt m =
     map (\<lambda>(name, v). u ''particle_'' @ metric_name name @ u ''_total '' @ fmt v) (by_name (counters m)) @
     map (\<lambda>(name, v). u ''particle_'' @ metric_name name @ u '' '' @ fmt v) (by_name (gauges m)) @
     concat (map (\<lambda>(name, values). series_lines fmt name values) (by_name (samples m)))"

definition render_prometheus :: "(real \<Rightarrow> pystr) \<Rightarrow> metrics \<Rightarrow> pystr" where
  "render_prometheus fmt m =
     (case prometheus_lines fmt m of
        [] \<Rightarrow> [10]
      | l # ls \<Rightarrow> fold (\<lambda>x acc. acc @ [10] @ x) ls l @ [10])"

section \<open>The probe loop\<close>

text \<open>The variables of \<^verbatim>\<open>runtime_metrics_loop\<close> between two turns, and what one turn reads.\<close>

record probe =
  previous_wall :: real
  previous_cpu :: real
  probe_deadline :: real

record reading =
  current_wall :: real
  current_cpu :: real
  cpu_count :: "nat option"
  resident_bytes :: int
  open_fds :: int

definition loop_interval :: "real \<Rightarrow> real" where
  "loop_interval interval_seconds = max (1 / 10) interval_seconds"

definition runtime_start :: "real \<Rightarrow> real \<Rightarrow> real \<Rightarrow> probe" where
  "runtime_start interval_seconds wall cpu =
     \<lparr>previous_wall = wall, previous_cpu = cpu, probe_deadline = wall + loop_interval interval_seconds\<rparr>"

definition observe_cpu :: "probe \<Rightarrow> reading \<Rightarrow> metrics \<Rightarrow> metrics" where
  "observe_cpu k r m =
     (let wall_delta = current_wall r - previous_wall k
      in if wall_delta > 0 then
           let one_core = max 0 ((current_cpu r - previous_cpu k) / wall_delta * 100);
               cores = max 1 (case cpu_count r of None \<Rightarrow> 1 | Some n \<Rightarrow> if n = 0 then 1 else n)
           in observe ''process_cpu_percent'' (FFin (one_core / real cores))
                (observe ''process_cpu_percent_one_core'' (FFin one_core) m)
         else m)"

definition observe_rss :: "int \<Rightarrow> metrics \<Rightarrow> metrics" where
  "observe_rss rss m =
     (if rss > 0 then
        let m1 = gauge ''process_rss_bytes'' (real_of_int rss) m
        in gauge ''process_rss_peak_bytes'' (max (gauge_value ''process_rss_peak_bytes'' m1) (real_of_int rss)) m1
      else m)"

definition runtime_tick :: "real \<Rightarrow> reading \<Rightarrow> probe \<times> metrics \<Rightarrow> probe \<times> metrics" where
  "runtime_tick interval_seconds r st =
     (case st of (k, m) \<Rightarrow>
        let m1 = observe ''event_loop_lag_seconds'' (FFin (max 0 (current_wall r - probe_deadline k))) m;
            m2 = observe_rss (resident_bytes r) (observe_cpu k r m1);
            m3 = (if open_fds r \<ge> 0 then gauge ''process_open_file_descriptors'' (real_of_int (open_fds r)) m2 else m2);
            dl = probe_deadline k + loop_interval interval_seconds
        in (\<lparr>previous_wall = current_wall r, previous_cpu = current_cpu r,
             probe_deadline = if dl \<le> current_wall r then current_wall r + loop_interval interval_seconds else dl\<rparr>, m3))"

section \<open>Endpoints\<close>

definition metrics_token_ok :: "config \<Rightarrow> pystr \<Rightarrow> bool result" where
  "metrics_token_ok c authorization =
     (let expected = u ''Bearer '' @ metrics_token c
      in if metrics_token c = [] then Inr False
         else if list_all (\<lambda>ch. ch < 128) authorization \<and> list_all (\<lambda>ch. ch < 128) expected
         then Inr (authorization = expected) else Inl TypeError)"

definition is_loopback :: "pystr \<Rightarrow> pystr list \<Rightarrow> bool" where
  "is_loopback client_host forwarded \<longleftrightarrow>
     client_host \<in> u ` {''127.0.0.1'', ''::1'', ''localhost''} \<and> list_all (\<lambda>h. h = []) forwarded"

text \<open>
  \<^verbatim>\<open>GET /metrics\<close>; \<open>forwarded\<close> are the values of the four proxy headers, empty when absent.
\<close>

definition metrics_request ::
  "(real \<Rightarrow> pystr) \<Rightarrow> config \<Rightarrow> pystr \<Rightarrow> pystr \<Rightarrow> pystr list \<Rightarrow> v2_state \<Rightarrow> http \<times> v2_state" where
  "metrics_request fmt c client_host authorization forwarded st =
     http_try (metrics_token_ok c authorization) st (\<lambda>token_ok.
       if \<not> is_loopback client_host forwarded \<and> \<not> token_ok then (Status 403, st)
       else let h = with_metrics (gauge ''active_routes'' (real (length (routes (v2_hub st)))))
                      (with_metrics (gauge ''active_sessions'' (real_of_int (session_count (v2_hub st)))) (v2_hub st))
            in (Answer (JStr (render_prometheus fmt (hub_metrics h))), st\<lparr>v2_hub := h\<rparr>))"

definition status_request :: "trust_prims \<Rightarrow> config \<Rightarrow> int \<Rightarrow> int \<Rightarrow> bool \<Rightarrow> v2_state \<Rightarrow> http \<times> v2_state" where
  "status_request P c wall started_at quorum st =
     http_try (with_manifest P wall st) st (\<lambda>(manifest, st1).
       (Answer (JDict
          [(u ''service'', JStr (u ''particle-masterserver'')), (u ''version'', JInt 2), (u ''nodeId'', JStr (node_id c)),
           (u ''ready'', JBool (readiness_reasons (v2_hub st1) c (hub_metrics (v2_hub st1)) (Some wall) (Some quorum) = [])),
           (u ''protocols'', jget (dict_of (jget (dict_of manifest) ''payload'')) ''protocols''),
           (u ''uptimeSeconds'', JInt (max 0 (wall - started_at)))]), st1))"

definition manifest_request :: "trust_prims \<Rightarrow> int \<Rightarrow> v2_state \<Rightarrow> http \<times> v2_state" where
  "manifest_request P wall st = http_try (with_manifest P wall st) st (\<lambda>(manifest, st1). (Answer manifest, st1))"

text \<open>
  The check of \<^verbatim>\<open>create_app\<close> on the allowed origins, given what \<^verbatim>\<open>json.loads\<close> makes of the setting
  (\<open>None\<close> when it is not JSON).
\<close>

definition is_str :: "json \<Rightarrow> bool" where
  "is_str v = (case v of JStr _ \<Rightarrow> True | _ \<Rightarrow> False)"

definition check_origins :: "json option \<Rightarrow> pystr list result" where
  "check_origins setting =
     (case setting of
        None \<Rightarrow> Inl (ValueError ''valid JSON'')
      | Some (JList xs) \<Rightarrow>
          if list_all is_str xs then Inr (map jstr xs)
          else Inl (ValueError ''string list'')
      | Some _ \<Rightarrow> Inl (ValueError ''string list''))"

section \<open>Lemmas\<close>

lemma boundaries_sorted: "sorted (histogram_boundaries name)"
  by (simp add: histogram_boundaries_def)

lemma count_mono: "b \<le> b' \<Longrightarrow> length (filter (\<lambda>v. v \<le> b) xs) \<le> length (filter (\<lambda>v. v \<le> b') xs)" for b b' :: real
  by (induction xs) auto

lemma gauge_value_simps [simp]:
  "gauge_value n (gauge n' x m) = (if n = n' then x else gauge_value n m)" "gauge_value n (observe n' v m) = gauge_value n m"
  by (simp_all add: gauge_value_def gauge_def observe_def dget_default_dset Let_def split: pyfloat.split)

lemma tick_peak:
  "gauge_value ''process_rss_peak_bytes'' (snd (runtime_tick i r st)) =
     (if resident_bytes r > 0 then max (gauge_value ''process_rss_peak_bytes'' (snd st)) (real_of_int (resident_bytes r))
      else gauge_value ''process_rss_peak_bytes'' (snd st))"
  by (simp add: runtime_tick_def observe_rss_def observe_cpu_def Let_def case_prod_unfold)

lemma ticks_peak:
  "gauge_value ''process_rss_peak_bytes'' (snd (fold (runtime_tick i) rs st)) =
     fold max (map (\<lambda>r. real_of_int (resident_bytes r)) (filter (\<lambda>r. 0 < resident_bytes r) rs))
       (gauge_value ''process_rss_peak_bytes'' (snd st))"
  by (induction rs arbitrary: st) (simp_all add: tick_peak max.commute)

lemma tick_deadline:
  "current_wall r < probe_deadline (fst (runtime_tick i r st))"
  "probe_deadline (fst st) \<le> current_wall r \<Longrightarrow> probe_deadline (fst (runtime_tick i r st)) \<le> current_wall r + loop_interval i"
  by (auto simp: runtime_tick_def Let_def case_prod_unfold loop_interval_def)

lemma ready_lag:
  "readyz h c m t q = 204 \<Longrightarrow> quantile ''event_loop_lag_seconds'' (99 / 100) m \<le> readiness_event_loop_p99_seconds c"
  by (auto simp: readyz_def readiness_reasons_def split: if_splits)

definition ex_ops :: v2_state where
  "ex_ops = \<lparr>v2_hub = new_hub default_config 0, v2_trust = ex_trust, signal_limiter = new_bucket 1 1 0,
     admission_lim = new_admission_limiter 1 1 1 1 0, turn_lim = new_admission_limiter 1 1 1 1 0\<rparr>"

definition ex_reading :: reading where
  "ex_reading = \<lparr>current_wall = 5, current_cpu = 1, cpu_count = Some 4, resident_bytes = 1000, open_fds = 7\<rparr>"

section \<open>Properties\<close>

text \<open>The histogram of a series is cumulative: the counts of its buckets never decrease from one
  boundary to the next and never exceed the number of samples, which the last bucket reports.\<close>

theorem histogram_cumulative:
  "sorted (map snd (bucket_counts name xs)) \<and> set (map snd (bucket_counts name xs)) \<subseteq> {..length xs}"
proof
  have "sorted (map (\<lambda>b. length (filter (\<lambda>v. v \<le> b) xs)) bs)" if "sorted bs" for bs
    using that by (induction bs) (auto intro: count_mono)
  from this [OF boundaries_sorted] show "sorted (map snd (bucket_counts name xs))"
    by (simp add: bucket_counts_def comp_def)
qed (auto simp: bucket_counts_def)

text \<open>The metrics are closed to the outside: a request is answered only from the loopback interface
  without any proxy header, or with the configured bearer token.\<close>

theorem metrics_private:
  assumes "fst (metrics_request fmt c client_host authorization forwarded st) = Answer body"
  shows "client_host \<in> u ` {''127.0.0.1'', ''::1'', ''localhost''} \<and> list_all (\<lambda>h. h = []) forwarded \<or>
    metrics_token c \<noteq> [] \<and> authorization = u ''Bearer '' @ metrics_token c"
  using assms
  by (auto simp: metrics_request_def http_try_def metrics_token_ok_def is_loopback_def Let_def split: if_splits)

theorem metrics_private_witness:
  "u ''::1'' \<in> u ` {''127.0.0.1'', ''::1'', ''localhost''} \<and> list_all (\<lambda>h. h = []) [[], [], [], [] :: pystr]"
proof -
  obtain body where "fst (metrics_request (\<lambda>_. []) default_config (u ''::1'') [] [[], [], [], []] ex_ops) = Answer body"
    by (simp add: metrics_request_def http_try_def metrics_token_ok_def is_loopback_def Let_def) (simp add: default_config_def)
  moreover have "metrics_token default_config = []" by (simp add: default_config_def)
  ultimately show ?thesis using metrics_private by blast
qed

text \<open>The probe loop neither stalls nor drifts: after every turn the next deadline lies in the future,
  and after a turn that was due it is at most one interval away, however late the turn came.\<close>

theorem runtime_loop_ahead:
  assumes "probe_deadline k \<le> current_wall r"
  shows "current_wall r < probe_deadline (fst (runtime_tick i r (k, m))) \<and>
    probe_deadline (fst (runtime_tick i r (k, m))) \<le> current_wall r + max (1 / 10) i"
  using tick_deadline(1) [of r i "(k, m)"] tick_deadline(2) [of "(k, m)" r i] assms by (simp add: loop_interval_def)

theorem runtime_loop_ahead_witness:
  "5 < probe_deadline (fst (runtime_tick 1 ex_reading (runtime_start 1 0 0, new_metrics)))"
  using runtime_loop_ahead [of "runtime_start 1 0 0" ex_reading 1 new_metrics]
  by (simp add: runtime_start_def ex_reading_def loop_interval_def)

text \<open>The peak gauge is the largest resident size ever measured, over any number of turns; failed
  measurements do not count.\<close>

theorem rss_peak_is_max:
  "gauge_value ''process_rss_peak_bytes'' (snd (fold (runtime_tick i) rs (k, new_metrics))) =
     Max (insert 0 ((\<lambda>r. real_of_int (resident_bytes r)) ` {r \<in> set rs. 0 < resident_bytes r}))"
proof -
  have "fold max xs (0 :: real) = Max (insert 0 (set xs))" for xs
    by (induction xs rule: rev_induct) (auto simp: max.commute insert_commute)
  then show ?thesis
    by (simp add: ticks_peak) (simp add: gauge_value_def new_metrics_def dget_default_def)
qed

text \<open>C40: A node that reports ready has room for a session and a responsive event loop: at least 99 percent of
  the recent lags are within the configured limit.\<close>

theorem ready_means_responsive:
  assumes "readyz h c m t q = 204" "dget_default [] (samples m) ''event_loop_lag_seconds'' = lags"
  shows "session_count h < max_concurrency c \<and>
    99 / 100 * real (length lags) \<le> real (length (filter (\<lambda>x. x \<le> readiness_event_loop_p99_seconds c) lags))"
proof (cases "lags = []")
  case False
  have "quantile_of lags (99 / 100) \<le> readiness_event_loop_p99_seconds c"
    using ready_lag [OF assms(1)] assms(2) by (simp add: quantile_def)
  from count_mono [OF this, of lags] quantile_rank(2) [OF False, of "99 / 100"] ready_below_capacity [OF assms(1)]
  show ?thesis by simp
qed (use ready_below_capacity [OF assms(1)] in simp)

theorem ready_means_responsive_witness:
  "session_count (new_hub default_config 0) < max_concurrency default_config \<and>
     99 / 100 * real (length [1 / 10 :: real]) \<le> real (length (filter (\<lambda>x. x \<le> readiness_event_loop_p99_seconds default_config) [1 / 10]))"
proof (rule ready_means_responsive)
  let ?m = "observe ''event_loop_lag_seconds'' (FFin (1 / 10)) new_metrics"
  show "dget_default [] (samples ?m) ''event_loop_lag_seconds'' = [1 / 10]"
    by (simp add: observe_step) (simp add: new_metrics_def dget_default_def)
  then show "readyz (new_hub default_config 0) default_config ?m (Some 5) (Some True) = 204"
    by (simp add: readyz_def readiness_reasons_def quantile_def quantile_of_def session_count_def new_hub_def)
      (simp add: default_config_def gauge_value_def new_metrics_def dget_default_def)
qed

text \<open>The start-up check protects every connection: with the origins it has accepted, the origin test of
  the WebSocket endpoints never raises and lets in exactly the listed origins and clients that send
  none.\<close>

theorem checked_origins_decide:
  assumes "check_origins setting = Inr origins"
  shows "origin_allowed setting origin = Inr (case origin of None \<Rightarrow> True | Some o' \<Rightarrow> o' = [] \<or> o' \<in> set origins)"
proof -
  obtain xs where xs: "setting = Some (JList xs)" "list_all is_str xs" "origins = map jstr xs"
    using assms by (auto simp: check_origins_def split: option.splits json.splits if_splits)
  have "JStr o' \<in> set xs \<longleftrightarrow> o' \<in> set origins" for o'
    using xs(2) unfolding xs(3) by (induction xs) (auto simp: jstr_def is_str_def split: json.splits)
  then show ?thesis by (simp add: origin_allowed_def xs(1) split: option.split)
qed

theorem checked_origins_decide_witness:
  "origin_allowed (Some (JList [JStr (u ''https://a''), JStr (u ''https://b'')])) (Some (u ''https://a'')) = Inr True"
  using checked_origins_decide [of "Some (JList [JStr (u ''https://a''), JStr (u ''https://b'')])"
      "[u ''https://a'', u ''https://b'']" "Some (u ''https://a'')"] by (simp add: check_origins_def is_str_def jstr_def)

end
