(* ===== verification/Startup.thy ===== *)
theory Startup
  imports Health Trust
begin

text \<open>
  What happens before the server runs: the configuration is read from the environment
  (\<^verbatim>\<open>app/config.py\<close>) and the signing key is loaded or made (\<^verbatim>\<open>NodeTrust._load_private_key\<close> of
  \<^verbatim>\<open>app/trust.py\<close>); and the filter on what comes in over a socket afterwards
  (\<^verbatim>\<open>app/ws_io.py\<close>, \<^verbatim>\<open>_receive_text\<close> of \<^verbatim>\<open>app/node_mesh.py\<close>). The environment, the key file and the key
  parser are arguments, as are the values Python's \<^verbatim>\<open>int\<close> and \<^verbatim>\<open>float\<close> give a text.
\<close>

section \<open>The environment\<close>

record env_prims =
  int_text :: "pystr \<Rightarrow> int option"
  float_text :: "pystr \<Rightarrow> pyfloat option"

type_synonym environment = "string \<Rightarrow> pystr option"

definition env_int :: "env_prims \<Rightarrow> environment \<Rightarrow> string \<Rightarrow> int option result" where
  "env_int E env name =
     (case env name of
        None \<Rightarrow> Inr None
      | Some raw \<Rightarrow> (case int_text E raw of None \<Rightarrow> Inl (ValueError name) | Some i \<Rightarrow> Inr (Some i)))"

text \<open>
  An infinite or undefined value is refused by \<^verbatim>\<open>__post_init__\<close>, whose ranges cover every float
  setting; here at once, with the same exception.
\<close>

definition env_float :: "env_prims \<Rightarrow> environment \<Rightarrow> string \<Rightarrow> real option result" where
  "env_float E env name =
     (case env name of
        None \<Rightarrow> Inr None
      | Some raw \<Rightarrow> (case float_text E raw of Some (FFin x) \<Rightarrow> Inr (Some x) | _ \<Rightarrow> Inl (ValueError name)))"

definition env_bool :: "environment \<Rightarrow> string \<Rightarrow> bool option result" where
  "env_bool env name =
     (case env name of
        None \<Rightarrow> Inr None
      | Some raw \<Rightarrow>
          (let normalized = lower_ascii (strip raw)
           in if normalized \<in> u ` {''1'', ''true'', ''yes'', ''on''} then Inr (Some True)
              else if normalized \<in> u ` {''0'', ''false'', ''no'', ''off''} then Inr (Some False)
              else Inl (ValueError name)))"

text \<open>The fields of \<^verbatim>\<open>Config\<close> in their order, each with its variable; a missing variable keeps the default.\<close>

datatype setting =
    IntSetting "int \<Rightarrow> config \<Rightarrow> config"
  | FloatSetting "real \<Rightarrow> config \<Rightarrow> config"
  | BoolSetting "bool \<Rightarrow> config \<Rightarrow> config"
  | TextSetting "pystr \<Rightarrow> config \<Rightarrow> config"

definition settings :: "(string \<times> setting) list" where
  "settings =
     [(''PARTICLE_MAX_FRAME_BYTES'', IntSetting (\<lambda>v c. c\<lparr>max_frame_bytes := v\<rparr>)),
      (''PARTICLE_MAX_ROUTES_PER_SESSION'', IntSetting (\<lambda>v c. c\<lparr>max_routes_per_session := v\<rparr>)),
      (''PARTICLE_MAX_V1_ROUTES_PER_SESSION'', IntSetting (\<lambda>v c. c\<lparr>max_v1_routes_per_session := v\<rparr>)),
      (''PARTICLE_MAX_SUBSCRIPTIONS'', IntSetting (\<lambda>v c. c\<lparr>max_subscriptions := v\<rparr>)),
      (''PARTICLE_MAX_FANOUT'', IntSetting (\<lambda>v c. c\<lparr>max_fanout := v\<rparr>)),
      (''PARTICLE_MAX_HOPS'', IntSetting (\<lambda>v c. c\<lparr>max_hops := v\<rparr>)),
      (''PARTICLE_MAX_CONCURRENCY'', IntSetting (\<lambda>v c. c\<lparr>max_concurrency := v\<rparr>)),
      (''PARTICLE_MAX_JSON_DEPTH'', IntSetting (\<lambda>v c. c\<lparr>max_json_depth := v\<rparr>)),
      (''PARTICLE_MAX_JSON_NODES'', IntSetting (\<lambda>v c. c\<lparr>max_json_nodes := v\<rparr>)),
      (''PARTICLE_MAX_DEDUPE_ENTRIES'', IntSetting (\<lambda>v c. c\<lparr>max_dedupe_entries := v\<rparr>)),
      (''PARTICLE_ADMISSION_CRYPTO_CONCURRENCY'', IntSetting (\<lambda>v c. c\<lparr>admission_crypto_concurrency := v\<rparr>)),
      (''PARTICLE_ADMISSION_CRYPTO_WAIT_SECONDS'', FloatSetting (\<lambda>v c. c\<lparr>admission_crypto_wait_seconds := v\<rparr>)),
      (''PARTICLE_ADMISSION_RATE_BURST'', IntSetting (\<lambda>v c. c\<lparr>admission_rate_burst := v\<rparr>)),
      (''PARTICLE_ADMISSION_RATE_PER_SECOND'', FloatSetting (\<lambda>v c. c\<lparr>admission_rate_per_second := v\<rparr>)),
      (''PARTICLE_ADMISSION_GLOBAL_BURST'', IntSetting (\<lambda>v c. c\<lparr>admission_global_burst := v\<rparr>)),
      (''PARTICLE_ADMISSION_GLOBAL_PER_SECOND'', FloatSetting (\<lambda>v c. c\<lparr>admission_global_per_second := v\<rparr>)),
      (''PARTICLE_TURN_RATE_BURST'', IntSetting (\<lambda>v c. c\<lparr>turn_rate_burst := v\<rparr>)),
      (''PARTICLE_TURN_RATE_PER_SECOND'', FloatSetting (\<lambda>v c. c\<lparr>turn_rate_per_second := v\<rparr>)),
      (''PARTICLE_TURN_GLOBAL_BURST'', IntSetting (\<lambda>v c. c\<lparr>turn_global_burst := v\<rparr>)),
      (''PARTICLE_TURN_GLOBAL_PER_SECOND'', FloatSetting (\<lambda>v c. c\<lparr>turn_global_per_second := v\<rparr>)),
      (''PARTICLE_SIGNAL_GLOBAL_BURST'', IntSetting (\<lambda>v c. c\<lparr>signal_global_burst := v\<rparr>)),
      (''PARTICLE_SIGNAL_GLOBAL_PER_SECOND'', FloatSetting (\<lambda>v c. c\<lparr>signal_global_per_second := v\<rparr>)),
      (''PARTICLE_MESSAGE_GLOBAL_BURST'', IntSetting (\<lambda>v c. c\<lparr>message_global_burst := v\<rparr>)),
      (''PARTICLE_MESSAGE_GLOBAL_PER_SECOND'', FloatSetting (\<lambda>v c. c\<lparr>message_global_per_second := v\<rparr>)),
      (''PARTICLE_ROUTE_LEASE_SECONDS'', FloatSetting (\<lambda>v c. c\<lparr>route_lease_seconds := v\<rparr>)),
      (''PARTICLE_HEARTBEAT_INTERVAL_SECONDS'', FloatSetting (\<lambda>v c. c\<lparr>heartbeat_interval_seconds := v\<rparr>)),
      (''PARTICLE_SESSION_STALE_SECONDS'', FloatSetting (\<lambda>v c. c\<lparr>session_stale_seconds := v\<rparr>)),
      (''PARTICLE_DEDUPE_WINDOW_SECONDS'', FloatSetting (\<lambda>v c. c\<lparr>dedupe_window_seconds := v\<rparr>)),
      (''PARTICLE_PROOF_DEADLINE_SECONDS'', FloatSetting (\<lambda>v c. c\<lparr>proof_deadline_seconds := v\<rparr>)),
      (''PARTICLE_CLEANUP_INTERVAL_SECONDS'', FloatSetting (\<lambda>v c. c\<lparr>cleanup_interval_seconds := v\<rparr>)),
      (''PARTICLE_OUTBOUND_QUEUE_FRAMES'', IntSetting (\<lambda>v c. c\<lparr>outbound_queue_frames := v\<rparr>)),
      (''PARTICLE_OUTBOUND_QUEUE_BYTES'', IntSetting (\<lambda>v c. c\<lparr>outbound_queue_bytes := v\<rparr>)),
      (''PARTICLE_OUTBOUND_SEND_TIMEOUT_SECONDS'', FloatSetting (\<lambda>v c. c\<lparr>outbound_send_timeout_seconds := v\<rparr>)),
      (''PARTICLE_NODE_ID'', TextSetting (\<lambda>v c. c\<lparr>node_id := v\<rparr>)),
      (''PARTICLE_PUBLIC_BASE_URL'', TextSetting (\<lambda>v c. c\<lparr>public_base_url := v\<rparr>)),
      (''PARTICLE_PUBLIC_WS_URL'', TextSetting (\<lambda>v c. c\<lparr>public_ws_url := v\<rparr>)),
      (''PARTICLE_PUBLIC_V1_WS_URL'', TextSetting (\<lambda>v c. c\<lparr>public_v1_ws_url := v\<rparr>)),
      (''PARTICLE_PUBLIC_NODE_WS_URL'', TextSetting (\<lambda>v c. c\<lparr>public_node_ws_url := v\<rparr>)),
      (''PARTICLE_ADVERTISE_V2'', BoolSetting (\<lambda>v c. c\<lparr>advertise_v2 := v\<rparr>)),
      (''PARTICLE_NETWORK_ROOT_ID'', TextSetting (\<lambda>v c. c\<lparr>network_root_id := v\<rparr>)),
      (''PARTICLE_NETWORK_ROOT_VERSION'', IntSetting (\<lambda>v c. c\<lparr>network_root_version := v\<rparr>)),
      (''PARTICLE_NETWORK_ROOT_ROLLBACK_VERSION'', IntSetting (\<lambda>v c. c\<lparr>network_root_rollback_version := v\<rparr>)),
      (''PARTICLE_SIGNING_KEY_PEM'', TextSetting (\<lambda>v c. c\<lparr>signing_key_pem := v\<rparr>)),
      (''PARTICLE_SIGNING_KEY_FILE'', TextSetting (\<lambda>v c. c\<lparr>signing_key_file := v\<rparr>)),
      (''PARTICLE_REQUIRE_CONFIGURED_SIGNING_KEY'', BoolSetting (\<lambda>v c. c\<lparr>require_configured_signing_key := v\<rparr>)),
      (''PARTICLE_SIGNING_KEY_ACTIVATES_AT'', IntSetting (\<lambda>v c. c\<lparr>signing_key_activates_at := v\<rparr>)),
      (''PARTICLE_SIGNING_KEY_EXPIRES_AT'', IntSetting (\<lambda>v c. c\<lparr>signing_key_expires_at := v\<rparr>)),
      (''PARTICLE_MANIFEST_TTL_SECONDS'', IntSetting (\<lambda>v c. c\<lparr>manifest_ttl_seconds := v\<rparr>)),
      (''PARTICLE_ADMISSION_TTL_SECONDS'', IntSetting (\<lambda>v c. c\<lparr>admission_ttl_seconds := v\<rparr>)),
      (''PARTICLE_TURN_SERVERS_JSON'', TextSetting (\<lambda>v c. c\<lparr>turn_servers_json := v\<rparr>)),
      (''PARTICLE_TURN_URLS_JSON'', TextSetting (\<lambda>v c. c\<lparr>turn_urls_json := v\<rparr>)),
      (''PARTICLE_TURN_SHARED_SECRET'', TextSetting (\<lambda>v c. c\<lparr>turn_shared_secret := v\<rparr>)),
      (''PARTICLE_TURN_SHARED_SECRETS_JSON'', TextSetting (\<lambda>v c. c\<lparr>turn_shared_secrets_json := v\<rparr>)),
      (''PARTICLE_TURN_USERNAME_PREFIX'', TextSetting (\<lambda>v c. c\<lparr>turn_username_prefix := v\<rparr>)),
      (''PARTICLE_TURN_TTL_SECONDS'', IntSetting (\<lambda>v c. c\<lparr>turn_ttl_seconds := v\<rparr>)),
      (''PARTICLE_METRICS_TOKEN'', TextSetting (\<lambda>v c. c\<lparr>metrics_token := v\<rparr>)),
      (''PARTICLE_ALLOWED_ORIGINS_JSON'', TextSetting (\<lambda>v c. c\<lparr>allowed_origins_json := v\<rparr>)),
      (''PARTICLE_TRUSTED_NODES_JSON'', TextSetting (\<lambda>v c. c\<lparr>trusted_nodes_json := v\<rparr>)),
      (''PARTICLE_NODE_MESH_ENABLED'', BoolSetting (\<lambda>v c. c\<lparr>node_mesh_enabled := v\<rparr>)),
      (''PARTICLE_NODE_MESH_REPLICA_COUNT'', IntSetting (\<lambda>v c. c\<lparr>node_mesh_replica_count := v\<rparr>)),
      (''PARTICLE_NODE_MESH_ACK_TIMEOUT_SECONDS'', FloatSetting (\<lambda>v c. c\<lparr>node_mesh_ack_timeout_seconds := v\<rparr>)),
      (''PARTICLE_NODE_MESH_MEMBERSHIP_EPOCH'', IntSetting (\<lambda>v c. c\<lparr>node_mesh_membership_epoch := v\<rparr>)),
      (''PARTICLE_NODE_MESH_SUSPICION_SECONDS'', FloatSetting (\<lambda>v c. c\<lparr>node_mesh_suspicion_seconds := v\<rparr>)),
      (''PARTICLE_NODE_MESH_MAX_CLOCK_SKEW_SECONDS'', FloatSetting (\<lambda>v c. c\<lparr>node_mesh_max_clock_skew_seconds := v\<rparr>)),
      (''PARTICLE_NODE_MESH_MAX_PENDING_OPERATIONS'', IntSetting (\<lambda>v c. c\<lparr>node_mesh_max_pending_operations := v\<rparr>)),
      (''PARTICLE_NODE_MESH_MAX_ROUTE_DESCRIPTORS'', IntSetting (\<lambda>v c. c\<lparr>node_mesh_max_route_descriptors := v\<rparr>)),
      (''PARTICLE_NODE_MESH_CA_FILE'', TextSetting (\<lambda>v c. c\<lparr>node_mesh_ca_file := v\<rparr>)),
      (''PARTICLE_NODE_MESH_CERT_FILE'', TextSetting (\<lambda>v c. c\<lparr>node_mesh_cert_file := v\<rparr>)),
      (''PARTICLE_NODE_MESH_KEY_FILE'', TextSetting (\<lambda>v c. c\<lparr>node_mesh_key_file := v\<rparr>)),
      (''PARTICLE_NODE_MESH_REQUIRE_MTLS'', BoolSetting (\<lambda>v c. c\<lparr>node_mesh_require_mtls := v\<rparr>)),
      (''PARTICLE_NODE_MESH_CLIENT_VERIFY_HEADER'', TextSetting (\<lambda>v c. c\<lparr>node_mesh_client_verify_header := v\<rparr>)),
      (''PARTICLE_NODE_MESH_CLIENT_VERIFY_VALUE'', TextSetting (\<lambda>v c. c\<lparr>node_mesh_client_verify_value := v\<rparr>)),
      (''PARTICLE_NODE_MESH_PROXY_TOKEN_HEADER'', TextSetting (\<lambda>v c. c\<lparr>node_mesh_proxy_token_header := v\<rparr>)),
      (''PARTICLE_NODE_MESH_PROXY_TOKEN'', TextSetting (\<lambda>v c. c\<lparr>node_mesh_proxy_token := v\<rparr>)),
      (''PARTICLE_RUNTIME_METRICS_INTERVAL_SECONDS'', FloatSetting (\<lambda>v c. c\<lparr>runtime_metrics_interval_seconds := v\<rparr>)),
      (''PARTICLE_READINESS_EVENT_LOOP_P99_SECONDS'', FloatSetting (\<lambda>v c. c\<lparr>readiness_event_loop_p99_seconds := v\<rparr>)),
      (''PARTICLE_READINESS_RSS_BYTES'', IntSetting (\<lambda>v c. c\<lparr>readiness_rss_bytes := v\<rparr>)),
      (''PARTICLE_READINESS_REQUIRE_TURN'', BoolSetting (\<lambda>v c. c\<lparr>readiness_require_turn := v\<rparr>))]"

definition apply_value :: "('v \<Rightarrow> config \<Rightarrow> config) \<Rightarrow> 'v option \<Rightarrow> config \<Rightarrow> config" where
  "apply_value f v c = (case v of None \<Rightarrow> c | Some x \<Rightarrow> f x c)"

fun read_setting :: "env_prims \<Rightarrow> environment \<Rightarrow> string \<times> setting \<Rightarrow> config \<Rightarrow> config result" where
  "read_setting E env (name, IntSetting f) c = rbind (env_int E env name) (\<lambda>v. Inr (apply_value f v c))"
| "read_setting E env (name, FloatSetting f) c = rbind (env_float E env name) (\<lambda>v. Inr (apply_value f v c))"
| "read_setting E env (name, BoolSetting f) c = rbind (env_bool env name) (\<lambda>v. Inr (apply_value f v c))"
| "read_setting E env (name, TextSetting f) c = Inr (apply_value f (env name) c)"

fun read_settings :: "env_prims \<Rightarrow> environment \<Rightarrow> (string \<times> setting) list \<Rightarrow> config \<Rightarrow> config result" where
  "read_settings E env [] c = Inr c"
| "read_settings E env (x # xs) c = rbind (read_setting E env x c) (read_settings E env xs)"

definition load_config :: "env_prims \<Rightarrow> environment \<Rightarrow> config result" where
  "load_config E env =
     rbind (read_settings E env settings default_config) (\<lambda>c. rbind (post_init c) (\<lambda>_. Inr c))"

section \<open>The signing key\<close>

text \<open>
  \<open>read_file\<close> and \<open>load_pem\<close> stand for the file system and the key parser; \<open>is_p256\<close> is the test on
  the kind of key and \<open>fresh\<close> the key that is generated otherwise.
\<close>

definition load_private_key ::
  "(pystr \<Rightarrow> bytes result) \<Rightarrow> (bytes \<Rightarrow> 'key result) \<Rightarrow> ('key \<Rightarrow> bool) \<Rightarrow> 'key \<Rightarrow> config \<Rightarrow> 'key result" where
  "load_private_key read_file load_pem is_p256 fresh c =
     rbind (if signing_key_pem c = [] then Inr []
            else case utf8_encode (signing_key_pem c) of None \<Rightarrow> Inl UnicodeEncodeError | Some b \<Rightarrow> Inr b) (\<lambda>pem0.
     rbind (if pem0 = [] \<and> signing_key_file c \<noteq> [] then read_file (signing_key_file c) else Inr pem0) (\<lambda>pem.
       if pem \<noteq> [] then
         rbind (load_pem pem) (\<lambda>key. if is_p256 key then Inr key else Inl (ValueError ''signing key''))
       else if require_configured_signing_key c then Inl (RuntimeError ''signing key required'')
       else Inr fresh))"

section \<open>Incoming frames\<close>

text \<open>
  What the framework delivers: a disconnect with its code, a text message, or anything else. The
  result is the text, or the code of the disconnect that is raised.
\<close>

datatype ws_event = WsDisconnect int | WsText pystr | WsOther

definition receive_text_frame :: "nat \<Rightarrow> ws_event \<Rightarrow> effect list \<times> (int + pystr)" where
  "receive_text_frame w ev =
     (case ev of
        WsDisconnect code \<Rightarrow> ([], Inl code)
      | WsText t \<Rightarrow> ([], Inr t)
      | WsOther \<Rightarrow> ([CloseSocket w 1003 ''text frames required''], Inl 1003))"

section \<open>Lemmas\<close>

lemma read_empty: "read_settings E (\<lambda>_. None) xs c = Inr c"
proof (induction xs)
  case (Cons x xs)
  obtain name s where "x = (name, s)" by (cases x)
  then have "read_setting E (\<lambda>_. None) x c = Inr c"
    by (cases s) (simp_all add: env_int_def env_float_def env_bool_def apply_value_def)
  then show ?case using Cons by simp
qed simp

lemma read_errors: "read_settings E env xs c = Inl e \<Longrightarrow> \<exists>name \<in> fst ` set xs. e = ValueError name"
proof (induction xs arbitrary: c)
  case (Cons x xs)
  obtain name s where x: "x = (name, s)" by (cases x)
  have "e' = ValueError name" if "read_setting E env x c = Inl e'" for e'
    using that unfolding x
    by (cases s) (auto simp: rbind_eq_Inl env_int_def env_float_def env_bool_def Let_def
        split: option.splits pyfloat.splits if_splits)
  with Cons show ?case by (auto simp: rbind_eq_Inl x)
qed simp

lemma check_all_error: "check_all good xs = Inl e \<Longrightarrow> \<exists>name. e = ValueError name"
  by (induction xs) (auto split: if_splits)

lemma post_init_error: "post_init c = Inl e \<Longrightarrow> \<exists>name. e = ValueError name"
  unfolding post_init_def
  by (auto simp: rbind_eq_Inl raise_if_def split: if_splits dest: check_all_error)

section \<open>Properties\<close>

text \<open>With an empty environment the server starts with the documented defaults; whatever the
  environment, it starts only with a configuration that passed every range check, and otherwise
  names a setting it cannot read or a limit that is not met.\<close>

theorem load_config_checked:
  "load_config E (\<lambda>_. None) = Inr default_config \<and>
   (case load_config E env of
      Inr c \<Rightarrow> post_init c = Inr ()
    | Inl e \<Rightarrow> (\<exists>name. e = ValueError name))"
proof
  show "load_config E (\<lambda>_. None) = Inr default_config" by (simp add: load_config_def read_empty default_post_init)
  show "case load_config E env of Inr c \<Rightarrow> post_init c = Inr () | Inl e \<Rightarrow> (\<exists>name. e = ValueError name)"
    unfolding load_config_def
    by (auto simp: rbind_eq_Inr rbind_eq_Inl split: sum.split dest: read_errors post_init_error)
qed

text \<open>A node that requires a configured key never runs with a generated one: the key it uses was parsed
  from the configured text or file and is a P-256 key.\<close>

theorem configured_key_used:
  assumes "require_configured_signing_key c"
    and "load_private_key read_file load_pem is_p256 fresh c = Inr key"
  shows "is_p256 key \<and> (\<exists>pem. pem \<noteq> [] \<and> load_pem pem = Inr key \<and>
    (utf8_encode (signing_key_pem c) = Some pem \<or> read_file (signing_key_file c) = Inr pem))"
  using assms
  by (auto simp: load_private_key_def rbind_eq_Inr split: if_splits option.splits)

end
