(* ===== verification/Hpke.thy ===== *)
theory Hpke
  imports Prelude
begin

text \<open>
  \<^verbatim>\<open>app/hpke.py\<close>: base-mode HPKE (RFC 9180) with P-256, HKDF-SHA256 and AES-128-GCM, which the
  clients and the release harness use for the bodies of signals. HMAC, the curve and the cipher
  are parameters; the key schedule and the encapsulation are the code's. Shown: HKDF-Expand is
  the expansion of RFC 5869, every key has its length, and a sealed message opens.
\<close>

section \<open>Definitions\<close>

text \<open>
  Code outside the repository. A private key is a number, a public key its encoded point;
  \<open>hp_decrypt\<close> is \<open>None\<close> when the tag does not verify.
\<close>

record hpke_prims =
  hp_hmac :: "bytes \<Rightarrow> bytes \<Rightarrow> bytes"
  hp_public :: "nat \<Rightarrow> bytes"
  hp_on_curve :: "bytes \<Rightarrow> bool"
  hp_exchange :: "nat \<Rightarrow> bytes \<Rightarrow> bytes"
  hp_encrypt :: "bytes \<Rightarrow> bytes \<Rightarrow> bytes \<Rightarrow> bytes \<Rightarrow> bytes"
  hp_decrypt :: "bytes \<Rightarrow> bytes \<Rightarrow> bytes \<Rightarrow> bytes \<Rightarrow> bytes option"

datatype hpke_error = BadByte | BadLength | BadPoint | InvalidTag

definition ascii_bytes :: "string \<Rightarrow> bytes" where
  "ascii_bytes s = map of_char s"

definition to_bytes2 :: "nat \<Rightarrow> bytes" where
  "to_bytes2 n = [word_of_nat (n div 256), word_of_nat (n mod 256)]"

definition KEM_SUITE_ID :: bytes where
  "KEM_SUITE_ID = ascii_bytes ''KEM'' @ to_bytes2 0x10"

definition HPKE_SUITE_ID :: bytes where
  "HPKE_SUITE_ID = ascii_bytes ''HPKE'' @ to_bytes2 0x10 @ to_bytes2 1 @ to_bytes2 1"

definition hkdf_extract :: "hpke_prims \<Rightarrow> bytes \<Rightarrow> bytes \<Rightarrow> bytes" where
  "hkdf_extract H salt ikm = hp_hmac H (if salt = [] then replicate 32 0 else salt) ikm"

text \<open>The loop of \<^verbatim>\<open>_expand\<close>; \<^verbatim>\<open>bytes([counter])\<close> raises beyond 255.\<close>

fun expand_loop :: "hpke_prims \<Rightarrow> bytes \<Rightarrow> bytes \<Rightarrow> bytes \<Rightarrow> bytes \<Rightarrow> nat list \<Rightarrow> hpke_error + bytes" where
  "expand_loop H prk info previous acc [] = Inr acc"
| "expand_loop H prk info previous acc (counter # counters) =
     (if counter > 255 then Inl BadByte
      else let p = hp_hmac H prk (previous @ info @ [word_of_nat counter])
           in expand_loop H prk info p (acc @ p) counters)"

definition hkdf_expand :: "hpke_prims \<Rightarrow> bytes \<Rightarrow> bytes \<Rightarrow> nat \<Rightarrow> hpke_error + bytes" where
  "hkdf_expand H prk info len =
     (case expand_loop H prk info [] [] [1..<(len + 31) div 32 + 1] of Inl e \<Rightarrow> Inl e | Inr out \<Rightarrow> Inr (take len out))"

definition labeled_extract :: "hpke_prims \<Rightarrow> bytes \<Rightarrow> bytes \<Rightarrow> string \<Rightarrow> bytes \<Rightarrow> bytes" where
  "labeled_extract H salt suite_id label ikm =
     hkdf_extract H salt (ascii_bytes ''HPKE-v1'' @ suite_id @ ascii_bytes label @ ikm)"

definition labeled_expand :: "hpke_prims \<Rightarrow> bytes \<Rightarrow> bytes \<Rightarrow> string \<Rightarrow> bytes \<Rightarrow> nat \<Rightarrow> hpke_error + bytes" where
  "labeled_expand H prk suite_id label info len =
     (if len \<ge> 65536 then Inl BadLength
      else hkdf_expand H prk (to_bytes2 len @ ascii_bytes ''HPKE-v1'' @ suite_id @ ascii_bytes label @ info) len)"

definition deserialize_public :: "hpke_prims \<Rightarrow> bytes \<Rightarrow> hpke_error + bytes" where
  "deserialize_public H raw =
     (if length raw \<noteq> 65 \<or> raw ! 0 \<noteq> 4 \<or> \<not> hp_on_curve H raw then Inl BadPoint else Inr raw)"

definition dhkem_shared_secret :: "hpke_prims \<Rightarrow> bytes \<Rightarrow> bytes \<Rightarrow> bytes \<Rightarrow> hpke_error + bytes" where
  "dhkem_shared_secret H dh enc recipient_public_raw =
     labeled_expand H (labeled_extract H [] KEM_SUITE_ID ''eae_prk'' dh) KEM_SUITE_ID ''shared_secret''
       (enc @ recipient_public_raw) 32"

definition key_schedule :: "hpke_prims \<Rightarrow> bytes \<Rightarrow> bytes \<Rightarrow> hpke_error + bytes \<times> bytes" where
  "key_schedule H shared_secret info =
     (let psk_id_hash = labeled_extract H [] HPKE_SUITE_ID ''psk_id_hash'' [];
          info_hash = labeled_extract H [] HPKE_SUITE_ID ''info_hash'' info;
          context = 0 # psk_id_hash @ info_hash;
          secret = labeled_extract H shared_secret HPKE_SUITE_ID ''secret'' []
      in case labeled_expand H secret HPKE_SUITE_ID ''key'' context 16 of
           Inl e \<Rightarrow> Inl e
         | Inr key \<Rightarrow>
             (case labeled_expand H secret HPKE_SUITE_ID ''base_nonce'' context 12 of
                Inl e \<Rightarrow> Inl e
              | Inr base_nonce \<Rightarrow> Inr (key, base_nonce)))"

text \<open>What \<^verbatim>\<open>seal\<close> and \<^verbatim>\<open>open_message\<close> share: the key and nonce of an exchange.\<close>

definition exchange_keys :: "hpke_prims \<Rightarrow> bytes \<Rightarrow> bytes \<Rightarrow> bytes \<Rightarrow> bytes \<Rightarrow> hpke_error + bytes \<times> bytes" where
  "exchange_keys H dh enc recipient_public_raw info =
     (case dhkem_shared_secret H dh enc recipient_public_raw of
        Inl e \<Rightarrow> Inl e
      | Inr shared_secret \<Rightarrow> key_schedule H shared_secret info)"

definition seal :: "hpke_prims \<Rightarrow> nat \<Rightarrow> bytes \<Rightarrow> bytes \<Rightarrow> bytes \<Rightarrow> bytes \<Rightarrow> hpke_error + bytes \<times> bytes" where
  "seal H ephemeral recipient_public_raw plaintext info aad =
     (case deserialize_public H recipient_public_raw of
        Inl e \<Rightarrow> Inl e
      | Inr recipient_public \<Rightarrow>
          let enc = hp_public H ephemeral; dh = hp_exchange H ephemeral recipient_public
          in case exchange_keys H dh enc recipient_public_raw info of
               Inl e \<Rightarrow> Inl e
             | Inr (key, nonce) \<Rightarrow> Inr (enc, hp_encrypt H key nonce plaintext aad))"

definition open_message :: "hpke_prims \<Rightarrow> nat \<Rightarrow> bytes \<Rightarrow> bytes \<Rightarrow> bytes \<Rightarrow> bytes \<Rightarrow> hpke_error + bytes" where
  "open_message H recipient_private_key enc ciphertext info aad =
     (case deserialize_public H enc of
        Inl e \<Rightarrow> Inl e
      | Inr ephemeral_public \<Rightarrow>
          let recipient_public_raw = hp_public H recipient_private_key;
              dh = hp_exchange H recipient_private_key ephemeral_public
          in case exchange_keys H dh enc recipient_public_raw info of
               Inl e \<Rightarrow> Inl e
             | Inr (key, nonce) \<Rightarrow>
                 (case hp_decrypt H key nonce ciphertext aad of None \<Rightarrow> Inl InvalidTag | Some p \<Rightarrow> Inr p))"

section \<open>HKDF-Expand\<close>

text \<open>The blocks \<open>T(i)\<close> of RFC 5869.\<close>

fun hkdf_block :: "hpke_prims \<Rightarrow> bytes \<Rightarrow> bytes \<Rightarrow> nat \<Rightarrow> bytes" where
  "hkdf_block H prk info 0 = []"
| "hkdf_block H prk info (Suc i) = hp_hmac H prk (hkdf_block H prk info i @ info @ [word_of_nat (Suc i)])"

lemma expand_loop_blocks:
  "i + n \<le> 255 \<Longrightarrow> expand_loop H prk info (hkdf_block H prk info i) acc [Suc i..<Suc (i + n)] =
     Inr (acc @ concat (map (hkdf_block H prk info) [Suc i..<Suc (i + n)]))"
proof (induction n arbitrary: i acc)
  case (Suc n)
  have "[Suc i..<Suc (i + Suc n)] = Suc i # [Suc (Suc i)..<Suc (Suc i + n)]"
    by (simp add: upt_conv_Cons)
  then show ?case
    using Suc.IH [of "Suc i" "acc @ hkdf_block H prk info (Suc i)"] Suc.prems by (simp add: Let_def)
qed simp

lemma expand_loop_fails:
  "i \<le> 255 \<Longrightarrow> 255 < i + n \<Longrightarrow> expand_loop H prk info p acc [Suc i..<Suc (i + n)] = Inl BadByte"
proof (induction n arbitrary: i p acc)
  case (Suc n)
  have "[Suc i..<Suc (i + Suc n)] = Suc i # [Suc (Suc i)..<Suc (Suc i + n)]"
    by (simp add: upt_conv_Cons)
  then show ?case using Suc.IH [of "Suc i"] Suc.prems by (cases "i = 255") (simp_all add: Let_def)
qed simp

lemma hkdf_expand_eq:
  "hkdf_expand H prk info len =
     (if len \<le> 255 * 32 then Inr (take len (concat (map (hkdf_block H prk info) [1..<(len + 31) div 32 + 1])))
      else Inl BadByte)"
proof (cases "len \<le> 255 * 32")
  case True
  then have "(len + 31) div 32 \<le> 255" by simp
  then show ?thesis
    using True expand_loop_blocks [of 0 "(len + 31) div 32" H prk info "[]"] by (simp add: hkdf_expand_def)
next
  case False
  then have "255 < (len + 31) div 32" by simp
  then show ?thesis
    using False expand_loop_fails [of 0 "(len + 31) div 32" H prk info "[]" "[]"] by (simp add: hkdf_expand_def)
qed

section \<open>Properties\<close>

text \<open>The documented behaviour of the parameters.\<close>

definition hpke_laws :: "hpke_prims \<Rightarrow> bool" where
  "hpke_laws H \<longleftrightarrow> (\<forall>k m. length (hp_hmac H k m) = 32) \<and>
     (\<forall>a. length (hp_public H a) = 65 \<and> hp_public H a ! 0 = 4 \<and> hp_on_curve H (hp_public H a)) \<and>
     (\<forall>a b. hp_exchange H a (hp_public H b) = hp_exchange H b (hp_public H a)) \<and>
     (\<forall>k n p a. hp_decrypt H k n (hp_encrypt H k n p a) a = Some p)"

lemma length_blocks:
  assumes "hpke_laws H"
  shows "length (concat (map (hkdf_block H prk info) [1..<n + 1])) = 32 * n"
proof (induction n)
  case (Suc n)
  have "length (hkdf_block H prk info (Suc n)) = 32" using assms by (simp add: hpke_laws_def)
  then show ?case using Suc by (simp del: hkdf_block.simps)
qed simp

lemma labeled_expand_length:
  assumes "hpke_laws H" "len \<le> 255 * 32"
  shows "\<exists>k. labeled_expand H prk suite label info len = Inr k \<and> length k = len"
proof -
  have "length (take len (concat (map (hkdf_block H prk i) [1..<(len + 31) div 32 + 1]))) = len" for i
    unfolding length_take length_blocks [OF assms(1)] by simp
  then show ?thesis using assms(2) by (simp add: labeled_expand_def hkdf_expand_eq del: length_take upt_Suc)
qed

lemma exchange_keys_length:
  assumes "hpke_laws H"
  shows "\<exists>key nonce. exchange_keys H dh enc pk info = Inr (key, nonce) \<and> length key = 16 \<and> length nonce = 12"
proof -
  obtain s where s: "dhkem_shared_secret H dh enc pk = Inr s"
    using labeled_expand_length [OF assms, of 32] unfolding dhkem_shared_secret_def by fastforce
  have "\<exists>k. labeled_expand H prk suite label i 16 = Inr k \<and> length k = 16"
    "\<exists>k. labeled_expand H prk suite label i 12 = Inr k \<and> length k = 12" for prk suite label i
    using labeled_expand_length [OF assms] by simp_all
  then show ?thesis
    unfolding exchange_keys_def s key_schedule_def Let_def by (metis (no_types, lifting) sum.simps(6))
qed

text \<open>C35: HKDF-Expand is the expansion of RFC 5869, a prefix of the concatenated blocks, up to 255 blocks,
  and raises beyond.\<close>

theorem hkdf_expand_rfc:
  "hkdf_expand H prk info len =
     (if len \<le> 255 * 32 then Inr (take len (concat (map (hkdf_block H prk info) [1..<(len + 31) div 32 + 1])))
      else Inl BadByte)"
  by (rule hkdf_expand_eq)

text \<open>C34: A message sealed to a public key is opened by its private key, with the same info and
  associated data, for every ephemeral key: \<^verbatim>\<open>seal\<close> never fails and \<^verbatim>\<open>open_message\<close> gives the
  plain text back.\<close>

theorem hpke_roundtrip:
  assumes "hpke_laws H"
  shows "\<exists>enc ciphertext. seal H e (hp_public H r) plaintext info aad = Inr (enc, ciphertext) \<and>
    open_message H r enc ciphertext info aad = Inr plaintext"
proof -
  have laws: "deserialize_public H (hp_public H a) = Inr (hp_public H a)"
    "hp_decrypt H k n (hp_encrypt H k n p ad) ad = Some p" for a k n p ad
    using assms by (simp_all add: hpke_laws_def deserialize_public_def)
  have dh: "hp_exchange H e (hp_public H r) = hp_exchange H r (hp_public H e)"
    using assms unfolding hpke_laws_def by blast
  obtain key nonce where "exchange_keys H (hp_exchange H r (hp_public H e)) (hp_public H e) (hp_public H r) info = Inr (key, nonce)"
    using exchange_keys_length [OF assms] by blast
  then show ?thesis by (simp add: seal_def open_message_def laws dh Let_def)
qed

definition ex_hpke :: hpke_prims where
  "ex_hpke = \<lparr>hp_hmac = (\<lambda>k m. replicate 32 (fold (+) (k @ m) 0)), hp_public = (\<lambda>a. 4 # word_of_nat a # replicate 63 0),
     hp_on_curve = (\<lambda>b. True), hp_exchange = (\<lambda>a b. [word_of_nat a * b ! 1]),
     hp_encrypt = (\<lambda>k n p a. k @ a @ p), hp_decrypt = (\<lambda>k n ct a. if take (length k) ct = k then Some (drop (length k + length a) ct) else None)\<rparr>"

theorem hpke_roundtrip_witness:
  "\<exists>enc ciphertext. seal ex_hpke 5 (hp_public ex_hpke 7) [1, 2, 3] (ascii_bytes ''particle-signal/2'') [] = Inr (enc, ciphertext) \<and>
    open_message ex_hpke 7 enc ciphertext (ascii_bytes ''particle-signal/2'') [] = Inr [1, 2, 3]"
proof -
  have "hpke_laws ex_hpke" by (simp add: hpke_laws_def ex_hpke_def mult.commute)
  then show ?thesis by (rule hpke_roundtrip)
qed

end
