(* ===== verification/Mesh_Knowledge.thy ===== *)
theory Mesh_Knowledge
  imports Mesh_Properties Server
begin

text \<open>
  Where the descriptors a node holds come from. \<open>known\<close> are the descriptors in the registry, the cache
  and the answered queries of a mesh, \<open>carried\<close> those a message brings. No operation of
  \<^verbatim>\<open>app/node_mesh.py\<close> makes a descriptor up: each keeps within any set that has what the node knew,
  what arrived and what it registers for its own sessions.
\<close>

section \<open>Definitions\<close>

definition registry_descs :: "mesh \<Rightarrow> descriptor set" where
  "registry_descs m = (\<Union>(tag, route) \<in> set (route_registry m). snd ` set route)"

definition pending_descs :: "mesh \<Rightarrow> descriptor set" where
  "pending_descs m = (\<Union>(q, r) \<in> set (pending_queries m). case r of None \<Rightarrow> {} | Some ds \<Rightarrow> set ds)"

definition known :: "mesh \<Rightarrow> descriptor set" where
  "known m = registry_descs m \<union> set (dvalues (descriptor_cache m)) \<union> pending_descs m"

definition carried :: "pystr \<Rightarrow> (pystr \<times> json) list \<Rightarrow> descriptor set" where
  "carried t payload =
     (if t = u ''ROUTE_REGISTER'' then {dict_of (jget payload ''descriptor'')}
      else if t = u ''ROUTE_RESULT'' then
        (case jget payload ''descriptors'' of JList ds \<Rightarrow> dict_of ` set ds | _ \<Rightarrow> {})
      else {})"

definition sends_within :: "descriptor set \<Rightarrow> mesh_send list \<Rightarrow> bool" where
  "sends_within K out = list_all (\<lambda>x. case x of MeshSend w t payload \<Rightarrow> carried (u t) payload \<subseteq> K) out"

section \<open>Dictionaries\<close>

lemma set_dset: "set (dset d k v) \<subseteq> insert (k, v) (set d)"
  by (induction d) auto

lemma set_dpop: "set (dpop d k) \<subseteq> set d"
  by (auto simp: AList.delete_eq)

lemma set_fold_dpop: "set (fold (\<lambda>k d. dpop d k) ks d) \<subseteq> set d"
proof (induction ks arbitrary: d)
  case (Cons k ks)
  then show ?case using set_dpop [of k d] by (metis fold_simps(2) subset_trans)
qed simp

lemma set_default: "x \<in> set (dget_default [] d k) \<Longrightarrow> \<exists>v. (k, v) \<in> set d \<and> x \<in> set v"
  by (cases "dget d k") (auto simp: dget_default_def dest: map_of_SomeD)

section \<open>The mesh\<close>

lemma known_cong:
  "route_registry m' = route_registry m \<Longrightarrow> descriptor_cache m' = descriptor_cache m \<Longrightarrow>
     pending_queries m' = pending_queries m \<Longrightarrow> known m' = known m"
  by (simp add: known_def registry_descs_def pending_descs_def)

lemma knownI:
  assumes "set (route_registry m') \<subseteq> set (route_registry m)" "set (descriptor_cache m') \<subseteq> set (descriptor_cache m)"
    and "set (pending_queries m') \<subseteq> set (pending_queries m)"
  shows "known m' \<subseteq> known m"
proof -
  have "registry_descs m' \<subseteq> registry_descs m" "pending_descs m' \<subseteq> pending_descs m"
    unfolding registry_descs_def pending_descs_def by (rule UN_mono; use assms in simp)+
  moreover have "set (dvalues (descriptor_cache m')) \<subseteq> set (dvalues (descriptor_cache m))" using assms(2) by (simp add: image_mono)
  ultimately show ?thesis unfolding known_def by blast
qed

lemma known_registry: "(key, d) \<in> set (dget_default [] (route_registry m) tag) \<Longrightarrow> d \<in> known m"
  by (force simp: known_def registry_descs_def dest!: set_default)

lemma known_cache: "dget (descriptor_cache m) sid = Some d \<Longrightarrow> d \<in> known m"
  by (force simp: known_def dest: map_of_SomeD)

lemma known_put:
  assumes "known m \<subseteq> K" "\<And>key d. (key, d) \<in> set route \<Longrightarrow> d \<in> K"
    and "set (route_registry m') \<subseteq> insert (tag, route) (set (route_registry m))"
    and "descriptor_cache m' = descriptor_cache m" "pending_queries m' = pending_queries m"
  shows "known m' \<subseteq> K"
proof -
  have "registry_descs m' \<subseteq> (\<Union>(tag, route) \<in> insert (tag, route) (set (route_registry m)). snd ` set route)"
    unfolding registry_descs_def by (rule UN_mono [OF assms(3)]) simp
  also have "\<dots> = snd ` set route \<union> registry_descs m" by (simp add: registry_descs_def)
  also have "\<dots> \<subseteq> K" using assms(1,2) by (auto simp: known_def)
  finally show ?thesis using assms(1,4,5) by (simp add: known_def pending_descs_def)
qed

lemma known_filter: "known (filter_routes keep m) \<subseteq> known m"
proof -
  have "registry_descs (filter_routes keep m) \<subseteq> registry_descs m"
  proof -
    have "\<exists>route. (tag, route) \<in> set (route_registry m) \<and> set r \<subseteq> set route"
      if "(tag, r) \<in> set (route_registry (filter_routes keep m))" for tag r
      using that by (auto simp: filter_routes_def Let_def)
    then show ?thesis unfolding registry_descs_def by blast
  qed
  moreover have "descriptor_cache (filter_routes keep m) = descriptor_cache m" "pending_descs (filter_routes keep m) = pending_descs m"
    by (simp_all add: filter_routes_def pending_descs_def Let_def)
  ultimately show ?thesis unfolding known_def by auto
qed

lemma known_prune: "known (mesh_prune_routes time m) \<subseteq> known m"
proof -
  have "known (m\<lparr>descriptor_cache := fold (\<lambda>k d. dpop d k) gone (descriptor_cache m),
      session_nodes := fold (\<lambda>k d. dpop d k) gone (session_nodes m)\<rparr>) \<subseteq> known m" for gone
    by (rule knownI) (simp_all add: set_fold_dpop)
  then show ?thesis unfolding mesh_prune_routes_def Let_def using known_filter by blast
qed

lemma known_apply:
  assumes "known m \<subseteq> K" "t = ''ROUTE_REMOVE'' \<or> d \<in> K"
  shows "known (fst (apply_route_message c time t tag d m h)) \<subseteq> K"
proof -
  let ?route = "dget_default [] (route_registry m) tag"
  have old: "(key, e) \<in> set ?route \<Longrightarrow> e \<in> K" for key e using known_registry assms(1) by blast
  have pop: "set (dpop reg tag') \<subseteq> set reg" for reg :: "(pystr, (pystr \<times> pystr, descriptor) dict) dict" and tag'
    by (rule set_dpop)
  have "known (m\<lparr>route_registry := put_route tag r (route_registry m), route_descriptor_count := n\<rparr>) \<subseteq> K"
    if r: "set r \<subseteq> set ?route" for r n
    by (rule known_put [OF assms(1), of r _ tag])
      (use old r set_dset [of tag _ "route_registry m"] pop [of tag "route_registry m"] in \<open>auto simp: put_route_def\<close>)
  note removed = this
  have added: "known (m\<lparr>route_registry := dset (route_registry m) tag (dset ?route key d), route_descriptor_count := n,
      session_nodes := x\<rparr>) \<subseteq> K" if "d \<in> K" for key n x
    by (rule known_put [OF assms(1), of "dset ?route key d" _ tag])
      (use old that set_dset [of key d ?route] set_dset [of tag _ "route_registry m"] in auto)
  have emptied: "known (m\<lparr>route_registry := if b then dpop (route_registry m) tag else route_registry m\<rparr>) \<subseteq> K" for b
    using knownI [of "m\<lparr>route_registry := if b then dpop (route_registry m) tag else route_registry m\<rparr>" m] pop [of tag "route_registry m"] assms(1)
    by (cases b) auto
  show ?thesis
  proof (cases "\<exists>sid nid. jget d ''sessionId'' = JStr sid \<and> jget d ''nodeId'' = JStr nid")
    case True
    then obtain sid nid where id: "jget d ''sessionId'' = JStr sid" "jget d ''nodeId'' = JStr nid" by blast
    show ?thesis
    proof (cases "t = ''ROUTE_REMOVE''")
      case True
      then show ?thesis
        using removed [OF set_dpop] removed [OF subset_refl, of "route_descriptor_count m"] assms(1)
        by (simp add: apply_route_message_def Let_def id split: option.split)
    next
      case False
      then have "d \<in> K" using assms(2) by simp
      note f = added [OF this] emptied assms(1)
      show ?thesis using False f unfolding apply_route_message_def id Let_def by simp
    qed
  next
    case False
    then show ?thesis using assms(1) unfolding apply_route_message_def by (cases "jget d ''sessionId''"; cases "jget d ''nodeId''") simp_all
  qed
qed

lemma known_cache_descriptor:
  assumes "known m \<subseteq> K" "d \<in> K" "cache_descriptor c time d m h = (ok, m', h')"
  shows "known m' \<subseteq> K"
proof -
  have "known (m\<lparr>session_nodes := x, descriptor_cache := dset (descriptor_cache m) sid d\<rparr>) \<subseteq> K" for x sid
  proof -
    have "snd ` set (dset (descriptor_cache m) sid d) \<subseteq> snd ` insert (sid, d) (set (descriptor_cache m))"
      by (rule image_mono [OF set_dset])
    also have "\<dots> \<subseteq> K" using assms(1,2) by (auto simp: known_def)
    finally show ?thesis using assms(1) by (simp add: known_def registry_descs_def pending_descs_def)
  qed
  then show ?thesis
    using assms by (auto simp: cache_descriptor_def split: json.splits if_splits)
qed

section \<open>Replication and discovery\<close>

lemma sends_within_simps [simp]:
  "sends_within K []" "sends_within K (MeshSend w t p # out) \<longleftrightarrow> carried (u t) p \<subseteq> K \<and> sends_within K out"
  "sends_within K (out @ out') \<longleftrightarrow> sends_within K out \<and> sends_within K out'"
  by (simp_all add: sends_within_def)

lemma carried_none [simp]: "t \<noteq> ''ROUTE_REGISTER'' \<Longrightarrow> t \<noteq> ''ROUTE_RESULT'' \<Longrightarrow> carried (u t) p = {}"
  by (simp add: carried_def)

lemma carried_register [simp]: "carried (u ''ROUTE_REGISTER'') [(u ''routeTag'', v), (u ''descriptor'', JDict d)] = {d}"
  by (simp add: carried_def jget_def dict_of_def)

lemma known_replicate:
  assumes "known m \<subseteq> K" "t = ''ROUTE_REMOVE'' \<or> t = ''ROUTE_REGISTER'' \<and> d \<in> K"
    and "replicate_to c time t tag d owners m h = (m', h', out)"
  shows "known m' \<subseteq> K \<and> sends_within K out"
  using assms
proof (induction c time t tag d owners m h arbitrary: m' h' out rule: replicate_to.induct)
  case (2 c time t tag d owner owners m h)
  show ?case
  proof (cases "owner = node_id c")
    case True
    obtain m1 h1 where a: "apply_route_message c time t tag d m h = (m1, h1)" by fastforce
    have "known m1 \<subseteq> K" using known_apply [OF 2(3), of t d c time tag h] 2(4) a by auto
    then show ?thesis using 2(1) [OF True a [symmetric]] 2(4,5) True a by simp
  next
    case False
    obtain m1 h1 out1 where r: "replicate_to c time t tag d owners m h = (m1, h1, out1)" by (cases "replicate_to c time t tag d owners m h") auto
    then have "known m1 \<subseteq> K \<and> sends_within K out1" using 2(2) [OF False 2(3,4)] by simp
    then show ?thesis using 2(4,5) False r by (auto split: option.splits)
  qed
qed simp

definition local_descriptor :: "config \<Rightarrow> hub \<Rightarrow> descriptor \<Rightarrow> bool" where
  "local_descriptor c h d \<longleftrightarrow>
     (\<exists>sid d0 e. peer_descriptor sid h = Some d0 \<and> d = d0 @ [(u ''nodeId'', JStr (node_id c)), (u ''expiresAt'', JInt e)])"

lemma known_register:
  assumes "known m \<subseteq> K" "Collect (local_descriptor c h) \<subseteq> K" "register_local_route sha c time tag sid m h = Inr (m', h', out)"
  shows "known m' \<subseteq> K \<and> sends_within K out"
proof (cases "peer_descriptor sid h")
  case None
  then show ?thesis using assms by (simp add: register_local_route_def)
next
  case (Some d0)
  let ?d = "d0 @ [(u ''nodeId'', JStr (node_id c)), (u ''expiresAt'', JInt \<lfloor>time + route_lease_seconds c\<rfloor>)]"
  have "local_descriptor c h ?d" using Some unfolding local_descriptor_def by blast
  then have "?d \<in> K" using assms(2) by blast
  moreover obtain owners where "replicate_to c time ''ROUTE_REGISTER'' tag ?d owners m h = (m', h', out)"
    using assms(3) Some by (auto simp: register_local_route_def mesh_replicate_def rbind_eq_Inr)
  ultimately show ?thesis using known_replicate [OF assms(1)] by blast
qed

lemma known_remove:
  assumes "known m \<subseteq> K" "remove_local_route sha c time tag sid m h = Inr (m', h', out)"
  shows "known m' \<subseteq> K \<and> sends_within K out"
proof -
  obtain owners where "replicate_to c time ''ROUTE_REMOVE'' tag [(u ''sessionId'', JStr sid), (u ''nodeId'', JStr (node_id c))] owners m h = (m', h', out)"
    using assms(2) by (auto simp: remove_local_route_def mesh_replicate_def rbind_eq_Inr)
  from known_replicate [OF assms(1) _ this] show ?thesis by simp
qed

lemma known_collect:
  assumes "set (dvalues acc) \<union> known m \<union> set ds \<subseteq> K" "collect c time ds (acc, m, h) = (acc', m', h')"
  shows "set (dvalues acc') \<union> known m' \<subseteq> K"
  using assms
proof (induction ds arbitrary: acc m h)
  case (Cons d ds)
  obtain ok m1 h1 where d: "cache_descriptor c time d m h = (ok, m1, h1)" by (cases "cache_descriptor c time d m h") auto
  let ?acc = "if ok then dset acc (jstr (jget d ''sessionId'')) d else acc"
  have "known m1 \<subseteq> K" using known_cache_descriptor [OF _ _ d] Cons.prems(1) by auto
  moreover have "set (dvalues ?acc) \<subseteq> K"
    using Cons.prems(1) image_mono [OF set_dset, of snd "jstr (jget d ''sessionId'')" d acc] by auto
  moreover have "collect c time ds (?acc, m1, h1) = (acc', m', h')" using Cons.prems(2) d by (simp add: collect_def)
  ultimately show ?case using Cons.IH [of ?acc m1 h1] Cons.prems(1) by simp
qed (simp add: collect_def)

lemma known_discover_begin:
  assumes "known m \<subseteq> K" "discover_begin sha c time tag m h = Inr (acc, asked, m', h')"
  shows "set (dvalues acc) \<union> known m' \<subseteq> K"
proof -
  let ?m = "mesh_prune_routes time m"
  have m1: "known ?m \<subseteq> K" using known_prune assms(1) by blast
  moreover have "set (dvalues (dget_default [] (route_registry ?m) tag)) \<subseteq> K"
    using m1 known_registry by auto
  moreover obtain h2 where c: "collect c time (dvalues (dget_default [] (route_registry ?m) tag)) ([], ?m, h) = (acc, m', h2)"
    using assms(2) by (auto simp: discover_begin_def Let_def rbind_eq_Inr split: prod.splits)
  ultimately show ?thesis by (intro known_collect [OF _ c]) simp
qed

lemma known_discover_end:
  assumes "set (dvalues acc) \<union> known m \<union> set (concat results) \<subseteq> K" "discover_end c time acc results m h = (found, m', h')"
  shows "set found \<union> known m' \<subseteq> K"
proof -
  obtain acc' where "collect c time (concat results) (acc, m, h) = (acc', m', h')" "found = dvalues acc'"
    using assms(2) by (auto simp: discover_end_def split: prod.splits)
  from known_collect [OF assms(1) this(1)] this(2) show ?thesis by simp
qed

lemma known_query_owner:
  assumes "query_owner c w q tag m h = (ok, m', h', out)"
  shows "known m' \<subseteq> known m \<and> sends_within K out"
proof -
  have "pending_descs (m\<lparr>pending_queries := dset (pending_queries m) q None\<rparr>) \<subseteq> pending_descs m"
  proof -
    have "pending_descs (m\<lparr>pending_queries := dset (pending_queries m) q None\<rparr>) \<subseteq>
        (\<Union>(q, r) \<in> insert (q, None) (set (pending_queries m)). case r of None \<Rightarrow> {} | Some ds \<Rightarrow> set ds)"
      unfolding pending_descs_def by (rule UN_mono) (simp_all add: set_dset)
    then show ?thesis by (simp add: pending_descs_def)
  qed
  then show ?thesis using assms by (auto simp: query_owner_def known_def registry_descs_def split: if_splits)
qed

lemma known_query_done:
  assumes "known m \<subseteq> K" "query_done sent q m = (ds, m')"
  shows "set ds \<union> known m' \<subseteq> K"
proof -
  have "known (m\<lparr>pending_queries := dpop (pending_queries m) q\<rparr>) \<subseteq> known m" by (rule knownI) (simp_all add: set_dpop)
  moreover have "dget (pending_queries m) q = Some (Some ds') \<Longrightarrow> set ds' \<subseteq> known m" for ds'
    by (force simp: known_def pending_descs_def dest: map_of_SomeD)
  ultimately show ?thesis using assms by (auto simp: query_done_def split: option.splits if_splits)
qed

lemma known_remote:
  assumes "remote_descriptor time target m = (r, m')"
  shows "known m' \<subseteq> known m \<and> set_option r \<subseteq> known m"
proof -
  have "d \<in> known m" if f: "List.find P (concat (map (dvalues \<circ> snd) (route_registry m))) = Some d" for P d
  proof -
    have "d \<in> set (concat (map (dvalues \<circ> snd) (route_registry m)))" using f by (metis find_Some_iff nth_mem)
    then show ?thesis by (force simp: known_def registry_descs_def)
  qed
  moreover have "known (m\<lparr>descriptor_cache := dpop (descriptor_cache m) target, session_nodes := x\<rparr>) \<subseteq> known m" for x
    by (rule knownI) (simp_all add: set_dpop)
  ultimately show ?thesis
    using assms known_cache [of m target]
    by (auto simp: remote_descriptor_def Let_def split: option.splits if_splits)
qed

section \<open>Messages\<close>

definition data_carries :: "json \<Rightarrow> descriptor set" where
  "data_carries data = carried (jstr (jget (dict_of data) ''type'')) (payload_of (dict_of data))"

lemma known_reconcile: "known (fst (reconcile_membership c now m h)) = known m"
  by (rule known_cong) (simp_all add: reconcile_membership_def Let_def case_prod_unfold)

lemma known_node_state: "known (fst (handle_node_state c time now nid payload m h)) = known m"
proof -
  have "known (m\<lparr>peer_views := x\<rparr>) = known m" for x by (rule known_cong) simp_all
  then show ?thesis by (simp add: handle_node_state_def Let_def known_reconcile)
qed

definition outcome_within :: "descriptor set \<Rightarrow> link_outcome \<Rightarrow> bool" where
  "outcome_within K r = (case r of (m, h, out, effs, e) \<Rightarrow> known m \<subseteq> K \<and> sends_within K out)"

lemma outcome_if:
  "(b \<Longrightarrow> outcome_within K x) \<Longrightarrow> (\<not> b \<Longrightarrow> outcome_within K y) \<Longrightarrow> outcome_within K (if b then x else y)"
  by simp

lemma outcome_try:
  "known m \<subseteq> K \<Longrightarrow> (\<And>x. r = Inr x \<Longrightarrow> outcome_within K (f x)) \<Longrightarrow> outcome_within K (mesh_try r m h f)"
  by (cases r) (simp_all add: mesh_try_def outcome_within_def)

lemma known_route_update:
  assumes "known m \<subseteq> K" "t = ''ROUTE_REMOVE'' \<or> dict_of (jget payload ''descriptor'') \<in> K"
  shows "outcome_within K (handle_route_update sha c time nid t payload m h)"
proof -
  have same: "outcome_within K (m, h, [], [], None)" using assms(1) by (simp add: outcome_within_def)
  have "outcome_within K (case apply_route_message c time t tag (dict_of (jget payload ''descriptor'')) m h of (m1, h1) \<Rightarrow> (m1, h1, [], [], None))" for tag
    using known_apply [OF assms, of c time tag h] by (simp add: outcome_within_def case_prod_unfold)
  then show ?thesis
    unfolding handle_route_update_def Let_def by (intro outcome_if outcome_try same assms(1))
qed

lemma known_route_query:
  assumes "known m \<subseteq> K"
  shows "outcome_within K (handle_route_query c time w payload m h)"
proof -
  let ?m = "mesh_prune_routes time m" and ?tag = "jstr (jget payload ''routeTag'')"
  let ?ds = "take (nat (max_fanout c)) (dvalues (dget_default [] (route_registry ?m) ?tag))"
  have m1: "known ?m \<subseteq> K" using known_prune assms by blast
  have "d \<in> K" if "d \<in> set (dvalues (dget_default [] (route_registry ?m) ?tag))" for d
    using that m1 known_registry [of _ d ?m ?tag] by auto
  then have "set ?ds \<subseteq> K" by (rule subsetI) (erule in_set_takeD)
  then have "outcome_within K (?m, h, [MeshSend w ''ROUTE_RESULT'' [(u ''queryId'', q), (u ''descriptors'', JList (map JDict ?ds))]], [], None)" for q
    using m1 by (simp add: outcome_within_def carried_def jget_def image_image dict_of_def)
  moreover have "outcome_within K (m, h, [], [], None)" using assms by (simp add: outcome_within_def)
  ultimately show ?thesis unfolding handle_route_query_def Let_def by (simp split: json.split)
qed

lemma known_settle:
  assumes "known m \<subseteq> K" "set ds \<subseteq> K" "settle q ds (pending_queries m) = Inr pq"
  shows "known (m\<lparr>pending_queries := pq\<rparr>) \<subseteq> K"
proof -
  have pending: "pending_descs (m\<lparr>pending_queries := dset (pending_queries m) x (Some ds)\<rparr>) \<subseteq> set ds \<union> pending_descs m" for x
  proof -
    have "pending_descs (m\<lparr>pending_queries := dset (pending_queries m) x (Some ds)\<rparr>) \<subseteq>
        (\<Union>(q, r) \<in> insert (x, Some ds) (set (pending_queries m)). case r of None \<Rightarrow> {} | Some ds \<Rightarrow> set ds)"
      unfolding pending_descs_def by (rule UN_mono) (simp_all add: set_dset)
    then show ?thesis by (simp add: pending_descs_def)
  qed
  have "known (m\<lparr>pending_queries := dset (pending_queries m) x (Some ds)\<rparr>) \<subseteq> K" for x
  proof -
    let ?m = "m\<lparr>pending_queries := dset (pending_queries m) x (Some ds)\<rparr>"
    have "registry_descs ?m = registry_descs m" "descriptor_cache ?m = descriptor_cache m" by (simp_all add: registry_descs_def)
    moreover have "pending_descs ?m \<subseteq> K" using pending [of x] assms(1,2) unfolding known_def by blast
    ultimately show ?thesis using assms(1) unfolding known_def by simp
  qed
  then show ?thesis using assms(1,3) by (cases q) (auto simp: settle_def split: if_splits)
qed

lemma accepted_carried:
  "set (accepted_results c time (jget payload ''descriptors'')) \<subseteq> carried (u ''ROUTE_RESULT'') payload"
  by (auto simp: accepted_results_def carried_def split: json.split dest: in_set_takeD)

lemma known_signal_forward:
  assumes "known m \<subseteq> K"
  shows "outcome_within K (handle_signal_forward frepr c now w payload m h)"
  unfolding handle_signal_forward_def Let_def
  by (rule outcome_try [OF assms])
    (auto simp: outcome_within_def assms mesh_try_def split: sum.split json.split prod.split)

lemma known_message:
  assumes "known m \<subseteq> K" "carried (jstr (jget d ''type'')) (payload_of d) \<subseteq> K"
  shows "outcome_within K (handle_node_message P c time now nid w d m h)"
proof -
  let ?t = "jstr (jget d ''type'')" and ?p = "payload_of d"
  have ack: "known (m\<lparr>pending_acks := x\<rparr>) = known m" for x by (rule known_cong) simp_all
  have same: "outcome_within K (m, h', [], effs, e)" for h' effs e using assms(1) by (simp add: outcome_within_def)
  have register: "outcome_within K (handle_route_update (tp_sha256 P) c time nid ''ROUTE_REGISTER'' ?p m h)" if "?t = u ''ROUTE_REGISTER''"
    by (rule known_route_update [OF assms(1)]) (use assms(2) that in \<open>simp add: carried_def\<close>)
  have remove: "outcome_within K (handle_route_update (tp_sha256 P) c time nid ''ROUTE_REMOVE'' ?p m h)"
    by (rule known_route_update [OF assms(1)]) simp
  note query = known_route_query [OF assms(1)] and forward = known_signal_forward [OF assms(1)]
  have result: "outcome_within K (m\<lparr>pending_queries := pq\<rparr>, h, [], [], None)"
    if t: "?t = u ''ROUTE_RESULT''" and pq: "settle (jget ?p ''queryId'') (accepted_results c time (jget ?p ''descriptors'')) (pending_queries m) = Inr pq" for pq
  proof -
    have "set (accepted_results c time (jget ?p ''descriptors'')) \<subseteq> K" using accepted_carried assms(2) t by force
    then show ?thesis using known_settle [OF assms(1) _ pq] by (simp add: outcome_within_def)
  qed
  have state: "outcome_within K (case handle_node_state c time now nid ?p m h of (m1, h1) \<Rightarrow> (m1, h1, [], [], None))"
    using known_node_state [of c time now nid ?p m h] assms(1) by (simp add: outcome_within_def case_prod_unfold)
  show ?thesis
    unfolding handle_node_message_def Let_def
    by (intro outcome_if outcome_try same register remove query result forward state assms(1))
      (simp_all add: outcome_within_def ack assms(1))
qed

lemma known_frame:
  assumes "known m \<subseteq> K" "\<And>B D N S data. loads_strict (Text raw) B D N S = Inr data \<Longrightarrow> data_carries data \<subseteq> K"
    and "node_frame P c time now k raw m h = (k', m', h', out, effs, nx)"
  shows "known m' \<subseteq> K \<and> sends_within K out"
proof -
  have handled: "known m2 \<subseteq> K \<and> sends_within K out2"
    if "handle_node_message P c time now (link_node k) (link_socket k) (dict_of data) m h1 = (m2, h2, out2, effs2, e2)"
      "loads_strict (Text raw) (max_frame_bytes c) (max_json_depth c) (max_json_nodes c) (max_frame_bytes c) = Inr data" for data h1 m2 h2 out2 effs2 e2
    using known_message [OF assms(1), of "dict_of data" P c time now "link_node k" "link_socket k" h1] assms(2) [OF that(2)] that(1)
    by (simp add: data_carries_def outcome_within_def)
  show ?thesis
    using assms(1,3) unfolding node_frame_def node_data_def Let_def
    by (auto split: option.splits if_splits sum.splits prod.splits bool.splits exn.splits dest!: handled)
qed

end
