(* ===== verification/Cluster.thy ===== *)
theory Cluster
  imports Mesh_Knowledge Server_Properties
begin

text \<open>
  Several nodes together. A cluster has the state of every node and all messages the nodes have sent
  to each other. A step is one step of one node; what arrives on a link of node \<open>n\<close> is the text of a
  message \<open>n\<close> has sent at some time, to whomever: delays, losses, repetitions and reordering are all
  runs of the model. That a link belongs to the node it was authenticated as is what pinned
  manifests and TLS are for, and the one assumption here. Shown: a descriptor that any node of a
  cluster holds, uses or hands to a client describes a session that was live and proven, with just
  that key, on the node it names.
\<close>

section \<open>What a node knows\<close>

definition phase_knows :: "v2_phase \<Rightarrow> descriptor set" where
  "phase_knows ph =
     (case ph of VQuerying tag local mid acc asked qs results \<Rightarrow> set (dvalues acc) \<union> set (concat results) | _ \<Rightarrow> {})"

definition server_knows :: "server \<Rightarrow> descriptor set" where
  "server_knows s = known (srv_mesh s) \<union> (\<Union>(w, k) \<in> set (v2_conns s). phase_knows (vc_phase k))"

lemma knows_conn: "dget (v2_conns s) w = Some k \<Longrightarrow> phase_knows (vc_phase k) \<subseteq> server_knows s"
  by (force simp: server_knows_def dest: map_of_SomeD)

lemma set_hub_parts [simp]: "srv_mesh (set_hub h s) = srv_mesh s" "v2_conns (set_hub h s) = v2_conns s"
  by (simp_all add: set_hub_def)

lemma knows_add_conn:
  assumes "server_knows s \<subseteq> K" "phase_knows (vc_phase k) \<subseteq> K" "known (srv_mesh s') \<subseteq> K" "v2_conns s' = dset (v2_conns s) w k"
  shows "server_knows s' \<subseteq> K"
proof -
  have "(\<Union>(w, k) \<in> set (dset (v2_conns s) w k). phase_knows (vc_phase k)) \<subseteq>
      (\<Union>(w, k) \<in> insert (w, k) (set (v2_conns s)). phase_knows (vc_phase k))"
    by (rule UN_mono) (simp_all add: set_dset)
  also have "\<dots> \<subseteq> K" using assms(1,2) by (auto simp: server_knows_def)
  finally show ?thesis using assms(3,4) by (simp add: server_knows_def)
qed

lemma knows_set_conn:
  "server_knows s \<subseteq> K \<Longrightarrow> phase_knows ph \<subseteq> K \<Longrightarrow> known (srv_mesh s') \<subseteq> K \<Longrightarrow> v2_conns s' = v2_conns s \<Longrightarrow>
     server_knows (set_v2_conn w k ph s') \<subseteq> K"
  by (erule knows_add_conn [where k = "k\<lparr>vc_phase := ph\<rparr>" and w = w]) (simp_all add: set_v2_conn_def)

lemma knows_mesh: "server_knows s \<subseteq> K \<Longrightarrow> known (srv_mesh s') \<subseteq> K \<Longrightarrow> set (v2_conns s') \<subseteq> set (v2_conns s) \<Longrightarrow> server_knows s' \<subseteq> K"
  unfolding server_knows_def by blast

lemma phase_knows_simps [simp]:
  "phase_knows VTop = {}" "phase_knows (VReceiving b) = {}" "phase_knows (VAsking nx) = {}" "phase_knows (VReplying f) = {}"
  "phase_knows (VForwarding q mid p) = {}" "phase_knows VLeaving = {}" "phase_knows (VWithdrawing tags) = {}"
  "phase_knows (VQuerying tag local mid acc asked qs results) = set (dvalues acc) \<union> set (concat results)"
  by (simp_all add: phase_knows_def)

lemma phase_after_knows [simp]: "phase_knows (v2_phase_after nx) = {}"
  by (simp add: v2_phase_after_def split: v2_next.split)

lemma loop_top_knows: "v2_loop_top now w k st = (x, effs, ph) \<Longrightarrow> phase_knows ph = {}"
  by (auto simp: v2_loop_top_def v2_timeout_def split: option.splits if_splits)

definition may_bring :: "(pystr \<Rightarrow> pystr \<Rightarrow> bool) \<Rightarrow> descriptor set" where
  "may_bring incoming = {d. \<exists>nid raw B D N S data. incoming nid raw \<and> loads_strict (Text raw) B D N S = Inr data \<and> d \<in> data_carries data}"

lemma known_unchanged:
  "known (m\<lparr>pending_acks := x\<rparr>) = known m" "known (m\<lparr>connections := y\<rparr>) = known m"
  "known (m\<lparr>connections := y, suspected_since := z\<rparr>) = known m"
  by (rule known_cong; simp)+

lemma known_forward: "forward_signal c q tag target v m h = (r, m', h', out) \<Longrightarrow> known m' = known m \<and> sends_within K out"
  by (auto simp: forward_signal_def known_unchanged split: option.splits if_splits)

lemma known_forward_done: "forward_done oc q m h = (b, m', h') \<Longrightarrow> known m' = known m"
  by (auto simp: forward_done_def Let_def known_unchanged split: ack_outcome.splits)

lemma known_claim: "claim_connection nid w m h = (ok, m', h') \<Longrightarrow> known m' = known m"
  by (auto simp: claim_connection_def known_unchanged split: option.splits if_splits)

lemma known_accept: "accept_hello P c time w raw m h = (r, m', h') \<Longrightarrow> known m' = known m"
  by (auto simp: accept_hello_def split: option.splits if_splits sum.splits exn.splits prod.splits dest: known_claim)

lemma known_dial: "dial_hello P c time w t raw delay m h = (r, dl, m', h') \<Longrightarrow> known m' = known m"
  by (auto simp: dial_hello_def Let_def split: option.splits if_splits sum.splits prod.splits dest: known_claim)

lemma known_link_down: "link_down now k m h = (b, m', h') \<Longrightarrow> known m' = known m"
  by (auto simp: link_down_def Let_def known_unchanged split: if_splits)

lemma known_topology: "topology_changed sha c now m h = Inr (work, m', h') \<Longrightarrow> known m' \<subseteq> known m"
  using known_filter known_reconcile [of c now m h]
  by (fastforce simp: topology_changed_def rbind_eq_Inr split: prod.splits)

lemma known_tick:
  assumes "membership_tick c time now inc m h = (m', h', out)"
  shows "known m' = known m \<and> sends_within K out"
proof -
  have "sends_within K (map ((\<lambda>w. MeshSend w ''NODE_STATE'' p) \<circ> snd) cs)" for p and cs :: "(pystr, nat) dict"
    by (induction cs) simp_all
  then show ?thesis
    using assms known_reconcile [of c now m h] by (auto simp: membership_tick_def split: prod.splits)
qed

lemma node_act_knows:
  assumes "node_act incoming P on_curve c now s effs out s'"
    and K: "server_knows s \<subseteq> K" "Collect (local_descriptor c (srv_hub s)) \<subseteq> K" "may_bring incoming \<subseteq> K"
  shows "server_knows s' \<subseteq> K \<and> sends_within K out"
proof -
  have m: "known (srv_mesh s) \<subseteq> K" using K(1) by (simp add: server_knows_def)
  note conn = knows_set_conn [OF K(1)] and mesh = knows_mesh [OF K(1)]
  show ?thesis
    using assms(1)
  proof cases
    case (v2_opened allowed origin w sid x dl)
    then show ?thesis using m by (intro conjI knows_add_conn [OF K(1), where w = w]) simp_all
  next
    case (v2_received w k timed time raw remote m1 m' elapsed chal x nx)
    then have "known m' \<subseteq> K" using known_remote [of time "mesh_target c raw" "srv_mesh s"] m by auto
    then show ?thesis using v2_received(1,2) by (simp add: conn)
  next
    case (v2_turn w k x ph)
    then show ?thesis using m loop_top_knows [OF v2_turn(5)] by (simp add: conn)
  next
    case (v2_registers w k tag frame time m1 h)
    then show ?thesis using known_register [OF m K(2) v2_registers(5)] by (simp add: conn)
  next
    case (v2_unregisters w k tag frame time m1 h)
    then show ?thesis using known_remove [OF m v2_unregisters(5)] by (simp add: conn)
  next
    case (v2_discovers w k tag local mid time acc asked m1 h)
    then show ?thesis using known_discover_begin [OF m v2_discovers(6)] by (simp add: conn)
  next
    case (v2_queries w k tag local mid acc x asked open_qs results query_id ok m1 h)
    then have "set (dvalues acc) \<union> set (concat results) \<subseteq> K" using knows_conn [of s w k] K(1) by auto
    moreover have "known m1 \<subseteq> K \<and> sends_within K out" using known_query_owner [OF v2_queries(5)] m by blast
    ultimately show ?thesis using v2_queries(2) by (simp add: conn)
  next
    case (v2_answered w k tag local mid acc q open_qs results sent ds m1)
    then have "set (dvalues acc) \<union> set (concat results) \<subseteq> K" using knows_conn [of s w k] K(1) by auto
    then show ?thesis using v2_answered(2,3) known_query_done [OF m v2_answered(6)] by (simp add: conn)
  next
    case (v2_discovered w k tag local mid acc results time found m1 h)
    then have "set (dvalues acc) \<union> set (concat results) \<subseteq> K" using knows_conn [of s w k] K(1) by auto
    then have "known m1 \<subseteq> K" using known_discover_end [OF _ v2_discovered(6), of K] m by auto
    then show ?thesis using v2_discovered(2,3) by (simp add: conn)
  next
    case (v2_forwards w k tag target frame payload request_id m1 h)
    then show ?thesis using m known_forward [OF v2_forwards(5), of K] by (simp add: conn)
  next
    case (v2_not_forwarded w k tag target frame payload request_id b m1 h elapsed x nx)
    then show ?thesis using m known_forward [OF v2_not_forwarded(4), of K] by (simp add: conn)
  next
    case (v2_forwarded w k request_id mid payload oc b m1 h elapsed x nx)
    then show ?thesis using m known_forward_done [OF v2_forwarded(5)] by (simp add: conn)
  next
    case (v2_withdraws w k tag tags time m1 h failures)
    then show ?thesis using known_remove [OF m v2_withdraws(5)] by (simp add: conn)
  next
    case (v2_left w k)
    then show ?thesis using m by (simp add: mesh set_dpop)
  next
    case (linked time w raw nid m1 h)
    then show ?thesis using m known_accept [OF linked(4)] by (simp add: mesh)
  next
    case (not_linked time w raw m1 h)
    then show ?thesis using m known_accept [OF not_linked(4)] by (simp add: mesh)
  next
    case (dialled n t time w answer delay nid delay' m1 h)
    then show ?thesis using m known_dial [OF dialled(6)] by (simp add: mesh)
  next
    case (not_dialled n t time w answer delay delay' m1 h)
    then show ?thesis using m known_dial [OF not_dialled(6)] by (simp add: mesh)
  next
    case (node_framed w k time raw k' m1 h nx)
    have "data_carries data \<subseteq> K" if "loads_strict (Text raw) B D N S = Inr data" for B D N S data
      using K(3) node_framed(4) that unfolding may_bring_def by blast
    then show ?thesis using node_framed(1) known_frame [OF m _ node_framed(3)] by (simp add: mesh)
  next
    case (unlinked w k removed m1 h)
    then show ?thesis using m known_link_down [OF unlinked(5)] by (simp add: mesh)
  next
    case (topology work m1 h)
    then show ?thesis using known_topology [OF topology(4)] m by (simp add: mesh subset_trans)
  next
    case (rebalances tag sid work time m1 h failures)
    then show ?thesis using known_register [OF m K(2) rebalances(4)] by (simp add: mesh)
  next
    case (ticks time incarnation m1 h)
    then show ?thesis using m known_tick [OF ticks(3), of K] by (simp add: mesh)
  qed (use m in \<open>simp_all add: conn mesh\<close>)
qed

section \<open>The wire\<close>

text \<open>
  What arrives is the canonical text of what was sent: it decodes to the same value with its keys
  sorted. A descriptor is then told by its five members.
\<close>

definition contact :: "descriptor \<Rightarrow> json list" where
  "contact d = map (jget d) [''sessionId'', ''encryptionKeyHex'', ''keyId'', ''nodeId'', ''expiresAt'']"

definition arrives :: "(pystr \<times> json) set \<Rightarrow> pystr \<Rightarrow> pystr \<Rightarrow> bool" where
  "arrives mail nid raw \<longleftrightarrow> (\<exists>msg. (nid, msg) \<in> mail \<and> json_loads raw = Inr (sort_keys msg))"

text \<open>\<^verbatim>\<open>_send_json\<close> of \<^verbatim>\<open>app/node_mesh.py\<close>: the text that goes out.\<close>

definition send_json :: "(real \<Rightarrow> pystr) \<Rightarrow> json \<Rightarrow> pystr result" where
  "send_json frepr data =
     rbind (canonical_json_bytes frepr data) (\<lambda>b.
       case utf8_decode b of None \<Rightarrow> Inl (ValueError ''utf-8'') | Some text \<Rightarrow> Inr text)"

lemma sent_text_arrives:
  assumes "exact msg" "unique_keys msg" "all_strings code_points msg" "send_json frepr msg = Inr raw" "(n, msg) \<in> mail"
  shows "arrives mail n raw"
proof -
  obtain b where b: "canonical_json_bytes frepr msg = Inr b" "utf8_decode b = Some raw"
    using assms(4) by (auto simp: send_json_def rbind_eq_Inr split: option.splits)
  then show ?thesis using canonical_decodes [OF assms(1-3) b(1)] assms(5) by (auto simp: arrives_def)
qed

definition posted :: "pystr \<Rightarrow> mesh_send list \<Rightarrow> (pystr \<times> json) set" where
  "posted n out = {(n, node_message t mid payload) | w t mid payload. MeshSend w t payload \<in> set out}"

lemma dget_hd: "dget d k = map_option snd (List.find (\<lambda>y. fst y = k) d)"
  by (induction d) auto

lemma find_filter: "List.find P xs = (case filter P xs of [] \<Rightarrow> None | x # _ \<Rightarrow> Some x)"
  by (induction xs) auto

lemma dget_sort_key: "dget (sort_key fst d) k = dget d k"
  unfolding dget_hd find_filter by (simp add: sort_key_stable)

lemma jget_sort: "jget (dict_of (sort_keys (JDict d))) f = sort_keys (jget d f)"
proof -
  have "dget (map (\<lambda>(k, v). (k, sort_keys v)) d) k = map_option sort_keys (dget d k)" for k by (induction d) auto
  then show ?thesis by (simp add: jget_def dict_of_def dget_sort_key split: option.split)
qed

lemma dict_of_sort: "dict_of (sort_keys v) = dict_of (sort_keys (JDict (dict_of v)))"
  by (cases v) (simp_all add: dict_of_def)

lemma strict_loads: "loads_strict (Text raw) B D N S = Inr v \<Longrightarrow> json_loads raw = Inr v"
  by (auto simp: loads_strict_def rbind_eq_Inr split: option.splits if_splits sum.splits)

definition sort_closed :: "descriptor set \<Rightarrow> bool" where
  "sort_closed K \<longleftrightarrow> (\<forall>d \<in> K. dict_of (sort_keys (JDict d)) \<in> K)"

lemma sorted_in: "sort_closed K \<Longrightarrow> dict_of v \<in> K \<Longrightarrow> dict_of (sort_keys v) \<in> K"
  unfolding sort_closed_def by (subst dict_of_sort) blast

lemma carried_sorted:
  assumes "sort_closed K" "carried t payload \<subseteq> K"
  shows "carried t (dict_of (sort_keys (JDict payload))) \<subseteq> K"
proof -
  note mem = sorted_in [OF assms(1)]
  show ?thesis
    using assms(2) mem unfolding carried_def jget_sort
    by (cases "jget payload ''descriptors''") (auto split: if_splits)
qed

lemma message_carries: "data_carries (node_message t mid payload) = carried (u t) payload"
  by (simp add: data_carries_def node_message_def dict_of_def payload_of_def jget_def jstr_def)

lemma message_carries_sorted:
  assumes "sort_closed K" "data_carries msg \<subseteq> K"
  shows "data_carries (sort_keys msg) \<subseteq> K"
proof -
  let ?d = "dict_of msg"
  have str: "jstr (sort_keys v) = jstr v" for v by (cases v) (simp_all add: jstr_def)
  have t: "jstr (jget (dict_of (sort_keys msg)) ''type'') = jstr (jget ?d ''type'')"
    by (subst dict_of_sort) (simp only: jget_sort str)
  have "payload_of (dict_of (sort_keys msg)) = dict_of (sort_keys (JDict (payload_of ?d)))"
    unfolding payload_of_def by (subst dict_of_sort, subst jget_sort) (cases "jget ?d ''payload''", simp_all add: dict_of_def)
  with t assms carried_sorted show ?thesis unfolding data_carries_def by simp
qed

lemma arrives_within:
  assumes "sort_closed K" "\<And>n msg. (n, msg) \<in> mail \<Longrightarrow> data_carries msg \<subseteq> K"
  shows "may_bring (arrives mail) \<subseteq> K"
  using message_carries_sorted [OF assms(1) assms(2)] strict_loads unfolding may_bring_def arrives_def by fastforce

section \<open>The cluster\<close>

record cluster =
  node_of :: "pystr \<Rightarrow> server"
  mail :: "(pystr \<times> json) set"

text \<open>Node \<open>n\<close> runs with configuration \<open>cfg n\<close> and its own signing key, \<open>P n\<close>.\<close>

inductive cluster_step ::
  "(pystr \<Rightarrow> trust_prims) \<Rightarrow> (bytes \<Rightarrow> bool) \<Rightarrow> (pystr \<Rightarrow> config) \<Rightarrow> cluster \<Rightarrow> cluster \<Rightarrow> bool" for P on_curve cfg where
  node_steps: "srv_clock (node_of g n) \<le> now \<Longrightarrow>
    node_act (arrives (mail g)) (P n) on_curve (cfg n) now (node_of g n) effs out s' \<Longrightarrow>
    set (new_ids (srv_hub (node_of g n)) (srv_hub s')) \<inter> set (issued (node_of g n)) = {} \<Longrightarrow>
    cluster_step P on_curve cfg g
      (g\<lparr>node_of := (node_of g)(n := s'\<lparr>srv_clock := now, issued := issued (node_of g n) @ new_ids (srv_hub (node_of g n)) (srv_hub s')\<rparr>),
         mail := mail g \<union> posted n out\<rparr>)"

definition new_cluster :: "(pystr \<Rightarrow> config) \<Rightarrow> real \<Rightarrow> (pystr \<Rightarrow> node_trust) \<Rightarrow> (pystr \<Rightarrow> mesh) \<Rightarrow> cluster" where
  "new_cluster cfg now tr m = \<lparr>node_of = (\<lambda>n. new_server (cfg n) now (tr n) (m n)), mail = {}\<rparr>"

subsection \<open>One node of a cluster\<close>




interpretation post: growing "cluster_step P on_curve cfg" "\<lambda>_. True" mail for P on_curve cfg
  by unfold_locales (auto elim!: cluster_step.cases)


section \<open>Genuine descriptors\<close>

text \<open>A state of the cluster vouches for a descriptor whose session is live and proven on the node it names.\<close>

definition vouches :: "(pystr \<Rightarrow> config) \<Rightarrow> cluster \<Rightarrow> descriptor \<Rightarrow> bool" where
  "vouches cfg g d \<longleftrightarrow>
     (\<exists>n sid sess e. dget (sessions (srv_hub (node_of g n))) sid = Some sess \<and> proven sess \<and> session_protocol sess = 2 \<and>
        contact d = [JStr sid, json_opt (encryption_key_hex sess), json_opt (encryption_key_id sess), JStr (node_id (cfg n)), JInt e])"

definition genuine :: "(pystr \<Rightarrow> trust_prims) \<Rightarrow> (bytes \<Rightarrow> bool) \<Rightarrow> (pystr \<Rightarrow> config) \<Rightarrow> cluster \<Rightarrow> cluster \<Rightarrow> descriptor set" where
  "genuine P on_curve cfg g0 g =
     {d. \<exists>g'. (cluster_step P on_curve cfg)\<^sup>*\<^sup>* g0 g' \<and> (cluster_step P on_curve cfg)\<^sup>*\<^sup>* g' g \<and> vouches cfg g' d}"

lemma contact_sorted: "contact (dict_of (sort_keys (JDict d))) = map sort_keys (contact d)"
  unfolding contact_def list.map jget_sort ..

lemma vouches_sorted: "vouches cfg g d \<Longrightarrow> vouches cfg g (dict_of (sort_keys (JDict d)))"
proof -
  have "sort_keys (json_opt x) = json_opt x" for x by (simp add: json_opt_def split: option.split)
  then show "vouches cfg g d \<Longrightarrow> vouches cfg g (dict_of (sort_keys (JDict d)))"
    unfolding vouches_def contact_sorted by fastforce
qed

lemma genuine_sorted: "sort_closed (genuine P on_curve cfg g0 g)"
  unfolding sort_closed_def genuine_def using vouches_sorted by blast

lemma genuine_step: "cluster_step P on_curve cfg g g' \<Longrightarrow> genuine P on_curve cfg g0 g \<subseteq> genuine P on_curve cfg g0 g'"
  unfolding genuine_def by (blast intro: rtranclp.rtrancl_into_rtrancl)

lemma local_genuine:
  assumes "(cluster_step P on_curve cfg)\<^sup>*\<^sup>* g0 g"
  shows "Collect (local_descriptor (cfg n) (srv_hub (node_of g n))) \<subseteq> genuine P on_curve cfg g0 g"
proof -
  have "vouches cfg g d" if h: "local_descriptor (cfg n) (srv_hub (node_of g n)) d" for d
  proof -
    obtain sid sess e where "dget (sessions (srv_hub (node_of g n))) sid = Some sess" "proven sess" "session_protocol sess = 2"
      "d = [(u ''sessionId'', JStr sid), (u ''encryptionKeyHex'', json_opt (encryption_key_hex sess)),
            (u ''keyId'', json_opt (encryption_key_id sess)), (u ''nodeId'', JStr (node_id (cfg n))), (u ''expiresAt'', JInt e)]"
      using h by (auto simp: local_descriptor_def peer_descriptor_def split: option.splits if_splits)
    then show ?thesis unfolding vouches_def by (intro exI [of _ n] exI [of _ sid] exI [of _ sess] exI [of _ e]) (simp add: contact_def jget_def)
  qed
  then show ?thesis using assms unfolding genuine_def by blast
qed

definition cluster_genuine :: "(pystr \<Rightarrow> trust_prims) \<Rightarrow> (bytes \<Rightarrow> bool) \<Rightarrow> (pystr \<Rightarrow> config) \<Rightarrow> cluster \<Rightarrow> cluster \<Rightarrow> bool" where
  "cluster_genuine P on_curve cfg g0 g \<longleftrightarrow> (cluster_step P on_curve cfg)\<^sup>*\<^sup>* g0 g \<and>
     (\<forall>n. server_knows (node_of g n) \<subseteq> genuine P on_curve cfg g0 g) \<and>
     (\<forall>n msg. (n, msg) \<in> mail g \<longrightarrow> data_carries msg \<subseteq> genuine P on_curve cfg g0 g)"

lemma posted_within: "sends_within K out \<Longrightarrow> (n, msg) \<in> posted n' out \<Longrightarrow> data_carries msg \<subseteq> K"
  by (force simp: posted_def sends_within_def list_all_iff message_carries)

lemma knows_recorded [simp]: "server_knows (s\<lparr>srv_clock := x, issued := y\<rparr>) = server_knows s"
  by (simp add: server_knows_def)

lemma cluster_genuine_step:
  assumes "cluster_step P on_curve cfg g g'" "cluster_genuine P on_curve cfg g0 g"
  shows "cluster_genuine P on_curve cfg g0 g'"
proof -
  let ?K = "genuine P on_curve cfg g0 g" and ?K' = "genuine P on_curve cfg g0 g'"
  have run: "(cluster_step P on_curve cfg)\<^sup>*\<^sup>* g0 g" and ks: "\<And>n. server_knows (node_of g n) \<subseteq> ?K"
    and mk: "\<And>n msg. (n, msg) \<in> mail g \<Longrightarrow> data_carries msg \<subseteq> ?K"
    using assms(2) by (auto simp: cluster_genuine_def)
  have up: "?K \<subseteq> ?K'" by (rule genuine_step [OF assms(1)])
  have run': "(cluster_step P on_curve cfg)\<^sup>*\<^sup>* g0 g'" using run assms(1) by simp
  show ?thesis
    using assms(1)
  proof cases
    case (node_steps n now effs out s')
    have "server_knows s' \<subseteq> ?K \<and> sends_within ?K out"
      by (rule node_act_knows [OF node_steps(3) ks local_genuine [OF run] arrives_within [OF genuine_sorted mk]])
    then have "\<forall>n. server_knows (node_of g' n) \<subseteq> ?K" "\<forall>n msg. (n, msg) \<in> mail g' \<longrightarrow> data_carries msg \<subseteq> ?K"
      using ks mk posted_within [of ?K out] unfolding node_steps(1) by auto
    then show ?thesis using run' up unfolding cluster_genuine_def by (meson subset_trans)
  qed
qed

interpretation provenance: preserved "cluster_step P on_curve cfg" "cluster_genuine P on_curve cfg g0" for P on_curve cfg g0
  by unfold_locales (rule cluster_genuine_step)

text \<open>At the start nobody holds a descriptor: a new cluster, or one in which no route has been registered.\<close>

definition blank :: "cluster \<Rightarrow> bool" where
  "blank g \<longleftrightarrow> (\<forall>n. server_knows (node_of g n) = {}) \<and> mail g = {}"

lemma blank_new: "(\<And>n. m n = new_mesh (cfg n) (tn n)) \<Longrightarrow> blank (new_cluster cfg now tr m)"
  by (simp add: blank_def new_cluster_def server_knows_def new_server_def known_def registry_descs_def
      pending_descs_def new_mesh_def)

lemma cluster_genuine_run: "blank g0 \<Longrightarrow> (cluster_step P on_curve cfg)\<^sup>*\<^sup>* g0 g \<Longrightarrow> cluster_genuine P on_curve cfg g0 g"
  by (erule provenance.run_inv) (simp add: cluster_genuine_def blank_def)

section \<open>Properties\<close>

text \<open>C7: In a cluster of nodes that run this code, each peer a client is told about, wherever its descriptor
  has been stored, replicated and queried since, was at an earlier moment a live session that had
  proved its identity on the node the descriptor names, with the encryption key and key id the
  descriptor gives.\<close>

theorem discovered_peers_genuine:
  assumes "blank g0" "(cluster_step P on_curve cfg)\<^sup>*\<^sup>* g0 g"
    and "dget (v2_conns (node_of g n)) w = Some k" "vc_phase k = VQuerying tag local mid acc [] [] results"
    and "discover_end (cfg n) time acc results (srv_mesh (node_of g n)) (srv_hub (node_of g n)) = (found, m, h)"
    and "d \<in> set found"
  shows "\<exists>g' n' sid sess e. (cluster_step P on_curve cfg)\<^sup>*\<^sup>* g0 g' \<and> (cluster_step P on_curve cfg)\<^sup>*\<^sup>* g' g \<and>
    dget (sessions (srv_hub (node_of g' n'))) sid = Some sess \<and> proven sess \<and> session_protocol sess = 2 \<and>
    contact d = [JStr sid, json_opt (encryption_key_hex sess), json_opt (encryption_key_id sess), JStr (node_id (cfg n')), JInt e]"
proof -
  let ?K = "genuine P on_curve cfg g0 g"
  have k: "server_knows (node_of g n) \<subseteq> ?K" using cluster_genuine_run [OF assms(1,2)] by (simp add: cluster_genuine_def)
  then have "set (dvalues acc) \<union> known (srv_mesh (node_of g n)) \<union> set (concat results) \<subseteq> ?K"
    using knows_conn [OF assms(3), unfolded assms(4) phase_knows_simps] unfolding server_knows_def by blast
  then have "d \<in> ?K" using known_discover_end [OF _ assms(5)] assms(6) by blast
  then show ?thesis unfolding genuine_def vouches_def by blast
qed

text \<open>A node with a proven session that is registering a route, and another session that looks for peers on it.\<close>

definition ex_session :: session where
  "ex_session = (new_session 7 1)\<lparr>proven := True, session_protocol := 2, encryption_key_hex := Some (u ''04''), encryption_key_id := Some (u ''k'')\<rparr>"

definition ex_seeker :: v2_conn where
  "ex_seeker = \<lparr>vc_sid = u ''b'', vc_deadline = 11, vc_phase = VAsking (Discover (u ''t'') [] JNull)\<rparr>"

definition ex_joiner :: v2_conn where
  "ex_joiner = \<lparr>vc_sid = u ''a'', vc_deadline = 11, vc_phase = VAsking (Register (u ''t'') JNull)\<rparr>"

definition ex_node :: server where
  "ex_node = (set_hub ((new_hub default_config 0)\<lparr>sessions := [(u ''a'', ex_session)]\<rparr>) ex_server)\<lparr>v2_conns := [(7, ex_joiner), (8, ex_seeker)]\<rparr>"

definition ex_card :: descriptor where
  "ex_card = [(u ''sessionId'', JStr (u ''a'')), (u ''encryptionKeyHex'', JStr (u ''04'')), (u ''keyId'', JStr (u ''k'')),
     (u ''nodeId'', JStr (node_id default_config)), (u ''expiresAt'', JInt 90)]"

definition ex_registered :: mesh where
  "ex_registered = (new_mesh default_config [])\<lparr>route_registry := [(u ''t'', [((node_id default_config, u ''a''), ex_card)])],
     route_descriptor_count := 1, session_nodes := [(u ''a'', node_id default_config)]\<rparr>"

lemma ex_node_parts:
  "srv_mesh ex_node = new_mesh default_config []" "sessions (srv_hub ex_node) = [(u ''a'', ex_session)]" "srv_clock ex_node = 0"
  "v2_conns ex_node = [(7, ex_joiner), (8, ex_seeker)]" "issued ex_node = []"
  by (simp_all add: ex_node_def ex_server_def new_server_def set_hub_def)

lemma ex_owner: "membership_nodes m = [node_id default_config] \<Longrightarrow>
    owners_for (tp_sha256 ex_tp) default_config (u ''t'') m = Inr [node_id default_config]"
  by (simp add: owners_for_def rank_key_def utf8_encode_def) (simp add: default_config_def u_def is_surrogate_def)

lemma ex_card_current: "descriptor_is_current default_config 0 ex_card" "\<not> desc_expired 0 ex_card"
  "jget ex_card ''sessionId'' = JStr (u ''a'')" "jget ex_card ''nodeId'' = JStr (node_id default_config)" "jget ex_card ''expiresAt'' = JInt 90"
  by (simp_all add: descriptor_is_current_def desc_expired_def ex_card_def jget_def int_of_def) (simp add: default_config_def)

lemma ex_register:
  "register_local_route (tp_sha256 ex_tp) default_config 0 (u ''t'') (u ''a'') (srv_mesh ex_node) (srv_hub ex_node) =
     Inr (ex_registered, srv_hub ex_node, [])"
proof -
  have l: "route_lease_seconds default_config = 90" "0 < node_mesh_max_route_descriptors default_config"
    by (simp_all add: default_config_def)
  have "peer_descriptor (u ''a'') (srv_hub ex_node) = Some (take 3 ex_card)"
    by (simp add: peer_descriptor_def ex_node_parts ex_session_def ex_card_def json_opt_def)
  moreover have "take 3 ex_card @ [(u ''nodeId'', JStr (node_id default_config)), (u ''expiresAt'', JInt 90)] = ex_card"
    by (simp add: ex_card_def)
  moreover have "apply_route_message default_config 0 ''ROUTE_REGISTER'' (u ''t'') ex_card (new_mesh default_config []) (srv_hub ex_node) =
      (ex_registered, srv_hub ex_node)"
    using l ex_card_current
    by (simp add: apply_route_message_def int_value_def identity_conflict_def new_mesh_def ex_registered_def dget_default_def)
  ultimately show ?thesis
    using ex_owner [of "new_mesh default_config []"]
    by (simp add: register_local_route_def mesh_replicate_def ex_node_parts(1) l new_mesh_def)
qed

lemma ex_discover:
  "discover_begin (tp_sha256 ex_tp) default_config 0 (u ''t'') ex_registered h =
     Inr ([(u ''a'', ex_card)], [], ex_registered\<lparr>descriptor_cache := [(u ''a'', ex_card)]\<rparr>, h)"
proof -
  have p: "mesh_prune_routes 0 ex_registered = ex_registered"
    using ex_card_current by (simp add: mesh_prune_routes_def filter_routes_def ex_registered_def new_mesh_def)
  have l: "0 < node_mesh_max_route_descriptors default_config" by (simp add: default_config_def)
  have "collect default_config 0 [ex_card] ([], ex_registered, h) =
      ([(u ''a'', ex_card)], ex_registered\<lparr>descriptor_cache := [(u ''a'', ex_card)]\<rparr>, h)"
    using ex_card_current l
    by (simp add: collect_def cache_descriptor_def identity_conflict_def ex_registered_def new_mesh_def jstr_def)
  then show ?thesis
    using ex_owner [of "ex_registered\<lparr>descriptor_cache := [(u ''a'', ex_card)]\<rparr>"]
    by (simp add: discover_begin_def p) (simp add: ex_registered_def dget_default_def new_mesh_def map_filter_def)
qed

abbreviation ex_step where
  "ex_step \<equiv> cluster_step (\<lambda>_. ex_tp) (\<lambda>_. True) (\<lambda>_. default_config)"

definition ex_joined :: server where
  "ex_joined = set_v2_conn 7 ex_joiner (VReplying JNull) (ex_node\<lparr>srv_mesh := ex_registered\<rparr>)"

definition ex_asked :: server where
  "ex_asked = set_v2_conn 8 ex_seeker (VQuerying (u ''t'') [] JNull [(u ''a'', ex_card)] [] [] [])
     (ex_joined\<lparr>srv_mesh := ex_registered\<lparr>descriptor_cache := [(u ''a'', ex_card)]\<rparr>\<rparr>)"

definition ex_cluster :: "server \<Rightarrow> cluster" where
  "ex_cluster s = \<lparr>node_of = (\<lambda>_. ex_node)(u ''n'' := s), mail = {}\<rparr>"

lemma set_hub_same: "set_hub (srv_hub s) s = s"
  by (simp add: set_hub_def)

lemma ex_local_step:
  assumes "node_act (arrives {}) ex_tp (\<lambda>_. True) default_config 0 s [] [] s'" "srv_clock s = 0" "srv_clock s' = 0"
    and "srv_hub s' = srv_hub s" "issued s' = issued s"
  shows "ex_step (ex_cluster s) (ex_cluster s')"
proof -
  have same: "s'\<lparr>srv_clock := 0, issued := issued s\<rparr> = s'" using assms(3,5) by (cases s') simp
  show ?thesis
    using cluster_step.node_steps [of "ex_cluster s" "u ''n''" 0 "\<lambda>_. ex_tp" "\<lambda>_. True" "\<lambda>_. default_config" "[]" "[]" s'] assms
    by (simp add: ex_cluster_def posted_def new_ids_def same)
qed

lemma ex_cluster_run: "ex_step\<^sup>*\<^sup>* (ex_cluster ex_node) (ex_cluster ex_asked)"
proof -
  have "node_act (arrives {}) ex_tp (\<lambda>_. True) default_config 0 ex_node [] []
      (set_v2_conn 7 ex_joiner (VReplying JNull) ((set_hub (srv_hub ex_node) ex_node)\<lparr>srv_mesh := ex_registered\<rparr>))"
    by (rule v2_registers [where time = 0 and tag = "u ''t''"]) (use ex_register in \<open>simp_all add: ex_node_parts ex_joiner_def\<close>)
  then have "node_act (arrives {}) ex_tp (\<lambda>_. True) default_config 0 ex_node [] [] ex_joined" unfolding set_hub_same ex_joined_def .
  then have 1: "ex_step (ex_cluster ex_node) (ex_cluster ex_joined)"
    by (rule ex_local_step) (simp_all add: ex_joined_def set_v2_conn_def ex_node_parts)
  have j: "srv_mesh ex_joined = ex_registered" "dget (v2_conns ex_joined) 8 = Some ex_seeker" "srv_clock ex_joined = 0"
    by (simp_all add: ex_joined_def set_v2_conn_def ex_node_parts)
  let ?m = "ex_registered\<lparr>descriptor_cache := [(u ''a'', ex_card)]\<rparr>"
  have "node_act (arrives {}) ex_tp (\<lambda>_. True) default_config 0 ex_joined [] []
      (set_v2_conn 8 ex_seeker (VQuerying (u ''t'') [] JNull [(u ''a'', ex_card)] [] [] []) ((set_hub (srv_hub ex_joined) ex_joined)\<lparr>srv_mesh := ?m\<rparr>))"
    by (rule v2_discovers [where time = 0]) (use ex_discover in \<open>simp_all add: j ex_seeker_def\<close>)
  then have "node_act (arrives {}) ex_tp (\<lambda>_. True) default_config 0 ex_joined [] [] ex_asked" unfolding set_hub_same ex_asked_def .
  then have 2: "ex_step (ex_cluster ex_joined) (ex_cluster ex_asked)"
    by (rule ex_local_step) (simp_all add: ex_asked_def set_v2_conn_def j)
  show ?thesis using 1 2 by (meson converse_rtranclp_into_rtranclp r_into_rtranclp)
qed

lemma ex_blank: "blank (ex_cluster ex_node)"
  by (simp add: blank_def ex_cluster_def server_knows_def ex_node_parts ex_joiner_def ex_seeker_def known_def registry_descs_def
      pending_descs_def new_mesh_def)

theorem discovered_peers_genuine_witness:
  "\<exists>found m h. discover_end default_config 0 [(u ''a'', ex_card)] [] (srv_mesh ex_asked) (srv_hub ex_asked) = (found, m, h) \<and> found = [ex_card] \<and>
     (\<exists>g' n' sid sess e. ex_step\<^sup>*\<^sup>* (ex_cluster ex_node) g' \<and> ex_step\<^sup>*\<^sup>* g' (ex_cluster ex_asked) \<and>
        dget (sessions (srv_hub (node_of g' n'))) sid = Some sess \<and> proven sess \<and>
        contact ex_card = [JStr sid, json_opt (encryption_key_hex sess), json_opt (encryption_key_id sess), JStr (node_id default_config), JInt e])"
proof -
  have d: "discover_end default_config 0 [(u ''a'', ex_card)] [] (srv_mesh (node_of (ex_cluster ex_asked) (u ''n'')))
      (srv_hub (node_of (ex_cluster ex_asked) (u ''n''))) = ([ex_card], srv_mesh ex_asked, srv_hub ex_asked)"
    by (simp add: discover_end_def collect_def ex_cluster_def)
  have k: "dget (v2_conns (node_of (ex_cluster ex_asked) (u ''n''))) 8 =
      Some (ex_seeker\<lparr>vc_phase := VQuerying (u ''t'') [] JNull [(u ''a'', ex_card)] [] [] []\<rparr>)"
    by (simp add: ex_cluster_def ex_asked_def set_v2_conn_def dict_simps)
  from discovered_peers_genuine [OF ex_blank ex_cluster_run k _ d, of "u ''t''" "[]" JNull ex_card]
  show ?thesis using d by (simp add: ex_cluster_def) blast
qed



end
