(* ===== verification/Application.thy ===== *)
theory Application
  imports Operations Startup Server_Properties
begin

text \<open>
  \<^verbatim>\<open>app/main.py\<close>: how the application is built, started and stopped, with what it needs on the way:
  the TLS settings and the pace of the mesh (\<^verbatim>\<open>app/node_mesh.py\<close>) and the probes of
  \<^verbatim>\<open>app/metrics.py\<close>. What \<^verbatim>\<open>json.loads\<close> makes of a setting is an argument, as is what the operating
  system answers to a probe.
\<close>

section \<open>Probes\<close>

text \<open>\<^verbatim>\<open>str.split()\<close>\<close>

fun split_space :: "pystr \<Rightarrow> pystr \<Rightarrow> pystr list" where
  "split_space cur [] = (if cur = [] then [] else [cur])"
| "split_space cur (ch # s) =
     (if is_unicode_space ch then (if cur = [] then split_space [] s else cur # split_space [] s)
      else split_space (cur @ [ch]) s)"

text \<open>
  The answers of the system: the working set on Windows, the text of \<^verbatim>\<open>/proc/self/statm\<close>, the page
  size, and the peak from \<^verbatim>\<open>getrusage\<close>; \<open>None\<close> where a call fails. \<open>os_name\<close> is Python's \<^verbatim>\<open>os.name\<close>.
\<close>

record memory_probe =
  working_set :: "nat option"
  statm_text :: "pystr option"
  page_size :: "nat option"
  max_rss :: "nat option"

definition statm_bytes :: "env_prims \<Rightarrow> memory_probe \<Rightarrow> int option" where
  "statm_bytes E p =
     (case statm_text p of
        None \<Rightarrow> None
      | Some t \<Rightarrow>
          (case split_space [] t of
             _ # pages # _ \<Rightarrow>
               (case (int_text E pages, page_size p) of (Some n, Some bytes) \<Rightarrow> Some (n * int bytes) | _ \<Rightarrow> None)
           | _ \<Rightarrow> None))"

definition resident_set_bytes :: "env_prims \<Rightarrow> string \<Rightarrow> memory_probe \<Rightarrow> int" where
  "resident_set_bytes E os_name p =
     (case (if os_name = ''nt'' then working_set p else None) of
        Some n \<Rightarrow> int n
      | None \<Rightarrow>
          (case statm_bytes E p of
             Some n \<Rightarrow> n
           | None \<Rightarrow>
               (case max_rss p of None \<Rightarrow> 0 | Some n \<Rightarrow> if os_name = ''darwin'' then int n else int n * 1024)))"

definition open_file_descriptor_count :: "nat option \<Rightarrow> int" where
  "open_file_descriptor_count listing = (case listing of None \<Rightarrow> -1 | Some n \<Rightarrow> int n)"

section \<open>The mesh's transport\<close>

record tls =
  tls_ca :: "pystr option"
  tls_client :: "(pystr \<times> pystr) option"

definition ssl_context :: "config \<Rightarrow> pystr \<Rightarrow> tls option" where
  "ssl_context c url =
     (if \<not> is_wss url then None
      else Some \<lparr>tls_ca = (if node_mesh_ca_file c = [] then None else Some (node_mesh_ca_file c)),
                 tls_client = (if node_mesh_cert_file c \<noteq> [] \<and> node_mesh_key_file c \<noteq> []
                               then Some (node_mesh_cert_file c, node_mesh_key_file c) else None)\<rparr>)"

definition membership_interval :: "config \<Rightarrow> real" where
  "membership_interval c = max 1 (min 5 (node_mesh_suspicion_seconds c / 2))"

section \<open>The application\<close>

datatype task = Unborn | Alive | Over
datatype mesh_task = DialTask pystr | MembershipTask
datatype life = Made | Serving | Stopped | StartFailed exn

record app =
  life_of :: life
  app_server :: server
  app_origins :: "pystr list"
  cleanup_task :: task
  metrics_task :: task
  mesh_tasks :: "mesh_task list"
  closed_sockets :: "nat list"


definition lifespan_start :: "config \<Rightarrow> app \<Rightarrow> app" where
  "lifespan_start c a =
     (let a1 = a\<lparr>cleanup_task := Alive, metrics_task := Alive\<rparr>; s = app_server a
      in case mesh_start c (srv_mesh s) (srv_hub s) of
           Inl e \<Rightarrow> a1\<lparr>life_of := StartFailed e\<rparr>
         | Inr (peers, h) \<Rightarrow>
             a1\<lparr>life_of := Serving, app_server := set_hub h s,
                mesh_tasks := (if node_mesh_enabled c then map DialTask peers @ [MembershipTask] else [])\<rparr>)"

definition lifespan_stop :: "config \<Rightarrow> app \<Rightarrow> app" where
  "lifespan_stop c a =
     (let s = app_server a
      in case mesh_stop c (srv_mesh s) (srv_hub s) of (m, h) \<Rightarrow>
           a\<lparr>life_of := Stopped, app_server := set_hub h s\<lparr>srv_mesh := m\<rparr>, mesh_tasks := [],
             closed_sockets := dvalues (connections (srv_mesh s)), cleanup_task := Over, metrics_task := Over\<rparr>)"

inductive app_step :: "trust_prims \<Rightarrow> (bytes \<Rightarrow> bool) \<Rightarrow> config \<Rightarrow> app \<Rightarrow> app \<Rightarrow> bool" for P on_curve c where
  starts: "life_of a = Made \<Longrightarrow> app_step P on_curve c a (lifespan_start c a)"
| serves: "life_of a = Serving \<Longrightarrow> server_step P on_curve c (app_server a) effs out s' \<Longrightarrow>
    app_step P on_curve c a (a\<lparr>app_server := s'\<rparr>)"
| stops: "life_of a = Serving \<Longrightarrow> app_step P on_curve c a (lifespan_stop c a)"

inductive_cases app_stepE: "app_step P on_curve c a a'"

section \<open>Lemmas\<close>











section \<open>Properties\<close>




text \<open>With mutual TLS required, a mesh that has started dials every peer over TLS, checked against the
  configured authority and with the configured client certificate.\<close>

theorem mtls_links_protected:
  assumes "mesh_start c m h = Inr (peers, h')" "node_mesh_enabled c" "node_mesh_require_mtls c"
    and "n \<in> set peers" "dget (trusted m) n = Some t"
  shows "ssl_context c (tn_url t) =
    Some \<lparr>tls_ca = Some (node_mesh_ca_file c), tls_client = Some (node_mesh_cert_file c, node_mesh_key_file c)\<rparr>"
proof -
  have "trusted m \<noteq> []" using assms(5) by auto
  then have "list_all (\<lambda>n. is_wss (tn_url n)) (dvalues (trusted m))" "[] \<notin> {node_mesh_ca_file c, node_mesh_cert_file c, node_mesh_key_file c}"
    using assms(1-3) by (auto simp: mesh_start_def rbind_eq_Inr raise_if_def split: if_splits)
  moreover have "t \<in> set (dvalues (trusted m))" using map_of_SomeD [OF assms(5)] by force
  ultimately show ?thesis by (auto simp: ssl_context_def list_all_iff)
qed

text \<open>A node's view outlives the loss of two of its state messages in a row: at the pace of
  \<^verbatim>\<open>_membership_loop\<close> the fourth arrives before the view counts as stale.\<close>

theorem views_outlive_losses:
  assumes "(reporter, node_mesh_membership_epoch c, view, received_at) \<in> set (peer_views m)"
    and "now \<le> received_at + 3 * membership_interval c"
  shows "(reporter, node_mesh_membership_epoch c, view, received_at) \<in> set (fresh_views c now m)"
  using assms by (auto simp: fresh_views_def membership_interval_def)

text \<open>The unit of \<^verbatim>\<open>ru_maxrss\<close> is the byte on macOS, where \<^verbatim>\<open>os.name\<close> is \<^verbatim>\<open>posix\<close> and there is no \<^verbatim>\<open>/proc\<close>: the
  peak is reported 1024 times too large there, because \<^verbatim>\<open>darwin\<close> is a value of \<^verbatim>\<open>sys.platform\<close>.\<close>

lemma macos_peak_scaled:
  "statm_text p = None \<Longrightarrow> max_rss p = Some n \<Longrightarrow> resident_set_bytes E ''posix'' p = 1024 * int n"
  by (simp add: resident_set_bytes_def statm_bytes_def)

text \<open>A start of the mesh that raises leaves the two loops, which were created before it, running, and
  nothing in the application ends them.\<close>

theorem failed_start_leaves_tasks:
  assumes "mesh_start c (srv_mesh (app_server a)) (srv_hub (app_server a)) = Inl e"
    and "(app_step P on_curve c)\<^sup>*\<^sup>* (lifespan_start c a) a'"
  shows "cleanup_task a' = Alive \<and> metrics_task a' = Alive"
  using assms(2)
proof (cases rule: converse_rtranclpE)
  case base
  then show ?thesis using assms(1) by (auto simp: lifespan_start_def)
next
  case (step b)
  then show ?thesis using assms(1) by (auto simp: lifespan_start_def elim: app_stepE)
qed

end
