(* ===== verification/Sockets.thy ===== *)
theory Sockets
  imports Startup Transitions "HOL-Library.Sublist"
begin

text \<open>
  \<^verbatim>\<open>app/ws_io.py\<close> and the socket helpers of \<^verbatim>\<open>app/node_mesh.py\<close>: what comes in, and the
  lock that keeps the frames of several tasks on one socket apart. A task inside
  \<^verbatim>\<open>send_json_frame\<close> or \<^verbatim>\<open>_bounded_send\<close> is a \<open>sender\<close>; every await of it is a point where
  other tasks run, so a send is a sequence of steps. What the transport does with a write is open:
  it may finish, raise, stall or be cancelled.
\<close>

declare map_of_eq_Some_iff [simp del] Some_eq_map_of_iff [simp del]

section \<open>Definitions\<close>

subsection \<open>Receiving on a link\<close>

text \<open>
  \<^verbatim>\<open>_receive_text\<close>: a link is a socket of the framework (the peer dialled) or of the client library
  (this node dialled). \<open>Gone\<close> is \<^verbatim>\<open>WebSocketDisconnect\<close>, \<open>NotText\<close> the \<^verbatim>\<open>ValueError\<close> of a dialled link.
\<close>

datatype link_event = Served ws_event | Dialled "pystr option"
datatype link_fault = Gone int | NotText

definition receive_text :: "nat \<Rightarrow> link_event \<Rightarrow> effect list \<times> (link_fault + pystr)" where
  "receive_text w ev =
     (case ev of
        Served (WsDisconnect code) \<Rightarrow> ([], Inl (Gone code))
      | Served (WsText t) \<Rightarrow> ([], Inr t)
      | Served WsOther \<Rightarrow> ([CloseSocket w 1003 ''text frames required''], Inl (Gone 1003))
      | Dialled (Some t) \<Rightarrow> ([], Inr t)
      | Dialled None \<Rightarrow> ([CloseSocket w 1003 ''text frames required''], Inl NotText))"

subsection \<open>The lock\<close>

text \<open>
  \<^verbatim>\<open>asyncio.Lock\<close>: \<^verbatim>\<open>acquire\<close> takes a free lock that nobody waits for and queues otherwise;
  \<^verbatim>\<open>release\<close> wakes the first in the queue, which takes the lock when it runs.
\<close>

record lock =
  locked :: bool
  waiters :: "nat list"

definition new_lock :: lock where
  "new_lock = \<lparr>locked = False, waiters = []\<rparr>"

definition acquire :: "nat \<Rightarrow> lock \<Rightarrow> bool \<times> lock" where
  "acquire t l =
     (if \<not> locked l \<and> waiters l = [] then (True, l\<lparr>locked := True\<rparr>) else (False, l\<lparr>waiters := waiters l @ [t]\<rparr>))"

definition release :: "lock \<Rightarrow> lock" where
  "release l = l\<lparr>locked := False\<rparr>"

subsection \<open>A send\<close>

text \<open>
  The points at which a sender waits: for the lock, for the transport, for the closing handshake of
  a slow client. \<open>sd_asked\<close> and \<open>sd_ahead\<close> record when it called and how many were before it,
  \<open>sd_got\<close> when it got the lock.
\<close>

datatype send_phase = Waiting | Sending | Closing

record sender =
  sd_frame :: json
  sd_phase :: send_phase
  sd_since :: real
  sd_asked :: real
  sd_ahead :: nat
  sd_got :: real

datatype send_result = Sent | SlowClient | SendRaised | SendCancelled

datatype wire_event = Begins nat json | Ends nat json | Breaks nat json

text \<open>
  What is done about a write that takes too long: \<^verbatim>\<open>send_json_frame\<close> closes the socket,
  \<^verbatim>\<open>_bounded_send\<close> only reports the failure.
\<close>

datatype policy = CloseSlow | GiveUp

record socket =
  send_lock :: "lock option"
  send_timeout :: "real option"
  senders :: "(nat, sender) dict"
  wire :: "wire_event list"
  calls :: "nat list"
  outcomes :: "(nat \<times> send_result) list"
  sock_clock :: real

definition new_socket :: "real option \<Rightarrow> real \<Rightarrow> socket" where
  "new_socket tmo now = \<lparr>send_lock = None, send_timeout = tmo, senders = [], wire = [], calls = [], outcomes = [], sock_clock = now\<rparr>"

definition the_lock :: "socket \<Rightarrow> lock" where
  "the_lock k = (case send_lock k of None \<Rightarrow> new_lock | Some l \<Rightarrow> l)"

text \<open>With the lock: the write begins.\<close>

definition start_write :: "nat \<Rightarrow> sender \<Rightarrow> socket \<Rightarrow> socket" where
  "start_write t s k =
     k\<lparr>senders := dset (senders k) t (s\<lparr>sd_phase := Sending, sd_since := sock_clock k, sd_got := sock_clock k\<rparr>),
       wire := wire k @ [Begins t (sd_frame s)]\<rparr>"

definition call_send :: "nat \<Rightarrow> json \<Rightarrow> socket \<Rightarrow> socket" where
  "call_send t v k =
     (let l = the_lock k;
          s = \<lparr>sd_frame = v, sd_phase = Waiting, sd_since = sock_clock k, sd_asked = sock_clock k,
               sd_ahead = (if locked l \<or> waiters l \<noteq> [] then Suc (length (waiters l)) else 0), sd_got = sock_clock k\<rparr>;
          k1 = k\<lparr>calls := calls k @ [t]\<rparr>
      in case acquire t l of (got, l') \<Rightarrow>
           if got then start_write t s (k1\<lparr>send_lock := Some l'\<rparr>)
           else k1\<lparr>send_lock := Some l', senders := dset (senders k1) t s\<rparr>)"

text \<open>A woken sender runs on and takes the lock.\<close>

definition resume_send :: "nat \<Rightarrow> sender \<Rightarrow> socket \<Rightarrow> socket" where
  "resume_send t s k = start_write t s (k\<lparr>send_lock := Some \<lparr>locked = True, waiters = removeAll t (waiters (the_lock k))\<rparr>\<rparr>)"

text \<open>The end of the \<^verbatim>\<open>async with\<close> block.\<close>

definition finish_send :: "nat \<Rightarrow> wire_event list \<Rightarrow> send_result \<Rightarrow> socket \<Rightarrow> socket" where
  "finish_send t evs r k =
     k\<lparr>send_lock := Some (release (the_lock k)), senders := dpop (senders k) t, wire := wire k @ evs,
       outcomes := outcomes k @ [(t, r)]\<rparr>"

definition time_out_send :: "policy \<Rightarrow> nat \<Rightarrow> sender \<Rightarrow> socket \<Rightarrow> socket" where
  "time_out_send p t s k =
     (case p of
        CloseSlow \<Rightarrow> k\<lparr>senders := dset (senders k) t (s\<lparr>sd_phase := Closing, sd_since := sock_clock k\<rparr>),
                       wire := wire k @ [Breaks t (sd_frame s)]\<rparr>
      | GiveUp \<Rightarrow> finish_send t [Breaks t (sd_frame s)] SendRaised k)"

text \<open>
  A task cancelled while it waits leaves the queue; with the lock, it releases it. The \<^verbatim>\<open>except\<close> clauses
  catch \<^verbatim>\<open>Exception\<close>, of which a cancellation is none.
\<close>

definition cancel_send :: "nat \<Rightarrow> sender \<Rightarrow> socket \<Rightarrow> socket" where
  "cancel_send t s k =
     (case sd_phase s of
        Waiting \<Rightarrow> k\<lparr>send_lock := Some ((the_lock k)\<lparr>waiters := removeAll t (waiters (the_lock k))\<rparr>),
                     senders := dpop (senders k) t, outcomes := outcomes k @ [(t, SendCancelled)]\<rparr>
      | Sending \<Rightarrow> finish_send t [Breaks t (sd_frame s)] SendCancelled k
      | Closing \<Rightarrow> finish_send t [] SendCancelled k)"

text \<open>
  When a timer of a sender runs out: the time-out of the socket while it writes, one second while it
  closes.
\<close>

definition send_deadline :: "socket \<Rightarrow> sender \<Rightarrow> real option" where
  "send_deadline k s =
     (case sd_phase s of
        Waiting \<Rightarrow> None
      | Sending \<Rightarrow> map_option (\<lambda>d. sd_since s + d) (send_timeout k)
      | Closing \<Rightarrow> Some (sd_since s + 1))"

text \<open>
  The steps of a socket. Closing ends by success, by an exception or by its timer, all of which the code
  treats alike; \<open>timed_out\<close> is the timer of a write or a \<^verbatim>\<open>TimeoutError\<close> of the transport itself. Timers fire on time and a woken task runs before time passes: \<open>passes\<close> is how far the
  clock may go.
\<close>

definition may_pass :: "socket \<Rightarrow> real \<Rightarrow> bool" where
  "may_pass k now \<longleftrightarrow>
     list_all (\<lambda>(t, s). case send_deadline k s of None \<Rightarrow> True | Some d \<Rightarrow> now \<le> d) (senders k) \<and>
     (locked (the_lock k) \<or> waiters (the_lock k) = [])"

inductive send_step :: "policy \<Rightarrow> socket \<Rightarrow> socket \<Rightarrow> bool" for p where
  called: "t \<notin> set (calls k) \<Longrightarrow> send_step p k (call_send t v k)"
| resumed: "dget (senders k) t = Some s \<Longrightarrow> \<not> locked (the_lock k) \<Longrightarrow> waiters (the_lock k) = t # rest \<Longrightarrow>
    send_step p k (resume_send t s k)"
| written: "dget (senders k) t = Some s \<Longrightarrow> sd_phase s = Sending \<Longrightarrow>
    send_step p k (finish_send t [Ends t (sd_frame s)] Sent k)"
| refused: "dget (senders k) t = Some s \<Longrightarrow> sd_phase s = Sending \<Longrightarrow>
    send_step p k (finish_send t [Breaks t (sd_frame s)] SendRaised k)"
| timed_out: "dget (senders k) t = Some s \<Longrightarrow> sd_phase s = Sending \<Longrightarrow>
    send_step p k (time_out_send p t s k)"
| closed: "dget (senders k) t = Some s \<Longrightarrow> sd_phase s = Closing \<Longrightarrow>
    send_step p k (finish_send t [] SlowClient k)"
| cancelled: "dget (senders k) t = Some s \<Longrightarrow> send_step p k (cancel_send t s k)"
| passes: "sock_clock k \<le> now \<Longrightarrow> may_pass k now \<Longrightarrow> send_step p k (k\<lparr>sock_clock := now\<rparr>)"

section \<open>One frame at a time\<close>

text \<open>The frames on the wire, and the one that is open.\<close>

fun scan_wire :: "wire_event list \<Rightarrow> (nat \<times> json) option \<Rightarrow> (nat \<times> json) option option" where
  "scan_wire [] op = Some op"
| "scan_wire (Begins t v # evs) op = (if op = None then scan_wire evs (Some (t, v)) else None)"
| "scan_wire (Ends t v # evs) op = (if op = Some (t, v) then scan_wire evs None else None)"
| "scan_wire (Breaks t v # evs) op = (if op = Some (t, v) then scan_wire evs None else None)"

definition begun :: "wire_event list \<Rightarrow> nat list" where
  "begun evs = concat (map (\<lambda>e. case e of Begins t v \<Rightarrow> [t] | _ \<Rightarrow> []) evs)"

lemma scan_append [simp]: "scan_wire (xs @ ys) op = Option.bind (scan_wire xs op) (scan_wire ys)"
  by (induction xs op rule: scan_wire.induct) simp_all

lemma begun_append [simp]: "begun (xs @ ys) = begun xs @ begun ys"
  by (simp add: begun_def)

lemma begun_simps [simp]: "begun [] = []" "begun [Begins t v] = [t]" "begun [Ends t v] = []" "begun [Breaks t v] = []"
  by (simp_all add: begun_def)

text \<open>
  The invariant of a socket. The queue of the lock holds exactly the waiting senders, each once; the
  lock is taken exactly when one sender is past it, and then only one is. A frame that has begun is
  still open exactly while its sender writes.
\<close>

definition phase_of :: "socket \<Rightarrow> nat \<Rightarrow> send_phase option" where
  "phase_of k t = map_option sd_phase (dget (senders k) t)"

definition holder :: "socket \<Rightarrow> nat option \<Rightarrow> bool" where
  "holder k who \<longleftrightarrow> (\<forall>t. phase_of k t \<in> {Some Sending, Some Closing} \<longleftrightarrow> who = Some t)"

definition writing :: "socket \<Rightarrow> (nat \<times> json) option \<Rightarrow> bool" where
  "writing k op \<longleftrightarrow>
     (\<forall>t v. op = Some (t, v) \<longleftrightarrow> (\<exists>s. dget (senders k) t = Some s \<and> sd_phase s = Sending \<and> sd_frame s = v))"

definition lock_inv :: "socket \<Rightarrow> bool" where
  "lock_inv k \<longleftrightarrow>
     distinct (waiters (the_lock k)) \<and>
     (\<forall>t. t \<in> set (waiters (the_lock k)) \<longleftrightarrow> phase_of k t = Some Waiting) \<and>
     (\<exists>who. holder k who \<and> (locked (the_lock k) \<longleftrightarrow> who \<noteq> None))"

definition wire_inv :: "socket \<Rightarrow> bool" where
  "wire_inv k \<longleftrightarrow> (\<exists>op. scan_wire (wire k) None = Some op \<and> writing k op)"

definition order_inv :: "socket \<Rightarrow> bool" where
  "order_inv k \<longleftrightarrow> wf_dict (senders k) \<and> (\<forall>t s. dget (senders k) t = Some s \<longrightarrow> t \<in> set (calls k)) \<and> distinct (calls k) \<and>
     subseq (begun (wire k) @ waiters (the_lock k)) (calls k)"

definition sock_inv :: "socket \<Rightarrow> bool" where
  "sock_inv k \<longleftrightarrow> lock_inv k \<and> wire_inv k \<and> order_inv k"

lemma new_lock_simps [simp]: "the_lock (new_socket tmo now) = new_lock" "locked new_lock = False" "waiters new_lock = []"
  by (simp_all add: the_lock_def new_socket_def new_lock_def)

lemma the_lock_Some [simp]: "send_lock k = Some l \<Longrightarrow> the_lock k = l"
  by (simp add: the_lock_def)

lemma sock_inv_new: "sock_inv (new_socket tmo now)"
  unfolding sock_inv_def lock_inv_def wire_inv_def order_inv_def
  by (simp add: phase_of_def holder_def writing_def) (simp add: new_socket_def)

text \<open>Who holds the lock, and that the others wait.\<close>

lemma lock_inv_free:
  assumes "lock_inv k" "\<not> locked (the_lock k)"
  shows "phase_of k t \<noteq> Some Sending" "phase_of k t \<noteq> Some Closing"
  using assms by (auto simp: lock_inv_def holder_def)

lemma lock_inv_held:
  assumes "lock_inv k" "phase_of k t \<in> {Some Sending, Some Closing}"
  shows "locked (the_lock k)" "holder k (Some t)"
proof -
  obtain who where "holder k who" "locked (the_lock k) \<longleftrightarrow> who \<noteq> None" using assms(1) by (auto simp: lock_inv_def)
  moreover from this(1) have "who = Some t" using assms(2) unfolding holder_def by blast
  ultimately show "locked (the_lock k)" "holder k (Some t)" by simp_all
qed

lemma writing_only: "writing k op \<Longrightarrow> phase_of k t = Some Sending \<Longrightarrow> dget (senders k) t = Some s \<Longrightarrow> op = Some (t, sd_frame s)"
  by (auto simp: writing_def phase_of_def)

lemma writing_none: "writing k op \<Longrightarrow> (\<And>t. phase_of k t \<noteq> Some Sending) \<Longrightarrow> op = None"
  by (cases op) (auto simp: writing_def phase_of_def)

subsection \<open>Steps\<close>

lemma start_write_inv:
  assumes "sock_inv k" "\<not> locked (the_lock k)" "phase_of k t \<in> {None, Some Waiting}"
    and "send_lock k' = Some \<lparr>locked = True, waiters = removeAll t (waiters (the_lock k))\<rparr>"
    and "senders k' = senders k" "wire k' = wire k" "set (calls k) \<subseteq> set (calls k')" "distinct (calls k')" "t \<in> set (calls k')"
    and "subseq (begun (wire k) @ t # removeAll t (waiters (the_lock k))) (calls k')"
  shows "sock_inv (start_write t s k')"
proof -
  have inv: "lock_inv k" "wire_inv k" "order_inv k" using assms(1) by (simp_all add: sock_inv_def)
  have ph: "phase_of (start_write t s k') t' = (if t' = t then Some Sending else phase_of k t')" for t'
    by (simp add: phase_of_def start_write_def assms(5) dict_simps)
  have free: "phase_of k t' \<noteq> Some Sending \<and> phase_of k t' \<noteq> Some Closing" for t'
    using lock_inv_free [OF inv(1) assms(2)] by blast
  have lk: "the_lock (start_write t s k') = \<lparr>locked = True, waiters = removeAll t (waiters (the_lock k))\<rparr>"
    using assms(4) by (simp add: start_write_def the_lock_def)
  have "lock_inv (start_write t s k')"
    unfolding lock_inv_def lk ph holder_def using inv(1) free
    by (auto simp: lock_inv_def distinct_removeAll intro!: exI [of _ "Some t"])
  moreover obtain op where op: "scan_wire (wire k) None = Some op" "writing k op" using inv(2) by (auto simp: wire_inv_def)
  then have "op = None" using writing_none free by blast
  then have "wire_inv (start_write t s k')"
    using op free unfolding wire_inv_def
    by (auto simp: start_write_def writing_def assms(5,6) dict_simps phase_of_def)
  moreover have "order_inv (start_write t s k')"
    using inv(3) assms(5-10) lk by (auto simp: order_inv_def start_write_def dict_simps)
  ultimately show ?thesis by (simp add: sock_inv_def)
qed

lemma called_inv:
  assumes "sock_inv k" "t \<notin> set (calls k)"
  shows "sock_inv (call_send t v k)"
proof -
  have inv: "lock_inv k" "wire_inv k" "order_inv k" using assms(1) by (simp_all add: sock_inv_def)
  have new: "dget (senders k) t = None" using inv(3) assms(2) by (cases "dget (senders k) t") (auto simp: order_inv_def)
  have w: "t \<notin> set (waiters (the_lock k))" using inv(1) new by (auto simp: lock_inv_def phase_of_def)
  have sub: "subseq (begun (wire k) @ waiters (the_lock k) @ [t]) (calls k @ [t])"
    using list_emb_append_mono [of "(=)" "begun (wire k) @ waiters (the_lock k)" "calls k" "[t]" "[t]"] inv(3)
    by (simp add: order_inv_def)
  show ?thesis
  proof (cases "\<not> locked (the_lock k) \<and> waiters (the_lock k) = []")
    case True
    then have "(the_lock k)\<lparr>locked := True\<rparr> = \<lparr>locked = True, waiters = removeAll t (waiters (the_lock k))\<rparr>"
      by (cases "the_lock k") simp
    then have "sock_inv (start_write t s (k\<lparr>calls := calls k @ [t], send_lock := Some ((the_lock k)\<lparr>locked := True\<rparr>)\<rparr>))" for s
      by (intro start_write_inv [OF assms(1)]) (use inv(3) new assms(2) sub True in \<open>simp_all add: order_inv_def phase_of_def subset_iff\<close>)
    then show ?thesis using True unfolding call_send_def Let_def acquire_def by simp
  next
    case False
    obtain l s where c: "call_send t v k = k\<lparr>calls := calls k @ [t], send_lock := Some l, senders := dset (senders k) t s\<rparr>"
      "l = (the_lock k)\<lparr>waiters := waiters (the_lock k) @ [t]\<rparr>" "sd_phase s = Waiting"
      using False unfolding call_send_def Let_def acquire_def by (simp split: if_splits)
    have ph: "phase_of (call_send t v k) t' = (if t' = t then Some Waiting else phase_of k t')" for t'
      by (simp add: phase_of_def c dict_simps)
    have lk: "the_lock (call_send t v k) = l" by (simp add: c(1) the_lock_def)
    have pt: "phase_of k t = None" using new by (simp add: phase_of_def)
    have "holder (call_send t v k) who = holder k who" for who
      unfolding holder_def ph by (rule all_cong1) (simp add: pt)
    then have "lock_inv (call_send t v k)"
      unfolding lock_inv_def lk c(2) using inv(1) w by (simp add: lock_inv_def ph)
    moreover have "writing (call_send t v k) op = writing k op" for op
      using new c(3) unfolding writing_def by (intro all_cong1) (auto simp: c(1) dict_simps)
    then have "wire_inv (call_send t v k)" using inv(2) by (simp add: wire_inv_def c(1))
    moreover have "order_inv (call_send t v k)"
      using inv(3) assms(2) sub lk c by (auto simp: order_inv_def dict_simps)
    ultimately show ?thesis by (simp add: sock_inv_def)
  qed
qed

lemma finish_inv:
  assumes "sock_inv k" "dget (senders k) t = Some s" "sd_phase s = Sending \<and> evs \<in> {[Ends t (sd_frame s)], [Breaks t (sd_frame s)]}
      \<or> sd_phase s = Closing \<and> evs = []"
  shows "sock_inv (finish_send t evs r k)"
proof -
  have inv: "lock_inv k" "wire_inv k" "order_inv k" using assms(1) by (simp_all add: sock_inv_def)
  have pt: "phase_of k t \<in> {Some Sending, Some Closing}" using assms(2,3) by (auto simp: phase_of_def)
  have held: "holder k (Some t)" using lock_inv_held [OF inv(1) pt] by simp
  have lk: "the_lock (finish_send t evs r k) = release (the_lock k)" by (simp add: finish_send_def the_lock_def)
  have ph: "phase_of (finish_send t evs r k) t' = (if t' = t then None else phase_of k t')" for t'
    by (simp add: phase_of_def finish_send_def dict_simps)
  have "holder (finish_send t evs r k) None" using held unfolding holder_def ph by auto
  then have "lock_inv (finish_send t evs r k)"
    using inv(1) pt unfolding lock_inv_def lk by (auto simp: ph release_def)
  moreover have "wire_inv (finish_send t evs r k)"
  proof -
    obtain op where op: "scan_wire (wire k) None = Some op" "writing k op" using inv(2) by (auto simp: wire_inv_def)
    have "sd_phase s = Sending \<Longrightarrow> op = Some (t, sd_frame s)"
      using writing_only [OF op(2) _ assms(2)] assms(2) by (simp add: phase_of_def)
    moreover have "op = None" if c: "sd_phase s = Closing"
    proof (rule writing_none [OF op(2)])
      show "phase_of k t' \<noteq> Some Sending" for t'
        using held c assms(2) unfolding holder_def by (cases "t' = t") (auto simp: phase_of_def)
    qed
    ultimately have "op = (if sd_phase s = Sending then Some (t, sd_frame s) else None)" using assms(3) by auto
    then have "scan_wire (wire (finish_send t evs r k)) None = Some None"
      using op(1) assms(3) by (auto simp: finish_send_def)
    moreover have "writing (finish_send t evs r k) None"
      using held by (fastforce simp: writing_def finish_send_def dict_simps holder_def phase_of_def split: if_splits)
    ultimately show ?thesis by (auto simp: wire_inv_def)
  qed
  moreover have "order_inv (finish_send t evs r k)"
    using inv(3) assms(3) lk by (auto simp: order_inv_def finish_send_def dict_simps release_def)
  ultimately show ?thesis by (simp add: sock_inv_def)
qed

lemma closing_inv:
  assumes "sock_inv k" "dget (senders k) t = Some s" "sd_phase s = Sending"
  shows "sock_inv (time_out_send CloseSlow t s k)"
proof -
  let ?k = "time_out_send CloseSlow t s k"
  have inv: "lock_inv k" "wire_inv k" "order_inv k" using assms(1) by (simp_all add: sock_inv_def)
  have pt: "phase_of k t = Some Sending" using assms(2,3) by (simp add: phase_of_def)
  have held: "holder k (Some t)" using lock_inv_held [OF inv(1)] pt by simp
  have lk: "the_lock ?k = the_lock k" by (simp add: time_out_send_def the_lock_def)
  have ph: "phase_of ?k t' = (if t' = t then Some Closing else phase_of k t')" for t'
    by (simp add: phase_of_def time_out_send_def dict_simps)
  have "holder ?k (Some t)" using held unfolding holder_def ph by auto
  then have "lock_inv ?k" using inv(1) pt lock_inv_held(1) [OF inv(1), of t] unfolding lock_inv_def lk by (auto simp: ph)
  moreover obtain op where op: "scan_wire (wire k) None = Some op" "writing k op" using inv(2) by (auto simp: wire_inv_def)
  have "op = Some (t, sd_frame s)" using writing_only [OF op(2) pt assms(2)] .
  with op(1) have "scan_wire (wire ?k) None = Some None" by (simp add: time_out_send_def)
  moreover have "writing ?k None"
    using held by (fastforce simp: writing_def time_out_send_def dict_simps holder_def phase_of_def split: if_splits)
  moreover have "order_inv ?k"
    using inv(3) assms(2) lk by (auto simp: order_inv_def time_out_send_def dict_simps dest: dget_Some_key)
  ultimately show ?thesis by (auto simp: sock_inv_def wire_inv_def)
qed

lemma leave_queue_inv:
  assumes "sock_inv k" "dget (senders k) t = Some s" "sd_phase s = Waiting"
  shows "sock_inv (cancel_send t s k)"
proof -
  let ?k = "cancel_send t s k"
  have inv: "lock_inv k" "wire_inv k" "order_inv k" using assms(1) by (simp_all add: sock_inv_def)
  have pt: "phase_of k t = Some Waiting" using assms(2,3) by (simp add: phase_of_def)
  have lk: "the_lock ?k = (the_lock k)\<lparr>waiters := removeAll t (waiters (the_lock k))\<rparr>"
    using assms(3) by (simp add: cancel_send_def the_lock_def)
  have ph: "phase_of ?k t' = (if t' = t then None else phase_of k t')" for t'
    using assms(3) by (simp add: phase_of_def cancel_send_def dict_simps)
  have "holder ?k who = holder k who" for who
    unfolding holder_def ph by (rule all_cong1) (simp add: pt)
  then have "lock_inv ?k" using inv(1) pt unfolding lock_inv_def lk by (simp add: ph distinct_removeAll)
  moreover have "writing ?k op = writing k op" for op
    using assms(2,3) unfolding writing_def by (intro all_cong1) (auto simp: cancel_send_def dict_simps)
  then have "wire_inv ?k" using inv(2) assms(3) by (simp add: wire_inv_def cancel_send_def)
  moreover have "subseq (begun (wire k) @ removeAll t (waiters (the_lock k))) (begun (wire k) @ waiters (the_lock k))"
    by (intro list_emb_append_mono) (simp_all add: removeAll_filter_not_eq subseq_filter_left)
  then have "order_inv ?k"
    using inv(3) assms(3) lk by (auto simp: order_inv_def cancel_send_def dict_simps intro: subseq_order.order_trans)
  ultimately show ?thesis by (simp add: sock_inv_def)
qed

lemma resume_inv:
  assumes "sock_inv k" "dget (senders k) t = Some s" "\<not> locked (the_lock k)" "waiters (the_lock k) = t # rest"
  shows "sock_inv (resume_send t s k)"
proof -
  have inv: "lock_inv k" "order_inv k" using assms(1) by (simp_all add: sock_inv_def)
  have "t \<notin> set rest" using inv(1) assms(4) by (simp add: lock_inv_def)
  then have "removeAll t (waiters (the_lock k)) = rest" using assms(4) by simp
  moreover have "phase_of k t = Some Waiting" using inv(1) assms(4) by (auto simp: lock_inv_def)
  ultimately show ?thesis
    using inv(2) assms(2,4) unfolding resume_send_def
    by (intro start_write_inv [OF assms(1,3)]) (auto simp: order_inv_def)
qed

lemma sock_inv_step: "send_step p k k' \<Longrightarrow> sock_inv k \<Longrightarrow> sock_inv k'"
proof (induction rule: send_step.induct)
  case (timed_out k t s)
  then show ?case
    by (cases p) (auto intro: closing_inv finish_inv simp: time_out_send_def [of GiveUp])
next
  case (cancelled k t s)
  then show ?case
    using leave_queue_inv [OF cancelled(2,1)]
    by (cases "sd_phase s") (auto intro: finish_inv simp: cancel_send_def)
next
  case (passes k now)
  then show ?case
    by (simp add: sock_inv_def lock_inv_def wire_inv_def order_inv_def phase_of_def holder_def writing_def the_lock_def)
qed (auto intro: called_inv resume_inv finish_inv)

interpretation sock: preserved "send_step p" sock_inv for p
  by unfold_locales (rule sock_inv_step)

section \<open>How long a frame waits\<close>

text \<open>
  With a time-out of \<open>T\<close> seconds nobody keeps the lock longer than \<open>T + 1\<close>; so a waiting sender with \<open>i\<close>
  others before it in the queue now and \<open>n\<close> at its call has waited for at most \<open>n - i\<close> of them.
\<close>

definition held_ok :: "real \<Rightarrow> real \<Rightarrow> sender \<Rightarrow> bool" where
  "held_ok T now s \<longleftrightarrow>
     sd_got s \<le> now \<and> sd_got s \<le> sd_asked s + real (sd_ahead s) * (T + 1) \<and>
     (if sd_phase s = Sending then sd_since s = sd_got s \<and> now \<le> sd_since s + T
      else sd_since s \<le> sd_got s + T \<and> now \<le> sd_since s + 1)"

fun waits_ok :: "(nat \<Rightarrow> sender option) \<Rightarrow> real \<Rightarrow> real \<Rightarrow> nat \<Rightarrow> nat list \<Rightarrow> bool" where
  "waits_ok look T x i [] = True"
| "waits_ok look T x i (t # ts) =
     ((case look t of
         None \<Rightarrow> False
       | Some s \<Rightarrow> i < sd_ahead s \<and> x \<le> sd_asked s + real (sd_ahead s - 1 - i) * (T + 1)) \<and>
      waits_ok look T x (Suc i) ts)"

definition wait_inv :: "real \<Rightarrow> socket \<Rightarrow> bool" where
  "wait_inv T k \<longleftrightarrow>
     (\<forall>t s. dget (senders k) t = Some s \<longrightarrow> sd_phase s \<noteq> Waiting \<longrightarrow>
        held_ok T (sock_clock k) s \<and> waits_ok (dget (senders k)) T (sd_got s) 0 (waiters (the_lock k))) \<and>
     (\<not> locked (the_lock k) \<longrightarrow> waits_ok (dget (senders k)) T (sock_clock k - (T + 1)) 0 (waiters (the_lock k)))"

lemma held_time: "held_ok T now s \<Longrightarrow> 0 \<le> T \<Longrightarrow> now \<le> sd_got s + (T + 1)"
  by (auto simp: held_ok_def split: if_splits)

lemma waits_cong: "(\<And>t. t \<in> set w \<Longrightarrow> look t = look' t) \<Longrightarrow> waits_ok look T x i w = waits_ok look' T x i w"
  by (induction w arbitrary: i) auto

lemma waits_mono: "waits_ok look T x i w \<Longrightarrow> x' \<le> x \<Longrightarrow> waits_ok look T x' i w"
  by (induction w arbitrary: i) (auto split: option.splits)

lemma waits_shift:
  assumes "0 \<le> T"
  shows "waits_ok look T x (Suc i) w \<Longrightarrow> waits_ok look T (x + (T + 1)) i w"
proof (induction w arbitrary: i)
  case (Cons t w)
  then obtain s where s: "look t = Some s" "Suc i < sd_ahead s" "x \<le> sd_asked s + real (sd_ahead s - 1 - Suc i) * (T + 1)"
    by (auto split: option.splits)
  then obtain n where "sd_ahead s = Suc (Suc (i + n))" by (auto simp: less_iff_Suc_add)
  then have "x + (T + 1) \<le> sd_asked s + real (sd_ahead s - 1 - i) * (T + 1)" using s(3) by (simp add: algebra_simps)
  with s Cons show ?case by simp
qed simp

lemma waits_earlier: "0 \<le> T \<Longrightarrow> waits_ok look T x (Suc i) w \<Longrightarrow> waits_ok look T x i w"
  using waits_shift waits_mono [of look T "x + (T + 1)" i w x] by simp

lemma waits_remove: "0 \<le> T \<Longrightarrow> waits_ok look T x i w \<Longrightarrow> waits_ok look T x i (removeAll t w)"
  by (induction w arbitrary: i) (auto intro: waits_earlier)

lemma waits_append:
  "waits_ok look T x i (w @ [t]) \<longleftrightarrow> waits_ok look T x i w \<and>
     (\<exists>s. look t = Some s \<and> i + length w < sd_ahead s \<and> x \<le> sd_asked s + real (sd_ahead s - 1 - (i + length w)) * (T + 1))"
  by (induction w arbitrary: i) (auto split: option.splits)

lemma wait_inv_new: "wait_inv T (new_socket (Some T) now)"
  by (simp add: wait_inv_def) (simp add: new_socket_def)

text \<open>The sender that begins to write: when its call was, and that the rest of the queue moves up.\<close>

lemma start_wait:
  assumes "0 \<le> T" "sock_inv k" "\<not> locked (the_lock k)" "t \<notin> set w"
    and "the_lock k' = \<lparr>locked = True, waiters = w\<rparr>" "senders k' = senders k" "sock_clock k' = sock_clock k"
    and "sock_clock k \<le> sd_asked s + real (sd_ahead s) * (T + 1)" "waits_ok (dget (senders k)) T (sock_clock k) 0 w"
  shows "wait_inv T (start_write t s k')"
proof -
  have free: "dget (senders k) t' = Some s' \<Longrightarrow> sd_phase s' = Waiting" for t' s'
    using lock_inv_free [of k t'] assms(2,3) by (cases "sd_phase s'") (auto simp: sock_inv_def phase_of_def)
  have lk: "the_lock (start_write t s k') = \<lparr>locked = True, waiters = w\<rparr>"
    using assms(5) by (simp add: start_write_def the_lock_def)
  define look where "look = dget (senders (start_write t s k'))"
  have look: "look t' = (if t' = t then Some (s\<lparr>sd_phase := Sending, sd_since := sock_clock k, sd_got := sock_clock k\<rparr>)
      else dget (senders k) t')" for t'
    by (simp add: look_def start_write_def assms(6,7) dict_simps)
  have "waits_ok look T (sock_clock k) 0 w"
    using assms(9,4) by (subst waits_cong [of _ _ "dget (senders k)"]) (auto simp: look)
  moreover have "sock_clock (start_write t s k') = sock_clock k" by (simp add: start_write_def assms(7))
  ultimately show ?thesis
    using assms(1,8) free unfolding wait_inv_def lk look_def [symmetric]
    by (auto simp: look held_ok_def split: if_splits)
qed

lemma called_wait:
  assumes "0 \<le> T" "sock_inv k" "wait_inv T k" "t \<notin> set (calls k)"
  shows "wait_inv T (call_send t v k)"
proof (cases "\<not> locked (the_lock k) \<and> waiters (the_lock k) = []")
  case True
  have "(the_lock k)\<lparr>locked := True\<rparr> = \<lparr>locked = True, waiters = []\<rparr>" using True by (cases "the_lock k") simp
  then have "wait_inv T (start_write t s (k\<lparr>calls := calls k @ [t], send_lock := Some ((the_lock k)\<lparr>locked := True\<rparr>)\<rparr>))"
    if "sd_asked s = sock_clock k" for s
    by (intro start_wait [where k = k and w = "[]"]) (use assms True that in \<open>simp_all add: the_lock_def\<close>)
  with True show ?thesis unfolding call_send_def Let_def acquire_def by simp
next
  case False
  let ?w = "waiters (the_lock k)"
  obtain l s where c: "call_send t v k = k\<lparr>calls := calls k @ [t], send_lock := Some l, senders := dset (senders k) t s\<rparr>"
    "l = (the_lock k)\<lparr>waiters := ?w @ [t]\<rparr>" "sd_phase s = Waiting" "sd_asked s = sock_clock k" "sd_ahead s = Suc (length ?w)"
    using False unfolding call_send_def Let_def acquire_def by (simp split: if_splits)
  have lk: "the_lock (call_send t v k) = l" by (simp add: c(1) the_lock_def)
  have new: "dget (senders k) t = None" using assms(2,4) by (cases "dget (senders k) t") (auto simp: sock_inv_def order_inv_def)
  then have w: "t \<notin> set ?w" using assms(2) by (auto simp: sock_inv_def lock_inv_def phase_of_def)
  define look where "look = dget (senders (call_send t v k))"
  have look: "look t' = (if t' = t then Some s else dget (senders k) t')" for t'
    by (simp add: look_def c(1) dict_simps)
  have queued: "waits_ok look T x 0 (?w @ [t])" if "waits_ok (dget (senders k)) T x 0 ?w" "x \<le> sock_clock k" for x
  proof -
    have "waits_ok look T x 0 ?w"
      using that(1) w by (subst waits_cong [of _ _ "dget (senders k)"]) (auto simp: look)
    then show ?thesis using that(2) c(4,5) by (simp add: waits_append look)
  qed
  have "held_ok T (sock_clock k) s' \<Longrightarrow> sd_got s' \<le> sock_clock k" for s' by (simp add: held_ok_def)
  moreover have "sock_clock (call_send t v k) = sock_clock k" by (simp add: c(1))
  ultimately show ?thesis
    using assms(1,3) queued c(3) unfolding wait_inv_def lk c(2) look_def [symmetric]
    by (auto simp: look split: if_splits)
qed

lemma resume_wait:
  assumes "0 \<le> T" "sock_inv k" "wait_inv T k" "dget (senders k) t = Some s" "\<not> locked (the_lock k)" "waiters (the_lock k) = t # rest"
  shows "wait_inv T (resume_send t s k)"
proof -
  have t: "t \<notin> set rest" using assms(2,6) by (simp add: sock_inv_def lock_inv_def)
  have q: "waits_ok (dget (senders k)) T (sock_clock k - (T + 1)) 0 (t # rest)"
    using assms(3,5,6) by (simp add: wait_inv_def)
  then obtain n where "sd_ahead s = Suc n" using assms(4) by (cases "sd_ahead s") simp_all
  then have "sock_clock k \<le> sd_asked s + real (sd_ahead s) * (T + 1)" using q assms(4) by (simp add: algebra_simps)
  moreover have "waits_ok (dget (senders k)) T (sock_clock k) 0 rest"
    using waits_shift [OF assms(1), of "dget (senders k)" "sock_clock k - (T + 1)" 0 rest] q by simp
  ultimately show ?thesis
    unfolding resume_send_def using t assms(6)
    by (intro start_wait [OF assms(1,2,5) t]) (simp_all add: the_lock_def)
qed

lemma finish_wait:
  assumes "0 \<le> T" "sock_inv k" "wait_inv T k" "dget (senders k) t = Some s" "sd_phase s \<noteq> Waiting"
  shows "wait_inv T (finish_send t evs r k)"
proof -
  let ?k = "finish_send t evs r k"
  have inv: "lock_inv k" using assms(2) by (simp add: sock_inv_def)
  have pt: "phase_of k t \<in> {Some Sending, Some Closing}" using assms(4,5) by (cases "sd_phase s") (simp_all add: phase_of_def)
  have held: "holder k (Some t)" using lock_inv_held [OF inv pt] by simp
  have w: "t \<notin> set (waiters (the_lock k))" using inv pt by (auto simp: lock_inv_def)
  have "waits_ok (dget (senders k)) T (sd_got s) 0 (waiters (the_lock k))" "held_ok T (sock_clock k) s"
    using assms(3-5) by (auto simp: wait_inv_def)
  then have "waits_ok (dget (senders k)) T (sock_clock k - (T + 1)) 0 (waiters (the_lock k))"
    using held_time [OF _ assms(1)] by (force elim: waits_mono)
  then have "waits_ok (dget (senders ?k)) T (sock_clock k - (T + 1)) 0 (waiters (the_lock k))"
    using w by (subst waits_cong [of _ _ "dget (senders k)"]) (auto simp: finish_send_def dict_simps)
  moreover have "dget (senders ?k) t' = Some s' \<Longrightarrow> sd_phase s' = Waiting" for t' s'
    using held unfolding holder_def
    by (cases "sd_phase s'") (auto simp: finish_send_def dict_simps phase_of_def split: if_splits)
  moreover have "waiters (the_lock ?k) = waiters (the_lock k)" "sock_clock ?k = sock_clock k"
    by (simp_all add: finish_send_def the_lock_def release_def)
  ultimately show ?thesis by (auto simp: wait_inv_def)
qed

lemma closing_wait:
  assumes "0 \<le> T" "sock_inv k" "wait_inv T k" "dget (senders k) t = Some s" "sd_phase s = Sending"
  shows "wait_inv T (time_out_send CloseSlow t s k)"
proof -
  let ?k = "time_out_send CloseSlow t s k"
  have inv: "lock_inv k" using assms(2) by (simp add: sock_inv_def)
  have pt: "phase_of k t = Some Sending" using assms(4,5) by (simp add: phase_of_def)
  have w: "t \<notin> set (waiters (the_lock k))" using inv pt by (auto simp: lock_inv_def)
  define look where "look = dget (senders ?k)"
  have look: "look t' = (if t' = t then Some (s\<lparr>sd_phase := Closing, sd_since := sock_clock k\<rparr>) else dget (senders k) t')" for t'
    by (simp add: look_def time_out_send_def dict_simps)
  have q: "waits_ok look T x 0 (waiters (the_lock k)) = waits_ok (dget (senders k)) T x 0 (waiters (the_lock k))" for x
    using w by (intro waits_cong) (auto simp: look)
  have "held_ok T (sock_clock k) s" using assms(3-5) by (auto simp: wait_inv_def)
  then have "held_ok T (sock_clock k) (s\<lparr>sd_phase := Closing, sd_since := sock_clock k\<rparr>)" using assms(5) by (simp add: held_ok_def)
  moreover have "the_lock ?k = the_lock k" "sock_clock ?k = sock_clock k" by (simp_all add: time_out_send_def the_lock_def)
  ultimately show ?thesis
    using assms(3-5) unfolding wait_inv_def look_def [symmetric] by (auto simp: look q split: if_splits)
qed

lemma leave_queue_wait:
  assumes "0 \<le> T" "wait_inv T k" "dget (senders k) t = Some s" "sd_phase s = Waiting"
  shows "wait_inv T (cancel_send t s k)"
proof -
  let ?k = "cancel_send t s k" and ?w = "removeAll t (waiters (the_lock k))"
  have lk: "the_lock ?k = (the_lock k)\<lparr>waiters := ?w\<rparr>" "sock_clock ?k = sock_clock k"
    using assms(4) by (simp_all add: cancel_send_def the_lock_def)
  define look where "look = dget (senders ?k)"
  have look: "look t' = (if t' = t then None else dget (senders k) t')" for t'
    using assms(4) by (simp add: look_def cancel_send_def dict_simps)
  have "waits_ok look T x 0 ?w" if h: "waits_ok (dget (senders k)) T x 0 (waiters (the_lock k))" for x
    using waits_remove [OF assms(1) h, of t] by (subst waits_cong [of _ _ "dget (senders k)"]) (auto simp: look)
  with assms(2) lk show ?thesis
    unfolding wait_inv_def look_def [symmetric] by (auto simp: look split: if_splits)
qed

lemma passes_wait:
  assumes "wait_inv T k" "send_timeout k = Some T" "sock_clock k \<le> now" "may_pass k now"
  shows "wait_inv T (k\<lparr>sock_clock := now\<rparr>)"
proof -
  have "held_ok T now s" if h: "dget (senders k) t = Some s" "sd_phase s \<noteq> Waiting" for t s
  proof -
    have "held_ok T (sock_clock k) s" using assms(1) h by (auto simp: wait_inv_def)
    moreover have "case send_deadline k s of None \<Rightarrow> True | Some d \<Rightarrow> now \<le> d"
      using assms(4) map_of_SomeD [OF h(1)] by (auto simp: may_pass_def list_all_iff)
    ultimately show ?thesis
      using h(2) assms(2,3) by (cases "sd_phase s") (auto simp: held_ok_def send_deadline_def)
  qed
  with assms(1,4) show ?thesis by (auto simp: wait_inv_def may_pass_def the_lock_def)
qed

definition timed_inv :: "real \<Rightarrow> socket \<Rightarrow> bool" where
  "timed_inv T k \<longleftrightarrow> sock_inv k \<and> send_timeout k = Some T \<and> 0 \<le> T \<and> wait_inv T k"

lemma timeout_kept: "send_step p k k' \<Longrightarrow> send_timeout k' = send_timeout k"
  by (induction rule: send_step.induct)
    (auto simp: call_send_def Let_def acquire_def resume_send_def start_write_def finish_send_def time_out_send_def
      cancel_send_def split: policy.splits send_phase.splits)

lemma wait_inv_step:
  assumes "send_step p k k'" "timed_inv T k"
  shows "wait_inv T k'"
  using assms
proof (induction rule: send_step.induct)
  case (timed_out k t s)
  then show ?case
    using closing_wait [of T k t s] finish_wait [of T k t s]
    by (cases p) (auto simp: timed_inv_def time_out_send_def [of GiveUp])
next
  case (cancelled k t s)
  then show ?case
    using leave_queue_wait [of T k t s] finish_wait [of T k t s]
    by (cases "sd_phase s") (auto simp: timed_inv_def cancel_send_def)
next
  case (passes k now)
  then show ?case by (auto simp: timed_inv_def intro: passes_wait)
qed (auto simp: timed_inv_def intro: called_wait resume_wait finish_wait)

lemma timed_inv_step: "send_step p k k' \<Longrightarrow> timed_inv T k \<Longrightarrow> timed_inv T k'"
  using wait_inv_step [of p k k' T] sock_inv_step [of p k k'] timeout_kept [of p k k'] by (simp add: timed_inv_def)

interpretation timed: preserved "send_step p" "timed_inv T" for p T
  by unfold_locales (rule timed_inv_step)

section \<open>Properties\<close>

text \<open>What was reported as sent is what the transport took.\<close>

definition report_inv :: "socket \<Rightarrow> bool" where
  "report_inv k \<longleftrightarrow> (\<forall>t. (t, Sent) \<in> set (outcomes k) \<longleftrightarrow> (\<exists>v. Ends t v \<in> set (wire k)))"

lemma report_inv_step: "send_step p k k' \<Longrightarrow> report_inv k \<Longrightarrow> report_inv k'"
  by (induction rule: send_step.induct)
    (auto simp: report_inv_def call_send_def Let_def acquire_def resume_send_def start_write_def finish_send_def
      time_out_send_def cancel_send_def split: policy.splits send_phase.splits)

lemma waits_member:
  assumes "0 \<le> T"
  shows "waits_ok look T (x - (T + 1)) i w \<Longrightarrow> t \<in> set w \<Longrightarrow>
    \<exists>s. look t = Some s \<and> x - sd_asked s \<le> real (sd_ahead s) * (T + 1)"
proof (induction w arbitrary: i)
  case (Cons t' w)
  show ?case
  proof (cases "t = t'")
    case True
    then obtain s where s: "look t = Some s" "i < sd_ahead s" "x - (T + 1) \<le> sd_asked s + real (sd_ahead s - 1 - i) * (T + 1)"
      using Cons.prems(1) by (auto split: option.splits)
    have "real (sd_ahead s - 1 - i) * (T + 1) \<le> real (sd_ahead s - 1) * (T + 1)"
      using assms by (intro mult_right_mono) simp_all
    moreover obtain n where "sd_ahead s = Suc n" using s(2) by (cases "sd_ahead s") simp_all
    ultimately show ?thesis using s(1,3) by (simp add: algebra_simps)
  qed (use Cons in auto)
qed simp

lemma turn_wait:
  assumes "0 \<le> T" "sock_inv k" "wait_inv T k"
  shows "waits_ok (dget (senders k)) T (sock_clock k - (T + 1)) 0 (waiters (the_lock k))"
proof (cases "locked (the_lock k)")
  case True
  then obtain t where "holder k (Some t)" using assms(2) by (auto simp: sock_inv_def lock_inv_def)
  then have "phase_of k t \<in> {Some Sending, Some Closing}" by (simp add: holder_def)
  then obtain s where s: "dget (senders k) t = Some s" "sd_phase s \<noteq> Waiting" by (auto simp: phase_of_def)
  then have h: "held_ok T (sock_clock k) s" "waits_ok (dget (senders k)) T (sd_got s) 0 (waiters (the_lock k))"
    using assms(3) by (auto simp: wait_inv_def)
  from waits_mono [OF h(2)] show ?thesis using held_time [OF h(1) assms(1)] by simp
qed (use assms(3) in \<open>simp add: wait_inv_def\<close>)

interpretation reports: preserved "send_step p" report_inv for p
  by unfold_locales (rule report_inv_step)

lemma scan_next:
  assumes "scan_wire (xs @ Begins t v # e # ys) None \<noteq> None"
  shows "e \<in> {Ends t v, Breaks t v}"
proof -
  obtain op where "scan_wire (Begins t v # e # ys) op \<noteq> None"
    using assms by (cases "scan_wire xs None") auto
  then show ?thesis by (cases e) (auto split: if_splits)
qed

lemma holder_alone:
  assumes "sock_inv k"
  shows "length (filter (\<lambda>(t, s). sd_phase s \<noteq> Waiting) (senders k)) \<le> 1"
proof -
  let ?hs = "filter (\<lambda>(t, s). sd_phase s \<noteq> Waiting) (senders k)"
  have wf: "wf_dict (senders k)" using assms by (simp add: sock_inv_def order_inv_def)
  obtain who where who: "holder k who" using assms by (auto simp: sock_inv_def lock_inv_def)
  have "who = Some t" if h: "(t, s) \<in> set ?hs" for t s
  proof -
    have "phase_of k t = Some (sd_phase s)" "sd_phase s \<noteq> Waiting" using h dget_in_set [OF wf] by (auto simp: phase_of_def)
    then show ?thesis using who unfolding holder_def by (cases "sd_phase s") auto
  qed
  then have "set (map fst ?hs) \<subseteq> set_option who" by force
  then have "card (set (map fst ?hs)) \<le> card (set_option who)" by (rule card_mono [rotated]) simp
  moreover have "card (set_option who) \<le> 1" by (cases who) simp_all
  moreover have "distinct (map fst ?hs)" using wf by blast
  ultimately show ?thesis using distinct_card [of "map fst ?hs"] by simp
qed

text \<open>C25: However the tasks that write to one socket interleave, stall, fail or are cancelled: a frame
  that has begun is ended or abandoned before the next begins, at most one task is writing, the
  frames begin in the order of the calls, and exactly the frames the transport took are reported as
  sent.\<close>

theorem frames_whole:
  assumes "(send_step p)\<^sup>*\<^sup>* (new_socket tmo now) k"
  shows "(\<forall>xs t v e ys. wire k = xs @ Begins t v # e # ys \<longrightarrow> e \<in> {Ends t v, Breaks t v}) \<and>
    length (filter (\<lambda>(t, s). sd_phase s \<noteq> Waiting) (senders k)) \<le> 1 \<and>
    subseq (begun (wire k)) (calls k) \<and>
    (\<forall>t. (t, Sent) \<in> set (outcomes k) \<longleftrightarrow> (\<exists>v. Ends t v \<in> set (wire k)))"
proof (intro conjI)
  have inv: "sock_inv k" using sock.run_inv [OF assms sock_inv_new] .
  then show "\<forall>xs t v e ys. wire k = xs @ Begins t v # e # ys \<longrightarrow> e \<in> {Ends t v, Breaks t v}"
    using scan_next unfolding sock_inv_def wire_inv_def by (metis option.distinct(1))
  show "length (filter (\<lambda>(t, s). sd_phase s \<noteq> Waiting) (senders k)) \<le> 1"
    using inv by (intro holder_alone)
  have "subseq (begun (wire k)) (begun (wire k) @ waiters (the_lock k))" by (rule subseq_rev_drop_many) simp
  then show "subseq (begun (wire k)) (calls k)"
    using inv subseq_order.order_trans unfolding sock_inv_def order_inv_def by blast
  have "report_inv (new_socket tmo now)" by (simp add: report_inv_def new_socket_def)
  from reports.run_inv [OF assms this]
  show "\<forall>t. (t, Sent) \<in> set (outcomes k) \<longleftrightarrow> (\<exists>v. Ends t v \<in> set (wire k))" by (simp add: report_inv_def)
qed

text \<open>Two tasks on one socket: the second waits while the first writes.\<close>

definition ex_socket :: socket where
  "ex_socket = call_send 2 (JInt 8) (call_send 1 (JInt 7) (new_socket (Some 5) 0))"

lemma ex_socket_run: "(send_step p)\<^sup>*\<^sup>* (new_socket (Some 5) 0) ex_socket"
proof -
  have "send_step p (new_socket (Some 5) 0) (call_send 1 (JInt 7) (new_socket (Some 5) 0))"
    by (rule called) (simp add: new_socket_def)
  moreover have "send_step p (call_send 1 (JInt 7) (new_socket (Some 5) 0)) ex_socket"
    unfolding ex_socket_def by (rule called) (simp add: call_send_def acquire_def start_write_def new_socket_def the_lock_def new_lock_def)
  ultimately show ?thesis by (meson converse_rtranclp_into_rtranclp r_into_rtranclp)
qed

lemma ex_socket_state:
  "wire ex_socket = [Begins 1 (JInt 7)]" "calls ex_socket = [1, 2]" "map_option sd_phase (dget (senders ex_socket) 2) = Some Waiting"
  "dget (senders ex_socket) 2 = Some \<lparr>sd_frame = JInt 8, sd_phase = Waiting, sd_since = 0, sd_asked = 0, sd_ahead = 1, sd_got = 0\<rparr>"
  "sock_clock ex_socket = 0"
  by (simp_all add: ex_socket_def call_send_def acquire_def start_write_def new_socket_def the_lock_def new_lock_def)

theorem frames_whole_witness:
  "wire ex_socket = [Begins 1 (JInt 7)] \<and> calls ex_socket = [1, 2] \<and>
   length (filter (\<lambda>(t, s). sd_phase s \<noteq> Waiting) (senders ex_socket)) \<le> 1 \<and> subseq (begun (wire ex_socket)) (calls ex_socket)"
  using frames_whole [OF ex_socket_run [of CloseSlow]] ex_socket_state by simp

text \<open>C26: On a socket with a time-out of \<open>T\<close> seconds a frame waits, before its write begins, at most \<open>T + 1\<close>
  seconds for each send that was before it, provided that timers fire on time; and no send keeps the
  others waiting longer than that.\<close>

theorem frame_wait_bounded:
  assumes "(send_step p)\<^sup>*\<^sup>* (new_socket (Some T) now) k" "0 \<le> T" "dget (senders k) t = Some s"
  shows "(if sd_phase s = Waiting then sock_clock k else sd_got s) - sd_asked s \<le> real (sd_ahead s) * (T + 1) \<and>
    (sd_phase s = Waiting \<or> sock_clock k - sd_got s \<le> T + 1)"
proof -
  have "timed_inv T (new_socket (Some T) now)"
    using assms(2) sock_inv_new wait_inv_new by (simp add: timed_inv_def new_socket_def)
  from timed.run_inv [OF assms(1) this] have inv: "sock_inv k" "wait_inv T k" by (simp_all add: timed_inv_def)
  show ?thesis
  proof (cases "sd_phase s = Waiting")
    case True
    then have "t \<in> set (waiters (the_lock k))" using inv(1) assms(3) by (auto simp: sock_inv_def lock_inv_def phase_of_def)
    from waits_member [OF assms(2) turn_wait [OF assms(2) inv] this]
    show ?thesis using True assms(3) by auto
  next
    case False
    then have "held_ok T (sock_clock k) s" using inv(2) assms(3) by (auto simp: wait_inv_def)
    with held_time [OF this assms(2)] show ?thesis using False by (simp add: held_ok_def)
  qed
qed

theorem frame_wait_bounded_witness:
  "dget (senders ex_socket) 2 = Some \<lparr>sd_frame = JInt 8, sd_phase = Waiting, sd_since = 0, sd_asked = 0, sd_ahead = 1, sd_got = 0\<rparr> \<and>
   sock_clock ex_socket - 0 \<le> real 1 * (5 + 1)"
  using frame_wait_bounded [OF ex_socket_run [of CloseSlow] _ ex_socket_state(4)] ex_socket_state(4) by simp

end
