(* ===== verification/Key_Generator.thy ===== *)
theory Key_Generator
  imports Startup
begin

text \<open>
  \<^verbatim>\<open>generate_signing_key.py\<close>: the tool that makes the key of a node and prints the pin its peers
  configure. The key generator, the PEM writer and the resolution of a path are arguments, as is
  what the file system does; other processes may change it between the check for an existing file
  and the creation of the new one.
\<close>

section \<open>Definitions\<close>

record disk_file =
  file_bytes :: bytes
  file_mode :: nat

type_synonym file_system = "pystr \<Rightarrow> disk_file option"

text \<open>What can go wrong on disk; a failed write leaves some of the bytes.\<close>

datatype disk = DiskOk | MkdirFails | OpenFails | WriteFails nat

datatype keygen_result = KeyExists | KeygenRaised | Printed "pystr list"

text \<open>\<^verbatim>\<open>os.open(path, O_WRONLY | O_CREAT | O_EXCL, 0o600)\<close>\<close>

definition open_excl :: "pystr \<Rightarrow> nat \<Rightarrow> file_system \<Rightarrow> file_system option" where
  "open_excl path mode fs = (if fs path \<noteq> None then None else Some (fs(path \<mapsto> \<lparr>file_bytes = [], file_mode = mode\<rparr>)))"

definition write_file :: "pystr \<Rightarrow> bytes \<Rightarrow> file_system \<Rightarrow> file_system" where
  "write_file path b fs = (case fs path of None \<Rightarrow> fs | Some f \<Rightarrow> fs(path \<mapsto> f\<lparr>file_bytes := b\<rparr>))"

text \<open>
  \<open>before\<close> is the file system at the check, \<open>fs\<close> when the file is opened. \<open>key\<close> is the generated key.
\<close>

definition keygen_main ::
  "(pystr \<Rightarrow> pystr) \<Rightarrow> ('key \<Rightarrow> bytes) \<Rightarrow> ('key \<Rightarrow> bytes) \<Rightarrow> (bytes \<Rightarrow> bytes) \<Rightarrow> 'key \<Rightarrow> disk \<Rightarrow> pystr \<Rightarrow>
     file_system \<Rightarrow> file_system \<Rightarrow> keygen_result \<times> file_system" where
  "keygen_main resolve pem_of public_of sha256 key dk arg before fs =
     (let path = resolve arg
      in if before path \<noteq> None then (KeyExists, fs)
         else if dk = MkdirFails \<or> dk = OpenFails then (KeygenRaised, fs)
         else case open_excl path 384 fs of
                None \<Rightarrow> (KeygenRaised, fs)
              | Some fs1 \<Rightarrow>
                  (case dk of
                     WriteFails n \<Rightarrow> (KeygenRaised, write_file path (take n (pem_of key)) fs1)
                   | _ \<Rightarrow> (Printed [u ''key_file='' @ path, u ''server_key_pin='' @ hex (sha256 (public_of key))],
                           write_file path (pem_of key) fs1)))"

text \<open>\<^verbatim>\<open>Path(...).read_bytes()\<close> on such a file system\<close>

definition read_bytes :: "file_system \<Rightarrow> pystr \<Rightarrow> bytes result" where
  "read_bytes fs path = (case fs path of None \<Rightarrow> Inl (RuntimeError ''no such file'') | Some f \<Rightarrow> Inr (file_bytes f))"

section \<open>Lemmas\<close>

lemma keygen_only_path: "path \<noteq> resolve arg \<Longrightarrow>
    snd (keygen_main resolve pem_of public_of sha256 key dk arg before fs) path = fs path"
  by (auto simp: keygen_main_def Let_def open_excl_def write_file_def split: disk.split option.split)

lemma keygen_existing: "fs (resolve arg) \<noteq> None \<Longrightarrow>
    snd (keygen_main resolve pem_of public_of sha256 key dk arg before fs) = fs"
  by (auto simp: keygen_main_def Let_def open_excl_def split: disk.split)

lemma keygen_printed:
  assumes "keygen_main resolve pem_of public_of sha256 key dk arg before fs = (Printed lines, fs')"
  shows "fs' (resolve arg) = Some \<lparr>file_bytes = pem_of key, file_mode = 384\<rparr>"
    "lines = [u ''key_file='' @ resolve arg, u ''server_key_pin='' @ hex (sha256 (public_of key))]"
  using assms by (auto simp: keygen_main_def Let_def open_excl_def write_file_def split: if_splits disk.splits)

section \<open>Properties\<close>

text \<open>The key generator changes no file that exists: whatever other processes do between its check and
  the creation of the file and however the disk fails, every file there was is there unchanged; and
  it claims success only for a file that has the whole key and is readable by its owner alone.\<close>

theorem keygen_never_overwrites:
  "(\<forall>path f. fs path = Some f \<longrightarrow> snd (keygen_main resolve pem_of public_of sha256 key dk arg before fs) path = Some f) \<and>
   (\<forall>lines. fst (keygen_main resolve pem_of public_of sha256 key dk arg before fs) = Printed lines \<longrightarrow>
      snd (keygen_main resolve pem_of public_of sha256 key dk arg before fs) (resolve arg) =
        Some \<lparr>file_bytes = pem_of key, file_mode = 384\<rparr>)"
proof (intro conjI allI impI)
  show "snd (keygen_main resolve pem_of public_of sha256 key dk arg before fs) path = Some f" if "fs path = Some f" for path f
    using that keygen_only_path [of path resolve arg pem_of public_of sha256 key dk before fs]
      keygen_existing [of fs resolve arg pem_of public_of sha256 key dk before]
    by (cases "path = resolve arg") simp_all
  show "snd (keygen_main resolve pem_of public_of sha256 key dk arg before fs) (resolve arg) =
      Some \<lparr>file_bytes = pem_of key, file_mode = 384\<rparr>"
    if "fst (keygen_main resolve pem_of public_of sha256 key dk arg before fs) = Printed lines" for lines
    using that keygen_printed(1) [of resolve pem_of public_of sha256 key dk arg before fs lines]
    by (cases "keygen_main resolve pem_of public_of sha256 key dk arg before fs") simp
qed

text \<open>C33: A generated key serves: a node whose configuration names the printed file loads exactly the
  generated key, its key id is the printed pin, and a peer that pins what was printed accepts the
  manifests the node signs while they and the key are valid.\<close>

theorem generated_key_pinned:
  assumes "keygen_main resolve pem_of public_of (tp_sha256 P) key dk arg before fs = (Printed [file_line, u ''server_key_pin='' @ pin], fs')"
    and "signing_key_pem c = []" "signing_key_file c = resolve arg" "resolve arg \<noteq> []"
    and "load_pem (pem_of key) = Inr key" "pem_of key \<noteq> []" "right_curve key" "public_of key \<noteq> []"
    and "node_trust_init P c (public_of key) started = Inr tr"
    and "ecdsa_ok P (public_of key)"
    and "sign_object P tr (manifest_payload tr t) = Inr m"
    and "signing_key_activates_at c \<le> now" "now \<le> signing_key_expires_at c"
  shows "load_private_key (read_bytes fs') load_pem right_curve fresh c = Inr key \<and> trust_key_id tr = pin \<and>
    parse_signed_manifest P m pin now = Inr (Some (manifest_payload tr t))"
proof (intro conjI)
  note printed = keygen_printed [OF assms(1)]
  show "load_private_key (read_bytes fs') load_pem right_curve fresh c = Inr key"
    using printed(1) assms(2-7) by (simp add: load_private_key_def read_bytes_def)
  have tr: "trust_key_id tr = hex (tp_sha256 P (public_of key))" "trust_public_key tr = public_of key" "trust_config tr = c"
    using assms(9) by (auto simp: node_trust_init_def rbind_eq_Inr)
  then show pin: "trust_key_id tr = pin" using printed(2) by simp
  show "parse_signed_manifest P m pin now = Inr (Some (manifest_payload tr t))"
    using manifest_roundtrip [OF _ trust_ok_init [OF assms(9,8)] assms(11)] assms(10,12,13) tr pin by simp
qed

definition ex_keyed :: config where
  "ex_keyed = default_config\<lparr>signing_key_file := u ''/k''\<rparr>"

definition ex_keygen :: "keygen_result \<times> file_system" where
  "ex_keygen = keygen_main id (\<lambda>_. [1]) (\<lambda>_. [4]) (tp_sha256 ex_tp) () DiskOk (u ''/k'') (\<lambda>_. None) ((\<lambda>_. None)(u ''/o'' \<mapsto> \<lparr>file_bytes = [7], file_mode = 420\<rparr>))"

theorem keygen_never_overwrites_witness:
  "snd ex_keygen (u ''/o'') = Some \<lparr>file_bytes = [7], file_mode = 420\<rparr> \<and> snd ex_keygen (u ''/k'') = Some \<lparr>file_bytes = [1], file_mode = 384\<rparr>"
proof -
  note k = keygen_never_overwrites [of "(\<lambda>_. None)(u ''/o'' \<mapsto> \<lparr>file_bytes = [7], file_mode = 420\<rparr>)" id
      "\<lambda>_. [1]" "\<lambda>_. [4]" "tp_sha256 ex_tp" "()" DiskOk "u ''/k''" "\<lambda>_. None", folded ex_keygen_def]
  have "fst ex_keygen = Printed [u ''key_file='' @ u ''/k'', u ''server_key_pin='' @ hex (replicate 32 0)]"
    by (simp add: ex_keygen_def keygen_main_def Let_def open_excl_def ex_tp_def)
  then show ?thesis using k by simp
qed

theorem generated_key_pinned_witness:
  "\<exists>tr m. load_private_key (read_bytes (snd ex_keygen)) (\<lambda>b. Inr ()) (\<lambda>_. True) () ex_keyed = Inr () \<and>
     node_trust_init ex_tp ex_keyed [4] 100 = Inr tr \<and> parse_signed_manifest ex_tp m (hex (replicate 32 0)) 100 = Inr (Some (manifest_payload tr 100))"
proof -
  let ?tr = "ex_trust\<lparr>trust_config := ex_keyed\<rparr>"
  have gen: "ex_keygen = (Printed [u ''key_file='' @ u ''/k'', u ''server_key_pin='' @ hex (replicate 32 0)], snd ex_keygen)"
    by (simp add: ex_keygen_def keygen_main_def Let_def open_excl_def ex_tp_def)
  have tr: "node_trust_init ex_tp ex_keyed [4] 100 = Inr ?tr"
    by (simp add: node_trust_init_def ex_tp_def ex_keyed_def ex_trust_def raise_if_def) (simp add: default_config_def)
  have "manifest_payload ?tr 100 = manifest_payload ex_trust 100"
    by (simp add: manifest_payload_def ex_keyed_def ex_trust_def)
  then obtain m where "sign_object ex_tp ?tr (manifest_payload ?tr 100) = Inr m"
    using sign_object_ok [OF ex_trust_ok(4), of "manifest_payload ?tr 100" ?tr] ex_manifest_encodable by auto
  from generated_key_pinned [where now = 100 and right_curve = "\<lambda>_. True" and fresh = "()" and load_pem = "\<lambda>b. Inr ()"
      and c = ex_keyed, OF gen [unfolded ex_keygen_def] _ _ _ _ _ _ _ tr _ this]
  show ?thesis using tr ex_trust_ok(1) by (auto simp: ex_keyed_def ex_trust_def default_config_def ex_keygen_def)
qed

end
