(* ===== verification/Spec2Isabelle.thy ===== *)
theory Spec2Isabelle
  imports Server_Properties Server_Liveness V2_Properties Mesh_Properties Hub_Properties Json_Roundtrip
    Mesh_Placement Mesh_Membership Operations Startup Hpke Health Cluster Application Sockets Key_Generator
begin

text \<open>
  A verification of the Particle master server (\<^verbatim>\<open>src/app\<close>), an in-memory rendezvous and signalling
  server: clients prove a key over a WebSocket, attach to routes and exchange messages and sealed
  signals with the other subscribers; trusted nodes form a mesh that places routes on owners and
  forwards signals between nodes.

  \<^bold>\<open>The program and its theories.\<close> Each theory opens with what it holds.
  \<^item> \<^verbatim>\<open>Prelude\<close>: Python strings (code points) and UTF-8, bytes and hexadecimal text, dictionaries in
    insertion order (association lists), exceptions as the values of a sum type.
  \<^item> \<^verbatim>\<open>Json\<close>, \<^verbatim>\<open>Strict_Json\<close>, \<^verbatim>\<open>Canonical\<close>, \<^verbatim>\<open>Json_Roundtrip\<close>: \<^verbatim>\<open>json.loads\<close> and \<^verbatim>\<open>json.dumps\<close> as the
    code uses them, \<^verbatim>\<open>strict_json.py\<close> (nesting pre-scan, unique keys, iterative tree walk) and
    \<^verbatim>\<open>canonical.py\<close>.
  \<^item> \<^verbatim>\<open>Protocol\<close> (\<^verbatim>\<open>protocol.py\<close>), \<^verbatim>\<open>Rate_Limits\<close> (\<^verbatim>\<open>rate_limits.py\<close>), \<^verbatim>\<open>Metrics\<close> (\<^verbatim>\<open>metrics.py\<close>),
    \<^verbatim>\<open>Config\<close> (\<^verbatim>\<open>config.py\<close>), \<^verbatim>\<open>Session_Crypto\<close> (\<^verbatim>\<open>session_crypto.py\<close>), \<^verbatim>\<open>Trust\<close> (\<^verbatim>\<open>trust.py\<close>), \<^verbatim>\<open>Turn\<close>
    (\<^verbatim>\<open>turn.py\<close>), \<^verbatim>\<open>Health\<close> (\<^verbatim>\<open>health.py\<close>), \<^verbatim>\<open>Hpke\<close> (\<^verbatim>\<open>hpke.py\<close>).
  \<^item> \<^verbatim>\<open>Hub\<close> (\<^verbatim>\<open>hub.py\<close>) with \<^verbatim>\<open>Hub_Routes\<close>, \<^verbatim>\<open>Hub_Queues\<close>, \<^verbatim>\<open>Hub_Dedupe\<close>, \<^verbatim>\<open>Hub_Properties\<close>: sessions,
    leases, outbound queues with their writer tasks, the replay cache, the cleanup loop of
    \<^verbatim>\<open>main.py\<close>.
  \<^item> \<^verbatim>\<open>V1_Routes\<close>, \<^verbatim>\<open>V1_Relay\<close>, \<^verbatim>\<open>V1_System\<close>, \<^verbatim>\<open>V1_Properties\<close> (\<^verbatim>\<open>routes.py\<close>): the V1 endpoint, its handlers and
    all its connections as a step relation.
  \<^item> \<^verbatim>\<open>V2_Routes\<close>, \<^verbatim>\<open>V2_Frames\<close>, \<^verbatim>\<open>V2_Properties\<close> (\<^verbatim>\<open>v2.py\<close>): admission and TURN requests, the V2 WebSocket
    handlers, signals.
  \<^item> \<^verbatim>\<open>Node_Mesh\<close>, \<^verbatim>\<open>Node_Links\<close> (\<^verbatim>\<open>node_mesh.py\<close>) with \<^verbatim>\<open>Mesh_Placement\<close>, \<^verbatim>\<open>Mesh_Membership\<close>,
    \<^verbatim>\<open>Mesh_Invariant\<close>, \<^verbatim>\<open>Mesh_Steps\<close>, \<^verbatim>\<open>Mesh_Properties\<close>: registry, replication, discovery, forwarding,
    links and membership.
  \<^item> \<^verbatim>\<open>Operations\<close>: Prometheus text, the probe loop, \<^verbatim>\<open>/metrics\<close>, \<^verbatim>\<open>/status\<close>, \<^verbatim>\<open>/v2/manifest\<close>, the start-up
    check of the allowed origins. \<^verbatim>\<open>Startup\<close>: reading the environment, loading the signing key, and the
    filter on incoming frames (\<^verbatim>\<open>ws_io.py\<close>). \<^verbatim>\<open>Key_Generator\<close>: \<^verbatim>\<open>generate_signing_key.py\<close>.
  \<^item> \<^verbatim>\<open>Sockets\<close>: the tasks that write to one socket (\<^verbatim>\<open>send_json_frame\<close> of \<^verbatim>\<open>ws_io.py\<close>, \<^verbatim>\<open>_bounded_send\<close> of
    \<^verbatim>\<open>node_mesh.py\<close>): lock, time-out, closing of a slow client, cancellation, as a step relation.
  \<^item> \<^verbatim>\<open>Server\<close>, \<^verbatim>\<open>Server_Invariant\<close>, \<^verbatim>\<open>Server_History\<close>, \<^verbatim>\<open>Server_Properties\<close>, \<^verbatim>\<open>Server_Liveness\<close>: everything
    together, as \<^verbatim>\<open>main.py\<close> builds it. \<^verbatim>\<open>Application\<close>: \<^verbatim>\<open>create_app\<close>, the lifespan with its tasks, the process
    probes and the TLS settings.
  \<^item> \<^verbatim>\<open>Mesh_Knowledge\<close>, \<^verbatim>\<open>Cluster\<close>: several servers that exchange their messages, and where the descriptors
    they hold come from. \<^verbatim>\<open>Transitions\<close>: the contracts of step relations, as locales.

  \<^bold>\<open>State and steps.\<close> The hub, the trust object, the limiters and the mesh are records with the
  fields of the classes; a method is a function that returns the updated record with the frames it
  sends and the sockets it closes (\<open>effect\<close>), or an exception (\<open>Inl\<close>). \<open>node_act\<close> is one
  uninterrupted piece of one coroutine: a coroutine is cut where the code awaits something that
  another coroutine can change (a frame, a writer's queue, an answer of the mesh), and anything may
  happen in between. The monotonic clock never goes back and is read once per step; the wall clock
  is arbitrary. Clients and peers are arbitrary: the text of every frame is a free argument
  (\<open>server_act\<close>). In a cluster (\<open>cluster_step\<close>) clients are arbitrary and a link authenticated as node \<open>n\<close>
  brings what node \<open>n\<close> has sent, in any order, late, repeatedly or never; the links' authentication
  is shown for a single server (\<open>link_authenticated\<close>) and rests there on signatures and TLS. Where
  the code leaves the time of an internal action open the relation allows more than the code does
  (a rebalancing may run at any time; the lookup of a remote recipient may or may not drop an
  expired cache entry), so what holds of every run of the relation holds of the server.

  \<^bold>\<open>Parameters.\<close> Packages outside the repository are arguments: SHA-256, HMAC, ECDSA (\<open>trust_prims\<close>,
  \<open>prims\<close>), the curve test, AES-GCM and ECDH (\<open>hpke_prims\<close>), and the text Python gives a float. Where a
  property relies on them it says so (\<open>ecdsa_ok\<close>: a signature verifies under its key; \<open>hpke_laws\<close>),
  and its witness has a concrete instance. Random values (challenges, session and request ids)
  are arguments; \<open>server_step\<close> only assumes that session ids do not repeat.

  \<^bold>\<open>What is shown.\<close>
  \<^item> Whole server: every reachable state satisfies the invariant of hub, sessions, mesh and links;
    memory is bounded by the configuration; leases belong to proven sessions; every step refines
    the abstract life of a session (connect, greet once, prove, close); no V1 message is relayed
    twice within the window and V2 sequence numbers strictly increase, over any interleaving; a V2
    connection that is lost can always be torn down completely; and from reading the environment
    through start and service to stop the invariant holds and no task or mesh state is left over.
  \<^item> Cluster: every node refines the single server, and every peer a client is told about was a proven
    live session of the node it names, with the key that is handed out.
  \<^item> Sockets: frames go out whole, one at a time, in the order of the calls, and wait at most the
    time-out and a second for each frame before them. This assumes that timers fire on time.
  \<^item> Decoding: the strict decoder accepts exactly the texts within its limits, the character
    pre-scan decides the nesting depth, decoding inverts printing, canonical bytes bind the value.
  \<^item> Endpoints: who receives a relayed message, what an accepted signal guarantees and when a
    signal is delivered, what HELLO demands, which exceptions escape, hop and rate bounds.
  \<^item> Mesh: what a link requires and what a linked peer can change, true acknowledgements and
    effective registrations across two nodes, overlapping quorums, exact membership, placement by
    rendezvous hashing that moves little on a departure.
  \<^item> Credentials: grants bind their key, manifests and greetings authenticate, sealed messages open, a
    generated key is loaded and its printed pin accepted.

  The locales state the contracts these proofs share: token buckets, the replay cache, majorities, the
  configuration after its check, and invariants (\<open>preserved\<close>), simulations (\<open>simulated\<close>) and growth
  (\<open>growing\<close>) of step relations; each is interpreted on the definitions of the model.

  \<^bold>\<open>Fuel and bounds.\<close> Only the JSON scanner is fuelled; \<open>json_loads\<close> gives it one unit more than twice the
  length of the text and \<open>scan_fuel_enough\<close> shows that this never runs out. Everything else is
  structural or has a termination proof (\<open>tree_loop\<close>, by the nodes left). Times and token counts are
  exact reals where the code has floats; a decoded number literal is a real or an infinity.

  \<^bold>\<open>Not modelled.\<close> What the operating system answers to the probes (arguments, the Windows call
  included), what TLS does with its settings, the registration of routes and middleware with FastAPI,
  the English texts of errors, and the package calls around which nothing is decided (key pairs,
  challenges, encodings of points). The tests and the scripts outside \<^verbatim>\<open>src/app\<close> other than the key
  generator are no part of the server. Liveness of the mesh over whole runs (a registration spreads, a
  departed node is dropped in the end) needs assumptions on the network that the code does not make; it
  is shown for two nodes and for one exchange.
\<close>

end
